(* ===== verification/Prelude.thy ===== *)
theory Prelude
  imports Main "HOL-Library.Word"
begin

text \<open>
  Shared vocabulary of the development: Go's fixed-width signed integers as
  \<^typ>\<open>int\<close> with the two's complement wrap-around written out, byte slices, the result
  type of a function that may fail, and the generic list lemmas that the component
  theories share. The collection \<open>go_int\<close> holds the facts that remove a wrap-around
  whose argument is in range; \<open>go_slice\<close> the facts on slices.
\<close>

named_theorems go_int \<open>removal of wrap-arounds that do not happen\<close>
named_theorems go_slice \<open>slices of byte buffers\<close>

section \<open>Integers of a fixed width\<close>

text \<open>
  A Go \<^verbatim>\<open>int64\<close> is an \<^typ>\<open>int\<close> in the range \<open>in64\<close>; the result of each addition,
  subtraction and multiplication is wrapped with \<open>wrap64\<close>. \<^verbatim>\<open>int32\<close> (span IDs) likewise.
\<close>

definition wrap64 :: "int \<Rightarrow> int" where
  "wrap64 x = (x + 9223372036854775808) mod 18446744073709551616 - 9223372036854775808"

definition wrap32 :: "int \<Rightarrow> int" where
  "wrap32 x = (x + 2147483648) mod 4294967296 - 2147483648"

abbreviation max_int64 :: int where
  "max_int64 \<equiv> 9223372036854775807"

abbreviation max_int32 :: int where
  "max_int32 \<equiv> 2147483647"

definition in64 :: "int \<Rightarrow> bool" where
  "in64 x \<longleftrightarrow> - 9223372036854775808 \<le> x \<and> x \<le> max_int64"

definition in32 :: "int \<Rightarrow> bool" where
  "in32 x \<longleftrightarrow> - 2147483648 \<le> x \<and> x \<le> max_int32"

lemma wrap64_id [go_int]:
  "- 9223372036854775808 \<le> x \<Longrightarrow> x \<le> max_int64 \<Longrightarrow> wrap64 x = x"
  by (simp add: wrap64_def)

lemma wrap32_id [go_int]:
  "- 2147483648 \<le> x \<Longrightarrow> x \<le> max_int32 \<Longrightarrow> wrap32 x = x"
  by (simp add: wrap32_def)

lemma in64_wrap64 [simp]: "in64 (wrap64 x)"
proof -
  have "(x + 9223372036854775808) mod 18446744073709551616 < 18446744073709551616"
    by (rule pos_mod_bound) simp
  then show ?thesis by (simp add: in64_def wrap64_def)
qed

lemma in32_wrap32 [simp]: "in32 (wrap32 x)"
proof -
  have "(x + 2147483648) mod 4294967296 < 4294967296"
    by (rule pos_mod_bound) simp
  then show ?thesis by (simp add: in32_def wrap32_def)
qed

text \<open>Division as the interval that contains the dividend.\<close>

lemma div_interval:
  fixes s x :: int
  assumes "0 < s"
  shows "s * (x div s) \<le> x" and "x < s * (x div s) + s"
  using mult_div_mod_eq [of s x] pos_mod_sign [OF assms, of x] pos_mod_bound [OF assms, of x]
  by linarith+

lemma div_unique_interval:
  fixes s x q :: int
  assumes "0 < s" and "s * q \<le> x" and "x < s * q + s"
  shows "x div s = q"
  using int_div_pos_eq [of x s q "x - s * q"] assms by simp

text \<open>
  Go's \<^verbatim>\<open>/\<close> and \<^verbatim>\<open>%\<close> on signed integers truncate towards zero; a zero divisor panics
  (\<^const>\<open>None\<close>).
\<close>

definition go_quot :: "int \<Rightarrow> int \<Rightarrow> int option" where
  "go_quot a b = (if b = 0 then None else Some (wrap64 (sgn a * sgn b * (\<bar>a\<bar> div \<bar>b\<bar>))))"

definition go_rem :: "int \<Rightarrow> int \<Rightarrow> int option" where
  "go_rem a b = (if b = 0 then None else Some (sgn a * (\<bar>a\<bar> mod \<bar>b\<bar>)))"

lemma go_quot_pos [go_int]:
  assumes "0 \<le> a" and "0 < b" and "a \<le> max_int64"
  shows "go_quot a b = Some (a div b)"
proof -
  have "0 \<le> a div b" and "a div b \<le> a"
    using assms zdiv_mono2 [of a 1 b] by (simp_all add: pos_imp_zdiv_nonneg_iff)
  moreover have "sgn a * sgn b * (\<bar>a\<bar> div \<bar>b\<bar>) = a div b" using assms by (cases "a = 0") simp_all
  ultimately have "wrap64 (sgn a * sgn b * (\<bar>a\<bar> div \<bar>b\<bar>)) = a div b"
    using assms(3) by (simp only:) (simp add: wrap64_id)
  then show ?thesis using assms(2) by (simp only: go_quot_def) simp
qed

lemma go_rem_pos [go_int]: "0 \<le> a \<Longrightarrow> 0 < b \<Longrightarrow> go_rem a b = Some (a mod b)"
  by (cases "a = 0") (simp_all add: go_rem_def)

section \<open>Byte slices\<close>

type_synonym byte = "8 word"
type_synonym bytes = "byte list"

text \<open>
  The expression \<^verbatim>\<open>b[lo:hi]\<close> on a buffer whose capacity is its length: it panics, here
  \<^const>\<open>None\<close>, unless \<open>0 \<le> lo \<le> hi \<le> len(b)\<close>.
\<close>

definition slice :: "'a list \<Rightarrow> int \<Rightarrow> int \<Rightarrow> 'a list option" where
  "slice b lo hi =
     (if 0 \<le> lo \<and> lo \<le> hi \<and> hi \<le> int (length b)
      then Some (take (nat hi - nat lo) (drop (nat lo) b)) else None)"

definition sub :: "'a list \<Rightarrow> int \<Rightarrow> int \<Rightarrow> 'a list" where
  "sub b lo hi = take (nat hi - nat lo) (drop (nat lo) b)"

lemma slice_eq [go_slice]:
  "0 \<le> lo \<Longrightarrow> lo \<le> hi \<Longrightarrow> hi \<le> int (length b) \<Longrightarrow> slice b lo hi = Some (sub b lo hi)"
  by (simp add: slice_def sub_def)

lemma slice_Some_iff:
  "slice b lo hi = Some c \<longleftrightarrow> 0 \<le> lo \<and> lo \<le> hi \<and> hi \<le> int (length b) \<and> c = sub b lo hi"
  by (auto simp: slice_def sub_def)

lemma length_sub [go_slice]:
  "0 \<le> lo \<Longrightarrow> lo \<le> hi \<Longrightarrow> hi \<le> int (length b) \<Longrightarrow> int (length (sub b lo hi)) = hi - lo"
  by (simp add: sub_def)

lemma sub_empty [simp]: "sub b x x = []"
  by (simp add: sub_def)

lemma sub_all [simp]: "sub b 0 (int (length b)) = b"
  by (simp add: sub_def)

text \<open>Adjacent slices concatenate, and a slice of a slice is a slice.\<close>

lemma sub_append [go_slice]:
  assumes "0 \<le> lo" and "lo \<le> mid" and "mid \<le> hi"
  shows "sub b lo mid @ sub b mid hi = sub b lo hi"
proof -
  have "drop (nat mid) b = drop (nat mid - nat lo) (drop (nat lo) b)"
    using assms by (simp add: nat_mono)
  moreover have "nat hi - nat lo = (nat mid - nat lo) + (nat hi - nat mid)"
    using assms by (simp add: nat_mono)
  ultimately show ?thesis by (simp add: sub_def take_add)
qed

lemma sub_sub [go_slice]:
  assumes "0 \<le> lo" and "0 \<le> i" and "i \<le> j" and "lo + j \<le> hi"
  shows "sub (sub b lo hi) i j = sub b (lo + i) (lo + j)"
proof -
  have n: "nat (lo + i) = nat lo + nat i" "nat (lo + j) = nat lo + nat j"
    using assms by (simp_all add: nat_add_distrib)
  have "nat lo + nat j \<le> nat hi"
    unfolding n(2) [symmetric] using assms(4) by (rule nat_mono)
  then have "nat j - nat i \<le> nat hi - nat lo - nat i" by arith
  then have "min (nat j - nat i) (nat hi - nat lo - nat i) = nat j - nat i" by (rule min_absorb1)
  then show ?thesis
    unfolding sub_def n by (simp add: drop_take ac_simps)
qed

section \<open>Results\<close>

text \<open>
  A Go function with results \<^verbatim>\<open>(T, error)\<close> returns \<open>'e + 't\<close>: \<^const>\<open>Inl\<close> the error,
  \<^const>\<open>Inr\<close> the value. The binding below is the idiom \<^verbatim>\<open>if err != nil { return err }\<close>.
\<close>

definition bind_res :: "'e + 'a \<Rightarrow> ('a \<Rightarrow> 'e + 'b) \<Rightarrow> 'e + 'b" where
  "bind_res r f = (case r of Inl e \<Rightarrow> Inl e | Inr x \<Rightarrow> f x)"

lemma bind_res_simps [simp]:
  "bind_res (Inl e) f = Inl e" "bind_res (Inr x) f = f x"
  by (simp_all add: bind_res_def)

lemma bind_res_Inr_iff:
  "bind_res r f = Inr y \<longleftrightarrow> (\<exists>x. r = Inr x \<and> f x = Inr y)"
  by (cases r) auto

lemma bind_res_Inl_iff:
  "bind_res r f = Inl e \<longleftrightarrow> r = Inl e \<or> (\<exists>x. r = Inr x \<and> f x = Inl e)"
  by (cases r) auto

definition is_ok :: "'e + 'a \<Rightarrow> bool" where
  "is_ok r \<longleftrightarrow> (case r of Inl _ \<Rightarrow> False | Inr _ \<Rightarrow> True)"

lemma is_ok_simps [simp]: "\<not> is_ok (Inl e)" "is_ok (Inr x)"
  by (simp_all add: is_ok_def)

lemma is_ok_iff: "is_ok r \<longleftrightarrow> (\<exists>x. r = Inr x)"
  by (cases r) auto

section \<open>Little-endian integers\<close>

fun enc_le :: "nat \<Rightarrow> int \<Rightarrow> bytes" where
  "enc_le 0 x = []"
| "enc_le (Suc n) x = word_of_int x # enc_le n (x div 256)"

fun dec_le :: "bytes \<Rightarrow> int" where
  "dec_le [] = 0"
| "dec_le (b # bs) = uint b + 256 * dec_le bs"

lemma length_enc_le [simp]: "length (enc_le n x) = n"
  by (induction n arbitrary: x) auto

lemma dec_enc_le: "dec_le (enc_le n x) = x mod 256 ^ n"
proof (induction n arbitrary: x)
  case 0
  then show ?case by simp
next
  case (Suc n)
  have "x mod (256 * 256 ^ n) = 256 * (x div 256 mod 256 ^ n) + x mod 256"
    by (rule zmod_zmult2_eq) simp
  then show ?case using Suc by (simp add: uint_word_of_int)
qed

lemma dec_le_64: "in64 x \<Longrightarrow> wrap64 (dec_le (enc_le 8 x)) = x"
  by (simp add: dec_enc_le wrap64_def in64_def) (smt (verit) mod_pos_pos_trivial mod_add_left_eq)

lemma dec_le_32: "in32 x \<Longrightarrow> wrap32 (dec_le (enc_le 4 x)) = x"
  by (simp add: dec_enc_le wrap32_def in32_def) (smt (verit) mod_pos_pos_trivial mod_add_left_eq)

section \<open>Lists\<close>

lemma length_filter_update:
  assumes "h < length xs"
  shows "length (filter P (xs[h := y])) + (if P (xs ! h) then 1 else 0) =
    length (filter P xs) + (if P y then 1 else (0::nat))"
proof -
  have "length (filter P xs) = length (filter P (take h xs @ xs ! h # drop (Suc h) xs))"
    by (simp only: id_take_nth_drop [OF assms, symmetric])
  then show ?thesis unfolding upd_conv_take_nth_drop [OF assms] by simp
qed

lemma nth_upd: "xs[i := x] ! j = (if i = j \<and> i < length xs then x else xs ! j)"
  by (cases "i < length xs") (auto simp: nth_list_update list_update_beyond)

section \<open>Decimal numbers\<close>

text \<open>\<^verbatim>\<open>fmt.Sprintf\<close> with the verb for decimal integers.\<close>

fun nat_str :: "nat \<Rightarrow> string" where
  "nat_str n = (if n < 10 then [char_of (48 + n)] else nat_str (n div 10) @ [char_of (48 + n mod 10)])"

declare nat_str.simps [simp del]

definition itoa :: "int \<Rightarrow> string" where
  "itoa i = (if i < 0 then CHR ''-'' # nat_str (nat (- i)) else nat_str (nat i))"

definition str_val :: "string \<Rightarrow> nat" where
  "str_val s = foldl (\<lambda>a c. 10 * a + (of_char c - 48)) 0 s"

lemma str_val_nat_str: "str_val (nat_str n) = n"
proof (induction n rule: nat_str.induct)
  case (1 n)
  show ?case
  proof (cases "n < 10")
    case True
    then show ?thesis by (simp add: nat_str.simps [of n] str_val_def)
  next
    case False
    then show ?thesis using 1 by (simp add: nat_str.simps [of n] str_val_def)
  qed
qed

lemma itoa_inject: "0 \<le> i \<Longrightarrow> 0 \<le> j \<Longrightarrow> itoa i = itoa j \<longleftrightarrow> i = j"
  by (auto simp: itoa_def) (metis str_val_nat_str eq_nat_nat_iff)

section \<open>Neighbouring slices\<close>

lemma concat_subs:
  assumes "\<forall>k < n. lo k \<le> hi k" and "\<forall>k. Suc k < n \<longrightarrow> hi k = lo (Suc k)" and "0 \<le> lo 0" and "0 < n"
  shows "concat (map (\<lambda>k. sub b (lo k) (hi k)) [0..<n]) = sub b (lo 0) (hi (n - 1)) \<and> lo 0 \<le> lo (n - 1)"
  using assms(4,1,2)
proof (induction n rule: nat_induct_non_zero)
  case 1
  then show ?case by simp
next
  case (Suc n)
  obtain k where n: "n = Suc k" using Suc.hyps gr0_conv_Suc by blast
  have p: "\<forall>k < n. lo k \<le> hi k" "\<forall>k. Suc k < n \<longrightarrow> hi k = lo (Suc k)"
    using Suc.prems less_SucI by blast+
  have IH: "concat (map (\<lambda>k. sub b (lo k) (hi k)) [0..<n]) = sub b (lo 0) (hi (n - 1))" "lo 0 \<le> lo (n - 1)"
    using Suc.IH [OF p] by auto
  moreover have "lo (n - 1) \<le> hi (n - 1)" "hi (n - 1) = lo n" "lo n \<le> hi n"
    using Suc.prems(2) [rule_format, of k] Suc.prems(1) [rule_format, of k] Suc.prems(1) [rule_format, of n]
    by (simp_all add: n)
  moreover from calculation have "lo 0 \<le> lo n" by linarith
  ultimately show ?case using assms(3) sub_append [of "lo 0" "lo n" "hi n" b] by simp
qed

end
