(* ===== verification/Remote_Regions.thy ===== *)
theory Remote_Regions
  imports Prelude
begin

text \<open>
  The byte ranges of a remote blob that have been fetched, \<^verbatim>\<open>fs/remote/util.go\<close>: a
  region is an inclusive range as HTTP range requests have it, and a region set a slice
  of regions kept sorted, disjoint and merged where they touch. The abstraction of a
  region set is the set of byte positions it covers.
\<close>

section \<open>Regions\<close>

record region =
  reg_b :: int
  reg_e :: int

definition region_size :: "region \<Rightarrow> int" where
  "region_size c = wrap64 (wrap64 (reg_e c - reg_b c) + 1)"

fun superRegion_loop :: "region \<Rightarrow> region list \<Rightarrow> region" where
  "superRegion_loop s [] = s"
| "superRegion_loop s (reg # regs) =
     (let s1 = (if reg_b reg < reg_b s then s\<lparr>reg_b := reg_b reg\<rparr> else s);
          s2 = (if reg_e s1 < reg_e reg then s1\<lparr>reg_e := reg_e reg\<rparr> else s1)
      in superRegion_loop s2 regs)"

text \<open>\<^verbatim>\<open>regs[0]\<close> panics on an empty slice: \<^const>\<open>None\<close>.\<close>

definition superRegion :: "region list \<Rightarrow> region option" where
  "superRegion regs = (case regs of [] \<Rightarrow> None | r # _ \<Rightarrow> Some (superRegion_loop r regs))"

section \<open>Region sets\<close>

type_synonym regionSet = "region list"

text \<open>
  The loop of \<^verbatim>\<open>regionSet.add\<close>, from the last region downwards: \<open>Suc i\<close> is the number of
  regions still to look at, \<open>i\<close> the index of the one looked at.
\<close>

fun add_loop :: "nat \<Rightarrow> region \<Rightarrow> regionSet \<Rightarrow> regionSet" where
  "add_loop 0 r rs = r # rs"
| "add_loop (Suc i) r rs =
     (let l = rs ! i; rs' = take i rs @ drop (Suc i) rs in
      if reg_b l \<le> reg_b r \<and> reg_e r \<le> reg_e l then rs
      else if reg_b l \<le> reg_b r \<and> reg_b r \<le> wrap64 (reg_e l + 1) \<and> reg_e l \<le> reg_e r
        then add_loop i (r\<lparr>reg_b := reg_b l\<rparr>) rs'
      else if reg_b r \<le> reg_b l \<and> reg_b l \<le> wrap64 (reg_e r + 1) \<and> reg_e r \<le> reg_e l
        then add_loop i (r\<lparr>reg_e := reg_e l\<rparr>) rs'
      else if reg_b r \<le> reg_b l \<and> reg_e l \<le> reg_e r then add_loop i r rs'
      else if reg_e l < reg_b r then take (Suc i) rs @ r # drop (Suc i) rs
      else add_loop i r rs)"

definition regionSet_add :: "region \<Rightarrow> regionSet \<Rightarrow> regionSet" where
  "regionSet_add r rs = add_loop (length rs) r rs"

fun totalSize_loop :: "int \<Rightarrow> regionSet \<Rightarrow> int" where
  "totalSize_loop sz [] = sz"
| "totalSize_loop sz (f # rs) = totalSize_loop (wrap64 (sz + region_size f)) rs"

definition totalSize :: "regionSet \<Rightarrow> int" where
  "totalSize rs = totalSize_loop 0 rs"

section \<open>Abstraction and invariant\<close>

definition reg_set :: "region \<Rightarrow> int set" where
  "reg_set r = {reg_b r..reg_e r}"

definition cover :: "regionSet \<Rightarrow> int set" where
  "cover rs = (\<Union>r \<in> set rs. reg_set r)"

text \<open>A region of a blob of size \<open>n\<close>: non-empty and inside the blob.\<close>

definition reg_ok :: "int \<Rightarrow> region \<Rightarrow> bool" where
  "reg_ok n r \<longleftrightarrow> 0 \<le> reg_b r \<and> reg_b r \<le> reg_e r \<and> reg_e r < n"

definition reg_before :: "region \<Rightarrow> region \<Rightarrow> bool" where
  "reg_before l m \<longleftrightarrow> reg_e l + 1 < reg_b m"

definition regs_ok :: "int \<Rightarrow> regionSet \<Rightarrow> bool" where
  "regs_ok n rs \<longleftrightarrow> n \<le> max_int64 \<and> list_all (reg_ok n) rs \<and> sorted_wrt reg_before rs"

lemmas reg_defs = reg_ok_def reg_before_def reg_set_def

lemma cover_simps [simp]:
  "cover [] = {}" "cover (r # rs) = reg_set r \<union> cover rs" "cover (xs @ ys) = cover xs \<union> cover ys"
  by (auto simp: cover_def)

lemma regs_ok_Nil [simp]: "regs_ok n [] \<longleftrightarrow> n \<le> max_int64"
  by (simp add: regs_ok_def)

text \<open>
  Dropping the region at the seam of two parts keeps the invariant; inserting one there
  keeps it when it fits between the parts.
\<close>

lemma regs_ok_remove: "regs_ok n (xs @ l # ys) \<Longrightarrow> regs_ok n (xs @ ys)"
  by (auto simp: regs_ok_def sorted_wrt_append)

lemma regs_ok_seam:
  assumes "regs_ok n (xs @ l # ys)"
  shows "reg_ok n l" and "\<And>x. x \<in> set xs \<Longrightarrow> reg_before x l"
    and "\<And>y. y \<in> set ys \<Longrightarrow> reg_before l y"
  using assms by (auto simp: regs_ok_def sorted_wrt_append)

lemma regs_ok_insert:
  assumes "regs_ok n (xs @ ys)" and "reg_ok n r"
    and "\<And>x. x \<in> set xs \<Longrightarrow> reg_before x r" and "\<And>y. y \<in> set ys \<Longrightarrow> reg_before r y"
  shows "regs_ok n (xs @ r # ys)"
  using assms by (auto simp: regs_ok_def sorted_wrt_append)

text \<open>One iteration, at the region \<open>l\<close> that ends the part still to be looked at.\<close>

lemma add_loop_snoc:
  assumes "reg_ok n l" and "reg_ok n r" and "n \<le> max_int64"
  shows "add_loop (length (xs @ [l])) r ((xs @ [l]) @ ys) =
     (if reg_b l \<le> reg_b r \<and> reg_e r \<le> reg_e l then xs @ l # ys
      else if reg_b l \<le> reg_b r \<and> reg_b r \<le> reg_e l + 1 \<and> reg_e l \<le> reg_e r
        then add_loop (length xs) (r\<lparr>reg_b := reg_b l\<rparr>) (xs @ ys)
      else if reg_b r \<le> reg_b l \<and> reg_b l \<le> reg_e r + 1 \<and> reg_e r \<le> reg_e l
        then add_loop (length xs) (r\<lparr>reg_e := reg_e l\<rparr>) (xs @ ys)
      else if reg_b r \<le> reg_b l \<and> reg_e l \<le> reg_e r then add_loop (length xs) r (xs @ ys)
      else if reg_e l < reg_b r then (xs @ [l]) @ r # ys
      else add_loop (length xs) r (xs @ l # ys))"
proof -
  have "wrap64 (reg_e l + 1) = reg_e l + 1" and "wrap64 (reg_e r + 1) = reg_e r + 1"
    using assms by (simp_all add: reg_ok_def wrap64_id)
  moreover have "(xs @ l # ys) ! length xs = l" and "take (length xs) (xs @ l # ys) = xs"
    and "drop (Suc (length xs)) (xs @ l # ys) = ys"
    and "take (Suc (length xs)) (xs @ l # ys) = xs @ [l]"
    by simp_all
  ultimately show ?thesis
    by (simp only: length_append_singleton append_assoc append_Cons append_Nil add_loop.simps(2)
        Let_def)
qed

lemma add_loop_ok:
  assumes "regs_ok n (xs @ ys)" and "reg_ok n r" and "\<And>y. y \<in> set ys \<Longrightarrow> reg_before r y"
  shows "regs_ok n (add_loop (length xs) r (xs @ ys)) \<and>
         cover (add_loop (length xs) r (xs @ ys)) = cover (xs @ ys) \<union> reg_set r"
  using assms
proof (induction xs arbitrary: r ys rule: rev_induct)
  case Nil
  then show ?case using regs_ok_insert [of n "[]" ys r] by auto
next
  case (snoc l xs)
  note seam = regs_ok_seam [of n xs l ys, simplified]
  have inv: "regs_ok n (xs @ l # ys)" and small: "regs_ok n (xs @ ys)" and n: "n \<le> max_int64"
    using snoc.prems(1) regs_ok_remove [of n xs l ys] by (simp_all add: regs_ok_def)
  note step = add_loop_snoc [OF seam(1) [OF inv] snoc.prems(2) n]
  have ok: "reg_b l \<le> reg_e l" "reg_b r \<le> reg_e r" "0 \<le> reg_b l" "0 \<le> reg_b r"
    "reg_e l < n" "reg_e r < n"
    using seam(1) [OF inv] snoc.prems(2) by (simp_all add: reg_ok_def)
  consider (within) "reg_b l \<le> reg_b r \<and> reg_e r \<le> reg_e l"
    | (left) "reg_b l \<le> reg_b r" "reg_b r \<le> reg_e l + 1" "reg_e l < reg_e r"
    | (right) "reg_b r < reg_b l" "reg_b l \<le> reg_e r + 1" "reg_e r \<le> reg_e l"
    | (around) "reg_b r < reg_b l" "reg_e l < reg_e r"
    | (after) "reg_before l r" | (before) "reg_before r l"
    using ok unfolding reg_before_def by linarith
  then show ?case
  proof cases
    case within
    then show ?thesis using inv unfolding step by (auto simp: reg_set_def)
  next
    case left
    then have "reg_set (r\<lparr>reg_b := reg_b l\<rparr>) = reg_set l \<union> reg_set r"
      using ok by (auto simp: reg_set_def)
    moreover have "reg_ok n (r\<lparr>reg_b := reg_b l\<rparr>)" using ok left by (simp add: reg_ok_def)
    ultimately show ?thesis
      using snoc.IH [OF small, of "r\<lparr>reg_b := reg_b l\<rparr>"] snoc.prems(3) left
      unfolding step by (auto simp: reg_before_def)
  next
    case right
    then have "reg_set (r\<lparr>reg_e := reg_e l\<rparr>) = reg_set l \<union> reg_set r"
      using ok by (auto simp: reg_set_def)
    moreover have "reg_ok n (r\<lparr>reg_e := reg_e l\<rparr>)" using ok right by (simp add: reg_ok_def)
    ultimately show ?thesis
      using snoc.IH [OF small, of "r\<lparr>reg_e := reg_e l\<rparr>"] seam(3) [OF inv] right
      unfolding step by (auto simp: reg_before_def)
  next
    case around
    then have "reg_set l \<subseteq> reg_set r" by (auto simp: reg_set_def)
    then show ?thesis
      using snoc.IH [OF small snoc.prems(2,3)] around unfolding step by auto
  next
    case after
    then have "regs_ok n ((xs @ [l]) @ r # ys)"
      using regs_ok_insert [OF snoc.prems(1,2)] snoc.prems(3) seam(2) [OF inv] ok
      by (force simp: reg_before_def)
    with after ok show ?thesis unfolding step by (auto simp: reg_before_def)
  next
    case before
    then show ?thesis
      using snoc.IH [OF inv snoc.prems(2)] snoc.prems(3) ok
      unfolding step by (auto simp: reg_before_def)
  qed
qed

lemma regionSet_add_ok:
  assumes "regs_ok n rs" and "reg_ok n r"
  shows "regs_ok n (regionSet_add r rs)" and "cover (regionSet_add r rs) = cover rs \<union> reg_set r"
  using add_loop_ok [of n rs "[]" r] assms by (simp_all add: regionSet_add_def)

section \<open>The size of a region set\<close>

lemma region_size_ok:
  "reg_ok n r \<Longrightarrow> n \<le> max_int64 \<Longrightarrow> region_size r = int (card (reg_set r))"
  by (simp add: region_size_def reg_ok_def reg_set_def wrap64_id)

lemma finite_cover [simp]: "finite (cover rs)"
  by (simp add: cover_def reg_set_def)

lemma cover_bounds: "regs_ok n rs \<Longrightarrow> cover rs \<subseteq> {0..<n}"
  by (fastforce simp: regs_ok_def list_all_iff cover_def reg_defs)

lemma card_cover_le: "regs_ok n rs \<Longrightarrow> 0 \<le> n \<Longrightarrow> int (card (cover rs)) \<le> n"
  using card_mono [OF _ cover_bounds, of n rs] by fastforce

lemma card_cover_Cons:
  assumes "regs_ok n (r # rs)"
  shows "card (cover (r # rs)) = card (reg_set r) + card (cover rs)"
proof -
  have "reg_set r \<inter> cover rs = {}"
    using assms by (fastforce simp: regs_ok_def list_all_iff cover_def reg_defs)
  then show ?thesis by (simp add: card_Un_disjoint reg_set_def)
qed

lemma totalSize_loop_card:
  assumes "regs_ok n rs" and "0 \<le> sz" and "sz + int (card (cover rs)) \<le> max_int64"
  shows "totalSize_loop sz rs = sz + int (card (cover rs))"
  using assms
proof (induction rs arbitrary: sz)
  case Nil
  then show ?case by simp
next
  case (Cons r rs)
  have rs: "regs_ok n rs" and "reg_ok n r" "n \<le> max_int64"
    using Cons.prems(1) by (auto simp: regs_ok_def)
  then have sz: "region_size r = int (card (reg_set r))" by (simp add: region_size_ok)
  have "wrap64 (sz + region_size r) = sz + int (card (reg_set r))"
    using Cons.prems card_cover_Cons [OF Cons.prems(1)] by (simp add: sz wrap64_id)
  then show ?case
    using Cons.IH [OF rs, of "sz + int (card (reg_set r))"] Cons.prems(2,3)
      card_cover_Cons [OF Cons.prems(1)] by simp
qed

lemma totalSize_card:
  assumes "regs_ok n rs" and "0 \<le> n"
  shows "totalSize rs = int (card (cover rs))"
proof -
  have "int (card (cover rs)) \<le> max_int64"
    using card_cover_le [OF assms] assms(1) by (simp add: regs_ok_def)
  then show ?thesis using totalSize_loop_card [OF assms(1), of 0] by (simp add: totalSize_def)
qed

section \<open>The interface a blob uses\<close>

text \<open>
  What \<^verbatim>\<open>blob.fetchRegion\<close> and \<^verbatim>\<open>blob.FetchedSize\<close> rely on: a set of byte positions below
  \<open>n\<close>, adding a region adds its positions, and the total is the number of positions.
\<close>

locale range_set =
  fixes empty :: 's and add :: "region \<Rightarrow> 's \<Rightarrow> 's" and total :: "'s \<Rightarrow> int"
    and covered :: "'s \<Rightarrow> int set" and invar :: "int \<Rightarrow> 's \<Rightarrow> bool"
  assumes invar_empty: "0 \<le> n \<Longrightarrow> n \<le> max_int64 \<Longrightarrow> invar n empty"
    and covered_empty: "covered empty = {}"
    and invar_add: "invar n s \<Longrightarrow> reg_ok n r \<Longrightarrow> invar n (add r s)"
    and covered_add: "invar n s \<Longrightarrow> reg_ok n r \<Longrightarrow> covered (add r s) = covered s \<union> reg_set r"
    and total_card: "invar n s \<Longrightarrow> 0 \<le> n \<Longrightarrow> total s = int (card (covered s))"
    and covered_below: "invar n s \<Longrightarrow> covered s \<subseteq> {0..<n}"
begin

lemma adds:
  assumes "invar n s" and "list_all (reg_ok n) regs"
  shows "invar n (fold add regs s) \<and> covered (fold add regs s) = covered s \<union> cover regs"
  using assms
  by (induction regs arbitrary: s) (auto simp: invar_add covered_add)

lemma total_le:
  assumes "invar n s" and "0 \<le> n"
  shows "0 \<le> total s" and "total s \<le> n"
  using card_mono [OF _ covered_below [OF assms(1)]] total_card [OF assms] assms(2)
  by fastforce+

lemma total_mono:
  assumes "invar n s" and "reg_ok n r" and "0 \<le> n"
  shows "total s \<le> total (add r s)"
proof -
  have "finite (covered (add r s))"
    using covered_below [OF invar_add [OF assms(1,2)]] by (rule finite_subset) simp
  then have "card (covered s) \<le> card (covered (add r s))"
    by (rule card_mono) (simp add: covered_add [OF assms(1,2)])
  then show ?thesis
    using total_card [OF assms(1,3)] total_card [OF invar_add [OF assms(1,2)] assms(3)] by simp
qed

text \<open>Adding a region that is already covered changes nothing that a client can see.\<close>

lemma total_covered:
  assumes "invar n s" and "reg_ok n r" and "0 \<le> n" and "reg_set r \<subseteq> covered s"
  shows "total (add r s) = total s"
  using total_card [OF assms(1,3)] total_card [OF invar_add [OF assms(1,2)] assms(3)]
    covered_add [OF assms(1,2)] assms(4) by (simp add: Un_absorb2)

end

interpretation rs: range_set "[]" regionSet_add totalSize cover "\<lambda>n s. 0 \<le> n \<and> regs_ok n s"
proof (unfold_locales, goal_cases)
  case (6 n s)
  then show ?case using cover_bounds by blast
qed (auto simp: regionSet_add_ok totalSize_card)

section \<open>The smallest region around several\<close>

lemma superRegion_loop_bounds:
  "reg_b (superRegion_loop s regs) = Min (insert (reg_b s) (reg_b ` set regs)) \<and>
   reg_e (superRegion_loop s regs) = Max (insert (reg_e s) (reg_e ` set regs))"
proof (induction regs arbitrary: s)
  case Nil
  then show ?case by simp
next
  case (Cons r regs)
  then show ?case
    by (cases "regs = []") (auto simp: Let_def min_def max_def Min.insert Max.insert insert_commute)
qed

lemma superRegion_Some:
  "regs \<noteq> [] \<Longrightarrow> \<exists>s. superRegion regs = Some s \<and>
     reg_b s = Min (reg_b ` set regs) \<and> reg_e s = Max (reg_e ` set regs)"
  by (cases regs) (auto simp: superRegion_def superRegion_loop_bounds simp del: superRegion_loop.simps)

lemma superRegion_single [simp]: "superRegion [r] = Some r"
  by (simp add: superRegion_def)

lemma regionSet_add_Nil [simp]: "regionSet_add r [] = [r]"
  by (simp add: regionSet_add_def)

section \<open>Properties\<close>

text \<open>
  C10: a blob's region set refines the set of fetched byte positions. After adding any
  sequence of regions of the blob, in any order and however they overlap, the slice is
  sorted, its regions are disjoint and do not touch, it covers exactly the bytes of the
  added regions, and its total size is the number of those bytes, with no overflow.
\<close>

theorem regionSet_refines:
  assumes "0 \<le> n" and "n \<le> max_int64" and "list_all (reg_ok n) regs"
  shows "regs_ok n (fold regionSet_add regs []) \<and>
         cover (fold regionSet_add regs []) = cover regs \<and>
         totalSize (fold regionSet_add regs []) = int (card (cover regs))"
  using rs.adds [of n "[]" regs] rs.total_card [of n "fold regionSet_add regs []"] assms by simp

theorem regionSet_refines_witness:
  "totalSize (fold regionSet_add [\<lparr>reg_b = 20, reg_e = 29\<rparr>, \<lparr>reg_b = 0, reg_e = 9\<rparr>,
      \<lparr>reg_b = 5, reg_e = 20\<rparr>] []) =
   int (card (cover [\<lparr>reg_b = 20, reg_e = 29\<rparr>, \<lparr>reg_b = 0, reg_e = 9\<rparr>, \<lparr>reg_b = 5, reg_e = 20\<rparr>]))
   \<and> fold regionSet_add [\<lparr>reg_b = 20, reg_e = 29\<rparr>, \<lparr>reg_b = 0, reg_e = 9\<rparr>,
      \<lparr>reg_b = 5, reg_e = 20\<rparr>] [] = [\<lparr>reg_b = 0, reg_e = 29\<rparr>]"
  using regionSet_refines [of 100 "[\<lparr>reg_b = 20, reg_e = 29\<rparr>, \<lparr>reg_b = 0, reg_e = 9\<rparr>,
      \<lparr>reg_b = 5, reg_e = 20\<rparr>]"]
  by (simp add: reg_ok_def regionSet_add_def wrap64_def)

end
