(* ===== verification/Remote_Blob.thy ===== *)
theory Remote_Blob
  imports Remote_Regions
begin

text \<open>
  The remote blob of a layer, \<^verbatim>\<open>fs/remote/blob.go\<close>: the writer that copies a response into
  the caller's buffer, the blob's state and its operations, and the fetcher that a
  content handler provides (\<^verbatim>\<open>remoteFetcher\<close> of \<^verbatim>\<open>fs/remote/resolver.go\<close>). The fetcher is
  the interface \<^verbatim>\<open>fetcher\<close> of the source, here the arguments \<open>fetch\<close> and \<open>check\<close> of the
  operations that call it; time is an \<^typ>\<open>int\<close> of nanoseconds.
\<close>

section \<open>The bytes writer\<close>

record bytesWriter =
  bw_dest :: bytes
  bw_destOff :: int
  bw_current :: int

definition newBytesWriter :: "bytes \<Rightarrow> int \<Rightarrow> bytesWriter" where
  "newBytesWriter dest destOff = \<lparr>bw_dest = dest, bw_destOff = destOff, bw_current = 0\<rparr>"

definition positive :: "int \<Rightarrow> int" where
  "positive n = (if n < 0 then 0 else n)"

text \<open>Go's \<^verbatim>\<open>copy(dest[off:], src)\<close>: as many bytes as fit.\<close>

definition copy_at :: "bytes \<Rightarrow> nat \<Rightarrow> bytes \<Rightarrow> bytes" where
  "copy_at dest off src =
     take off dest @ take (length dest - off) src @ drop (off + length src) dest"

text \<open>\<^const>\<open>None\<close> is the panic of the slice expression \<^verbatim>\<open>p[pBegin:pEnd]\<close>.\<close>

definition bytesWriter_Write :: "bytesWriter \<Rightarrow> bytes \<Rightarrow> (bytesWriter \<times> int) option" where
  "bytesWriter_Write bw p =
     (let lenp = int (length p); lend = int (length (bw_dest bw));
          bw' = bw\<lparr>bw_current := wrap64 (bw_current bw + lenp)\<rparr>;
          destBase = positive (wrap64 (bw_current bw - bw_destOff bw));
          pBegin = positive (wrap64 (bw_destOff bw - bw_current bw));
          pEnd = positive (wrap64 (wrap64 (bw_destOff bw + lend) - bw_current bw))
      in if lend < destBase then Some (bw', lenp)
         else if lenp \<le> pBegin then Some (bw', lenp)
         else (let pEnd' = (if lenp < pEnd then lenp else pEnd)
               in case slice p pBegin pEnd' of None \<Rightarrow> None
                  | Some src \<Rightarrow>
                      Some (bw'\<lparr>bw_dest := copy_at (bw_dest bw) (nat destBase) src\<rparr>, lenp)))"

section \<open>Streams and parts\<close>

text \<open>
  A response body is its bytes, then end of file or a read error. \<^verbatim>\<open>Next\<close> of a multipart
  reader returns an error or the region and the body of a part; end of file ends the list.
\<close>

record stream =
  st_data :: bytes
  st_fails :: bool

datatype blob_error =
    BlobClosed
  | InvalidSize int int
  | FetchFailed string
  | MultipartFailed string
  | CopyFailed
  | FetchRegionFailed region
  | CheckFailed string
  | SlicePanic

type_synonym part = "string + (region \<times> stream)"
type_synonym 'f fetch_fun = "'f \<Rightarrow> region list \<Rightarrow> bool \<Rightarrow> 'f \<times> (string + part list)"

text \<open>
  \<^verbatim>\<open>io.CopyN(w, r, n)\<close> for a \<^verbatim>\<open>bytesWriter\<close>: it writes what the stream has of the first \<open>n\<close>
  bytes and fails unless they are \<open>n\<close>. How Go cuts the bytes into writes does not matter
  (lemma \<open>Write_append\<close> below), so the model writes once.
\<close>

definition copyN :: "bytesWriter \<Rightarrow> stream \<Rightarrow> int \<Rightarrow> bytesWriter \<times> blob_error option" where
  "copyN w r n =
     (let d = take (nat n) (st_data r) in
      case bytesWriter_Write w d of None \<Rightarrow> (w, Some SlicePanic)
      | Some (w', _) \<Rightarrow> (w', if int (length d) < n then Some CopyFailed else None))"

section \<open>The blob\<close>

record 'f blob =
  blob_fetcher :: 'f
  blob_size :: int
  lastCheck :: int
  checkInterval :: int
  fetchedRegionSet :: regionSet
  blob_closed :: bool

definition makeBlob :: "'f \<Rightarrow> int \<Rightarrow> int \<Rightarrow> int \<Rightarrow> 'f blob" where
  "makeBlob f sz lc interval =
     \<lparr>blob_fetcher = f, blob_size = sz, lastCheck = lc, checkInterval = interval,
      fetchedRegionSet = [], blob_closed = False\<rparr>"

definition blob_Close :: "'f blob \<Rightarrow> 'f blob" where
  "blob_Close b = (if \<not> blob_closed b then b\<lparr>blob_closed := True\<rparr> else b)"

text \<open>\<open>resolved\<close> is what \<^verbatim>\<open>resolver.resolveFetcher\<close> returns for the new hosts.\<close>

definition blob_Refresh :: "string + ('f \<times> int) \<Rightarrow> int \<Rightarrow> 'f blob \<Rightarrow> blob_error option \<times> 'f blob" where
  "blob_Refresh resolved now b =
     (if blob_closed b then (Some BlobClosed, b)
      else case resolved of Inl e \<Rightarrow> (Some (FetchFailed e), b)
      | Inr (f, newSize) \<Rightarrow>
          if newSize \<noteq> blob_size b then (Some (InvalidSize newSize (blob_size b)), b)
          else (None, b\<lparr>blob_fetcher := f, lastCheck := now\<rparr>))"

definition blob_Check ::
    "('f \<Rightarrow> 'f \<times> string option) \<Rightarrow> int \<Rightarrow> 'f blob \<Rightarrow> blob_error option \<times> 'f blob" where
  "blob_Check check now b =
     (if blob_closed b then (Some BlobClosed, b)
      else if now - lastCheck b < checkInterval b then (None, b)
      else case check (blob_fetcher b) of
             (f, None) \<Rightarrow> (None, b\<lparr>blob_fetcher := f, lastCheck := now\<rparr>)
           | (f, Some e) \<Rightarrow> (Some (CheckFailed e), b\<lparr>blob_fetcher := f\<rparr>))"

definition blob_FetchedSize :: "'f blob \<Rightarrow> int" where
  "blob_FetchedSize b = totalSize (fetchedRegionSet b)"

text \<open>The loop over the parts of a response; the region of a part is not looked at.\<close>

fun fetchRegion_parts ::
    "region \<Rightarrow> bytesWriter \<Rightarrow> bool \<Rightarrow> regionSet \<Rightarrow> part list \<Rightarrow>
     bytesWriter \<times> regionSet \<times> blob_error option" where
  "fetchRegion_parts reg w fetched rs [] =
     (w, rs, if fetched then None else Some (FetchRegionFailed reg))"
| "fetchRegion_parts reg w fetched rs (Inl e # ps) = (w, rs, Some (MultipartFailed e))"
| "fetchRegion_parts reg w fetched rs (Inr (preg, p) # ps) =
     (case copyN w p (region_size reg) of
        (w', Some e) \<Rightarrow> (w', rs, Some e)
      | (w', None) \<Rightarrow> fetchRegion_parts reg w' True (regionSet_add reg rs) ps)"

definition fetchRegion ::
    "'f fetch_fun \<Rightarrow> int \<Rightarrow> region \<Rightarrow> bytesWriter \<Rightarrow> bool \<Rightarrow> 'f blob \<Rightarrow>
     bytesWriter \<times> 'f blob \<times> blob_error option" where
  "fetchRegion fetch now reg w fetched b =
     (case fetch (blob_fetcher b) [reg] True of
        (f, Inl e) \<Rightarrow> (w, b\<lparr>blob_fetcher := f\<rparr>, Some (FetchFailed e))
      | (f, Inr parts) \<Rightarrow>
          (case fetchRegion_parts reg w fetched (fetchedRegionSet b) parts of
             (w', rs, err) \<Rightarrow>
               (w', b\<lparr>blob_fetcher := f, lastCheck := now, fetchedRegionSet := rs\<rparr>, err)))"

definition fetchRange ::
    "'f fetch_fun \<Rightarrow> int \<Rightarrow> region \<Rightarrow> bytesWriter \<Rightarrow> 'f blob \<Rightarrow>
     bytesWriter \<times> 'f blob \<times> blob_error option" where
  "fetchRange fetch now reg w b = fetchRegion fetch now reg w False b"

text \<open>
  \<^verbatim>\<open>ReadAt\<close> returns the number of bytes read or an error, the buffer (its whole length:
  Go's caller keeps the slice) and the blob.
\<close>

definition blob_ReadAt ::
    "'f fetch_fun \<Rightarrow> int \<Rightarrow> bytes \<Rightarrow> int \<Rightarrow> 'f blob \<Rightarrow> (blob_error + int) \<times> bytes \<times> 'f blob" where
  "blob_ReadAt fetch now p offset b =
     (if blob_closed b then (Inl BlobClosed, p, b)
      else if p = [] \<or> blob_size b < offset then (Inr 0, p, b)
      else
        (let reg = \<lparr>reg_b = offset, reg_e = wrap64 (wrap64 (offset + int (length p)) - 1)\<rparr> in
         case fetchRange fetch now reg (newBytesWriter p 0) b of
           (w, b', Some e) \<Rightarrow> (Inl e, bw_dest w, b')
         | (w, b', None) \<Rightarrow>
             (let remain = wrap64 (blob_size b - offset); lenp = int (length p)
              in (Inr (if remain \<le> lenp then (if remain < 0 then 0 else remain) else lenp),
                  bw_dest w, b'))))"

section \<open>The fetcher of a content handler\<close>

text \<open>
  \<^verbatim>\<open>remoteFetcher\<close> asks a handler's \<^verbatim>\<open>Fetch\<close> for the smallest region around the requested
  ones. The handler is code of a plugin: the argument \<open>Fetch\<close>.
\<close>

definition remoteFetcher_fetch ::
    "(int \<Rightarrow> int \<Rightarrow> string + stream) \<Rightarrow> unit fetch_fun" where
  "remoteFetcher_fetch Fetch r rs retry =
     (case superRegion (fold regionSet_add rs []) of
        None \<Rightarrow> ((), Inl ''panic: index out of range'')
      | Some reg \<Rightarrow>
          (case Fetch (reg_b reg) (region_size reg) of
             Inl e \<Rightarrow> ((), Inl e)
           | Inr rc \<Rightarrow> ((), Inr [Inr (reg, rc)])))"

section \<open>The writer writes a window of the stream\<close>

text \<open>
  The invariant of the writer: after the bytes \<open>q\<close> have been written, the destination is
  the original one with the window \<open>[destOff, destOff + len)\<close> of \<open>q\<close> laid over it.
\<close>

definition window :: "bytes \<Rightarrow> nat \<Rightarrow> bytes \<Rightarrow> bytes" where
  "window dest off q =
     take (length dest) (drop off q) @ drop (length q - off) dest"

definition bw_ok :: "bytes \<Rightarrow> nat \<Rightarrow> bytes \<Rightarrow> bytesWriter \<Rightarrow> bool" where
  "bw_ok dest off q w \<longleftrightarrow>
     bw_dest w = window dest off q \<and> bw_destOff w = int off \<and> bw_current w = int (length q)"

lemma length_window [simp]: "length (window dest off q) = length dest"
  by (simp add: window_def)

lemma bw_ok_new: "bw_ok dest off [] (newBytesWriter dest (int off))"
  by (simp add: bw_ok_def newBytesWriter_def window_def)

lemma window_nth:
  "i < length dest \<Longrightarrow> window dest off q ! i = (if off + i < length q then q ! (off + i) else dest ! i)"
  by (auto simp: window_def nth_append min_def)

lemma copy_at_nth:
  assumes "o' \<le> length d" and "i < length d"
  shows "copy_at d o' src ! i = (if o' \<le> i \<and> i - o' < length src then src ! (i - o') else d ! i)"
proof -
  consider "i < o'" | "o' \<le> i" "i - o' < length src" | "o' \<le> i" "length src \<le> i - o'" by linarith
  then show ?thesis
    using assms by cases (auto simp: copy_at_def nth_append min_def)
qed

lemma length_copy_at [simp]: "o' \<le> length d \<Longrightarrow> length (copy_at d o' src) = length d"
  by (simp add: copy_at_def)

lemma sub_nth: "0 \<le> lo \<Longrightarrow> hi \<le> int (length p) \<Longrightarrow> i < nat hi - nat lo \<Longrightarrow> sub p lo hi ! i = p ! (nat lo + i)"
  by (simp add: sub_def)

lemma window_unchanged:
  assumes "off + length dest \<le> length q \<or> length p \<le> off - length q"
  shows "window dest off (q @ p) = window dest off q"
proof (cases "p = []")
  case False
  then show ?thesis using assms by (intro nth_equalityI) (auto simp: window_nth nth_append)
qed simp

lemma copy_at_window:
  assumes "length q \<le> off + length dest" and "off < length q + length p"
    and "e = min (length p) (off + length dest - length q)"
  shows "copy_at (window dest off q) (length q - off) (sub p (int (off - length q)) (int e)) =
         window dest off (q @ p)" (is "copy_at ?w ?o ?s = _")
proof (rule nth_equalityI)
  have o: "?o \<le> length ?w" using assms(1) by simp
  then show "length (copy_at ?w ?o ?s) = length (window dest off (q @ p))" by simp
  fix i
  assume "i < length (copy_at ?w ?o ?s)"
  then have i: "i < length dest" using o by simp
  have len: "length ?s = e - (off - length q)" using assms(3) by (simp add: sub_def)
  have s: "?s ! j = p ! (off - length q + j)" if "j < e - (off - length q)" for j
    using that assms(3) by (simp add: sub_nth)
  show "copy_at ?w ?o ?s ! i = window dest off (q @ p) ! i"
  proof (cases "?o \<le> i \<and> i - ?o < e - (off - length q)")
    case True
    then have idx: "off - length q + (i - ?o) = off + i - length q" "length q \<le> off + i"
      "off + i < length q + length p" "\<not> off + i < length q"
      using assms(3) by linarith+
    have "copy_at ?w ?o ?s ! i = p ! (off + i - length q)"
      using True i by (simp add: copy_at_nth [OF o] len s idx(1))
    moreover have "window dest off (q @ p) ! i = p ! (off + i - length q)"
      using idx i by (simp add: window_nth nth_append)
    ultimately show ?thesis by simp
  next
    case False
    then have "off + i < length q \<or> length q + length p \<le> off + i"
      using assms(3) i by linarith
    moreover have "copy_at ?w ?o ?s ! i = window dest off q ! i"
      using False i by (auto simp: copy_at_nth [OF o] len)
    ultimately show ?thesis using i by (auto simp: window_nth nth_append)
  qed
qed

lemma Write_ok:
  assumes "bw_ok dest off q w" and "int (off + length dest + length q + length p) \<le> max_int64"
  shows "\<exists>w'. bytesWriter_Write w p = Some (w', int (length p)) \<and> bw_ok dest off (q @ p) w'"
proof -
  have w: "bw_dest w = window dest off q" "bw_destOff w = int off" "bw_current w = int (length q)"
    using assms(1) by (simp_all add: bw_ok_def)
  have a: "wrap64 (int (length q) + int (length p)) = int (length q) + int (length p)"
    "positive (wrap64 (int (length q) - int off)) = int (length q - off)"
    "positive (wrap64 (int off - int (length q))) = int (off - length q)"
    "positive (wrap64 (wrap64 (int off + int (length dest)) - int (length q))) =
       int (off + length dest - length q)"
    using assms(2) by (auto simp: positive_def wrap64_id)
  show ?thesis
  proof (cases "off + length dest < length q \<or> length p \<le> off - length q")
    case True
    then show ?thesis
      by (auto simp: bytesWriter_Write_def Let_def w a bw_ok_def window_unchanged less_imp_le)
  next
    case False
    define e where "e = min (length p) (off + length dest - length q)"
    have bounds: "off - length q \<le> e" "e \<le> length p" "\<not> length p \<le> off - length q"
      "\<not> length dest < length q - off"
      using False by (auto simp: e_def)
    have "slice p (int (off - length q)) (int e) = Some (sub p (int (off - length q)) (int e))"
      using bounds(1,2) by (intro slice_eq) simp_all
    moreover have "(if int (length p) < int (off + length dest - length q) then int (length p)
        else int (off + length dest - length q)) = int e"
      by (simp add: e_def)
    moreover have "copy_at (window dest off q) (length q - off) (sub p (int (off - length q)) (int e)) =
        window dest off (q @ p)"
      using False by (intro copy_at_window) (linarith | simp add: e_def)+
    ultimately show ?thesis
      using bounds(3,4)
      by (simp only: bytesWriter_Write_def Let_def w a length_window of_nat_less_iff of_nat_le_iff
          if_False option.case nat_int) (simp add: bw_ok_def w)
  qed
qed

text \<open>Cutting the data into writes at any point gives the same destination.\<close>

lemma Write_append:
  assumes "bw_ok dest off q w"
    and "int (off + length dest + length q + length p1 + length p2) \<le> max_int64"
  shows "\<exists>w1 w2. bytesWriter_Write w p1 = Some (w1, int (length p1)) \<and>
     bytesWriter_Write w1 p2 = Some (w2, int (length p2)) \<and>
     bytesWriter_Write w (p1 @ p2) = Some (w2, int (length (p1 @ p2)))"
proof -
  obtain w1 where w1: "bytesWriter_Write w p1 = Some (w1, int (length p1))" "bw_ok dest off (q @ p1) w1"
    using Write_ok [of dest off q w p1] assms by auto
  obtain w2 where w2: "bytesWriter_Write w1 p2 = Some (w2, int (length p2))"
      "bw_ok dest off ((q @ p1) @ p2) w2"
    using Write_ok [OF w1(2), of p2] assms by auto
  obtain w3 where w3: "bytesWriter_Write w (p1 @ p2) = Some (w3, int (length (p1 @ p2)))"
      "bw_ok dest off (q @ p1 @ p2) w3"
    using Write_ok [of dest off q w "p1 @ p2"] assms by auto
  have "w3 = w2" using w2(2) w3(2) by (auto simp: bw_ok_def)
  with w1 w2 w3 show ?thesis by blast
qed

section \<open>Reading a region\<close>

text \<open>A copy of a part that is long enough fills the buffer with the head of the part.\<close>

lemma copyN_fill:
  assumes "length p \<le> length (st_data s)" and "2 * int (length p) \<le> max_int64"
  shows "\<exists>w. copyN (newBytesWriter p 0) s (int (length p)) = (w, None) \<and>
             bw_dest w = take (length p) (st_data s)"
proof -
  let ?d = "take (length p) (st_data s)"
  have len: "length ?d = length p" using assms(1) by simp
  obtain w where w: "bytesWriter_Write (newBytesWriter p 0) ?d = Some (w, int (length p))"
    and "bw_ok p 0 ?d w"
    using Write_ok [OF bw_ok_new [of p 0], of ?d] len assms(2) by auto
  then have "bw_dest w = ?d" using assms(1) by (simp add: bw_ok_def window_def)
  with w len show ?thesis by (simp add: copyN_def)
qed

lemma region_size_read:
  "0 \<le> off \<Longrightarrow> off + int k \<le> max_int64 \<Longrightarrow>
   region_size \<lparr>reg_b = off, reg_e = wrap64 (wrap64 (off + int k) - 1)\<rparr> = int k"
  by (simp add: region_size_def wrap64_id)

lemma ReadAt_one_part:
  assumes "\<not> blob_closed b" and "p \<noteq> []" and "0 \<le> off"
    and "off + int (length p) \<le> blob_size b" and "2 * blob_size b \<le> max_int64"
    and "fetch (blob_fetcher b) [\<lparr>reg_b = off, reg_e = off + int (length p) - 1\<rparr>] True =
         (f, Inr [Inr (pr, s)])"
    and "length p \<le> length (st_data s)"
  shows "blob_ReadAt fetch now p off b =
     (Inr (int (length p)), take (length p) (st_data s),
      b\<lparr>blob_fetcher := f, lastCheck := now,
        fetchedRegionSet := regionSet_add \<lparr>reg_b = off, reg_e = off + int (length p) - 1\<rparr>
          (fetchedRegionSet b)\<rparr>)"
proof -
  have wr: "wrap64 (wrap64 (off + int (length p)) - 1) = off + int (length p) - 1"
    "wrap64 (blob_size b - off) = blob_size b - off"
    using assms(2-5) by (simp_all add: wrap64_id)
  have sz: "region_size \<lparr>reg_b = off, reg_e = off + int (length p) - 1\<rparr> = int (length p)"
    using region_size_read [of off "length p"] assms(3-5) by (simp add: wr)
  obtain w where w: "copyN (newBytesWriter p 0) s (int (length p)) = (w, None)"
      "bw_dest w = take (length p) (st_data s)"
    using copyN_fill [OF assms(7)] assms(3-5) by auto
  show ?thesis
    using assms(1-4) by (simp add: blob_ReadAt_def fetchRange_def fetchRegion_def assms(6) wr sz w Let_def)
qed

text \<open>
  A fetcher that serves the bytes of a blob: asked for one region, it answers with one
  part that starts with the bytes of the region. This is what HTTP's partial content
  response and a handler's \<^verbatim>\<open>Fetch\<close> promise.
\<close>

locale range_fetcher =
  fixes fetch :: "'f fetch_fun" and content :: bytes
  assumes serves: "int (length content) \<le> max_int64 \<Longrightarrow> reg_ok (int (length content)) r \<Longrightarrow>
    \<exists>f' pr s. fetch f [r] True = (f', Inr [Inr (pr, s)]) \<and>
      take (nat (reg_e r - reg_b r + 1)) (st_data s) = sub content (reg_b r) (reg_e r + 1)"
begin

lemma read_at:
  assumes "\<not> blob_closed b" and "blob_size b = int (length content)" and "2 * blob_size b \<le> max_int64"
    and "regs_ok (blob_size b) (fetchedRegionSet b)"
    and "p \<noteq> []" and "0 \<le> off" and "off + int (length p) \<le> blob_size b"
  shows "\<exists>b'. blob_ReadAt fetch now p off b =
            (Inr (int (length p)), sub content off (off + int (length p)), b') \<and>
          blob_size b' = blob_size b \<and> blob_closed b' = blob_closed b \<and>
          regs_ok (blob_size b') (fetchedRegionSet b') \<and>
          cover (fetchedRegionSet b') = cover (fetchedRegionSet b) \<union> {off..<off + int (length p)}"
proof -
  let ?r = "\<lparr>reg_b = off, reg_e = off + int (length p) - 1\<rparr>"
  have r: "reg_ok (blob_size b) ?r" using assms(5-7) by (cases p) (auto simp: reg_ok_def)
  then obtain f' pr s where f: "fetch (blob_fetcher b) [?r] True = (f', Inr [Inr (pr, s)])"
    and s: "take (length p) (st_data s) = sub content off (off + int (length p))"
    using serves [of ?r "blob_fetcher b"] assms(2,3) by auto
  have "int (length (sub content off (off + int (length p)))) = int (length p)"
    using assms(2,6,7) by (simp add: length_sub)
  then have "length p \<le> length (st_data s)" using s [symmetric] by simp
  note read = ReadAt_one_part [where fetch = fetch and now = now, OF assms(1,5,6,7,3) f this]
  have "reg_set ?r = {off..<off + int (length p)}" by (auto simp: reg_set_def)
  then show ?thesis
    using regionSet_add_ok [OF assms(4) r] by (simp add: read s)
qed

end

text \<open>The handler's fetcher serves the blob when the handler returns the bytes asked for.\<close>

lemma remoteFetcher_serves:
  assumes "\<And>off k. 0 \<le> off \<Longrightarrow> 0 < k \<Longrightarrow> off + k \<le> int (length content) \<Longrightarrow>
     \<exists>s. Fetch off k = Inr s \<and> take (nat k) (st_data s) = sub content off (off + k)"
  shows "range_fetcher (remoteFetcher_fetch Fetch) content"
proof
  fix r :: region and f :: unit
  assume n: "int (length content) \<le> max_int64" and r: "reg_ok (int (length content)) r"
  then have "region_size r = reg_e r - reg_b r + 1"
    by (simp add: region_size_def reg_ok_def wrap64_id)
  with assms [of "reg_b r" "region_size r"] r
  show "\<exists>f' pr s. remoteFetcher_fetch Fetch f [r] True = (f', Inr [Inr (pr, s)]) \<and>
      take (nat (reg_e r - reg_b r + 1)) (st_data s) = sub content (reg_b r) (reg_e r + 1)"
    by (fastforce simp: remoteFetcher_fetch_def reg_ok_def add.commute)
qed

definition serve_content :: "bytes \<Rightarrow> int \<Rightarrow> int \<Rightarrow> string + stream" where
  "serve_content content off k = Inr \<lparr>st_data = sub content off (off + k), st_fails = False\<rparr>"

interpretation handler: range_fetcher "remoteFetcher_fetch (serve_content content)" content for content
  by (rule remoteFetcher_serves) (auto simp: serve_content_def sub_def nat_add_distrib)

section \<open>Properties\<close>

text \<open>
  C15: reading inside the blob through a fetcher that serves it fills the caller's buffer
  with exactly the blob's bytes at the offset, reports the whole buffer as read, and marks
  exactly those byte positions as fetched; the fetched size is then their number.
\<close>

theorem blob_ReadAt_correct:
  assumes "range_fetcher fetch content"
    and "\<not> blob_closed b" and "blob_size b = int (length content)" and "2 * blob_size b \<le> max_int64"
    and "regs_ok (blob_size b) (fetchedRegionSet b)"
    and "p \<noteq> []" and "0 \<le> off" and "off + int (length p) \<le> blob_size b"
  shows "\<exists>b'. blob_ReadAt fetch now p off b =
            (Inr (int (length p)), sub content off (off + int (length p)), b') \<and>
          cover (fetchedRegionSet b') = cover (fetchedRegionSet b) \<union> {off..<off + int (length p)} \<and>
          blob_FetchedSize b' = int (card (cover (fetchedRegionSet b'))) \<and>
          blob_FetchedSize b \<le> blob_FetchedSize b' \<and> blob_FetchedSize b' \<le> blob_size b"
proof -
  obtain b' where b': "blob_ReadAt fetch now p off b =
        (Inr (int (length p)), sub content off (off + int (length p)), b')"
      "blob_size b' = blob_size b" "regs_ok (blob_size b') (fetchedRegionSet b')"
      "cover (fetchedRegionSet b') = cover (fetchedRegionSet b) \<union> {off..<off + int (length p)}"
    using range_fetcher.read_at [OF assms] by blast
  have pos: "0 \<le> blob_size b" using assms(3) by simp
  have "card (cover (fetchedRegionSet b)) \<le> card (cover (fetchedRegionSet b'))"
    by (rule card_mono) (simp_all add: b'(4))
  then show ?thesis
    using b' pos assms(5) card_cover_le [of "blob_size b" "fetchedRegionSet b'"]
    by (auto simp: blob_FetchedSize_def totalSize_card [of "blob_size b"])
qed

theorem blob_ReadAt_correct_witness:
  "\<exists>b'. blob_ReadAt (remoteFetcher_fetch (serve_content [1, 2, 3, 4, 5, 6])) 7 [0, 0, 0] 2
          (makeBlob () 6 0 0) = (Inr 3, [3, 4, 5], b') \<and> blob_FetchedSize b' = 3"
  using blob_ReadAt_correct [OF handler.range_fetcher_axioms, of "makeBlob () 6 0 0" "[1, 2, 3, 4, 5, 6]"
      "[0, 0, 0]" 2 7]
  by (auto simp: makeBlob_def sub_def)

text \<open>
  C31: the region of a part is ignored. When a server answers a range request with the
  whole blob (HTTP status 200, one part whose region starts at 0), \<^verbatim>\<open>ReadAt\<close> succeeds and
  returns the first bytes of the blob, whatever the offset asked for.
\<close>

theorem blob_ReadAt_whole_blob:
  assumes "\<And>f r. fetch f [r] True =
      (f, Inr [Inr (\<lparr>reg_b = 0, reg_e = int (length content) - 1\<rparr>,
                    \<lparr>st_data = content, st_fails = False\<rparr>)])"
    and "\<not> blob_closed b" and "blob_size b = int (length content)" and "2 * blob_size b \<le> max_int64"
    and "p \<noteq> []" and "0 \<le> off" and "off + int (length p) \<le> blob_size b"
  shows "\<exists>b'. blob_ReadAt fetch now p off b = (Inr (int (length p)), sub content 0 (int (length p)), b')"
  using ReadAt_one_part [where fetch = fetch and now = now, OF assms(2,5,6,7,4) assms(1)] assms(3,6,7)
  by (simp add: sub_def)

theorem blob_ReadAt_whole_blob_witness:
  "\<exists>b'. blob_ReadAt (\<lambda>f rs retry. (f, Inr [Inr (\<lparr>reg_b = 0, reg_e = 5\<rparr>,
            \<lparr>st_data = [1, 2, 3, 4, 5, 6], st_fails = False\<rparr>)])) 7 [0, 0, 0] 2 (makeBlob () 6 0 0) =
          (Inr 3, [1, 2, 3], b')"
  using blob_ReadAt_whole_blob [of "\<lambda>f rs retry. (f, Inr [Inr (\<lparr>reg_b = 0, reg_e = 5\<rparr>,
            \<lparr>st_data = [1, 2, 3, 4, 5, 6], st_fails = False\<rparr>)])" "[1, 2, 3, 4, 5, 6]"
          "makeBlob () 6 0 0" "[0, 0, 0]" 2 7]
  by (simp add: makeBlob_def sub_def)

end
