(* ===== verification/Zinfo.thy ===== *)
theory Zinfo
  imports Prelude
begin

text \<open>
  The table of spans of a compressed layer, \<^verbatim>\<open>ztoc/compression\<close>: \<^verbatim>\<open>TarZinfo\<close> for
  uncompressed archives (\<^verbatim>\<open>tar_zinfo.go\<close>), \<^verbatim>\<open>GzipZinfo\<close> (\<^verbatim>\<open>gzip_zinfo.go\<close>) with the C
  functions that read its checkpoint list (\<^verbatim>\<open>gzip_zinfo.c\<close>), the interface \<^verbatim>\<open>Zinfo\<close> and its
  constructors (\<^verbatim>\<open>zinfo.go\<close>). Inflating the data of a span is zlib's work behind the C
  function \<^verbatim>\<open>extract_data_from_buffer\<close>: the argument \<open>inflate\<close> of the operations that call
  it. \<^const>\<open>None\<close> is a run-time panic: a division by zero or an access outside a list.
\<close>

section \<open>Types\<close>

type_synonym offset = int
type_synonym span_id = int

definition Gzip :: string where "Gzip = ''gzip''"
definition Zstd :: string where "Zstd = ''zstd''"
definition Uncompressed :: string where "Uncompressed = ''uncompressed''"
definition Unknown :: string where "Unknown = ''unknown''"

lemmas algo_defs = Gzip_def Zstd_def Uncompressed_def Unknown_def

datatype zinfo_error =
    EmptyCompressedBuffer
  | InvalidUncompressedSize int
  | ExtractFailed int
  | EmptyCheckpoints
  | CannotConvertBlob
  | CannotUnmarshalTarZinfo
  | NotImplementedAlgorithm string
  | UnexpectedAlgorithm string
  | StatFailed
  | GenerateFailed int
  | OpenFailed
  | ReadFailed int
  | SerializeFailed int
  | ZinfoPanic

section \<open>Uncompressed archives\<close>

record tarZinfo =
  tz_version :: int
  tz_spanSize :: int
  tz_size :: int

definition zinfoVersion :: int where
  "zinfoVersion = 2"

text \<open>\<open>st\<close> is the size \<^verbatim>\<open>os.Stat\<close> reports for the file, if it does.\<close>

definition newTarZinfoFromFile :: "int option \<Rightarrow> int \<Rightarrow> zinfo_error + tarZinfo" where
  "newTarZinfoFromFile st spanSize =
     (case st of None \<Rightarrow> Inl StatFailed
      | Some sz \<Rightarrow> Inr \<lparr>tz_version = zinfoVersion, tz_spanSize = spanSize, tz_size = sz\<rparr>)"

definition tar_MaxSpanID :: "tarZinfo \<Rightarrow> span_id option" where
  "tar_MaxSpanID i =
     (case (go_quot (tz_size i) (tz_spanSize i), go_rem (tz_size i) (tz_spanSize i)) of
        (Some q, Some r) \<Rightarrow> Some (if r = 0 then wrap32 (wrap32 q - 1) else wrap32 q)
      | _ \<Rightarrow> None)"

definition tar_UncompressedOffsetToSpanID :: "tarZinfo \<Rightarrow> offset \<Rightarrow> span_id option" where
  "tar_UncompressedOffsetToSpanID i off = map_option wrap32 (go_quot off (tz_spanSize i))"

definition tar_spanIDToOffset :: "tarZinfo \<Rightarrow> span_id \<Rightarrow> offset" where
  "tar_spanIDToOffset i spanID = wrap64 (tz_spanSize i * spanID)"

definition tar_StartOffset :: "tarZinfo \<Rightarrow> span_id \<Rightarrow> offset option" where
  "tar_StartOffset i spanID = Some (tar_spanIDToOffset i spanID)"

definition tar_EndOffset :: "tarZinfo \<Rightarrow> span_id \<Rightarrow> offset \<Rightarrow> offset option" where
  "tar_EndOffset i spanID fileSize =
     (case tar_MaxSpanID i of None \<Rightarrow> None
      | Some m \<Rightarrow> Some (if spanID = m then fileSize
                        else tar_spanIDToOffset i (wrap32 (spanID + 1))))"

definition tar_ExtractDataFromBuffer ::
    "tarZinfo \<Rightarrow> bytes \<Rightarrow> offset \<Rightarrow> offset \<Rightarrow> span_id \<Rightarrow> zinfo_error + bytes" where
  "tar_ExtractDataFromBuffer i compressedBuf uncompressedSize uncompressedOffset spanID =
     (if compressedBuf = [] then Inl EmptyCompressedBuffer
      else if uncompressedSize < 0 then Inl (InvalidUncompressedSize uncompressedSize)
      else if uncompressedSize = 0 then Inr []
      else (let off = wrap64 (uncompressedOffset - tar_spanIDToOffset i spanID) in
            case slice compressedBuf off (wrap64 (off + uncompressedSize)) of
              None \<Rightarrow> Inl ZinfoPanic | Some bs \<Rightarrow> Inr bs))"

text \<open>
  \<open>f\<close> is the content of the named file, if it opens. \<^verbatim>\<open>ReadAt\<close> fails with end of file when
  fewer bytes than asked for are left, and on a negative offset.
\<close>

definition tar_ExtractDataFromFile ::
    "bytes option \<Rightarrow> offset \<Rightarrow> offset \<Rightarrow> zinfo_error + bytes" where
  "tar_ExtractDataFromFile f uncompressedSize uncompressedOffset =
     (if uncompressedSize < 0 then Inl (InvalidUncompressedSize uncompressedSize)
      else if uncompressedSize = 0 then Inr []
      else case f of None \<Rightarrow> Inl OpenFailed
      | Some content \<Rightarrow>
          (if 0 \<le> uncompressedOffset \<and> uncompressedOffset + uncompressedSize \<le> int (length content)
           then Inr (sub content uncompressedOffset (uncompressedOffset + uncompressedSize))
           else Inl (ReadFailed uncompressedSize)))"

section \<open>Gzip: the checkpoint list\<close>

record gzip_checkpoint =
  cp_out :: offset
  cp_in :: offset
  cp_bits :: int
  cp_window :: bytes

record gzip_zinfo =
  gz_version :: int
  gz_have :: int
  gz_size :: int
  gz_list :: "gzip_checkpoint list"
  gz_span_size :: offset

definition checkpoint :: "gzip_zinfo \<Rightarrow> int \<Rightarrow> gzip_checkpoint option" where
  "checkpoint index i =
     (if 0 \<le> i \<and> i < int (length (gz_list index)) then Some (gz_list index ! nat i) else None)"

text \<open>
  The loop \<^verbatim>\<open>while (--ret && decode_offset(here[1].out) <= off)\<close>; the list argument is the
  checkpoints from \<^verbatim>\<open>here\<close> on.
\<close>

fun pt_index_loop :: "int \<Rightarrow> gzip_checkpoint list \<Rightarrow> offset \<Rightarrow> int \<Rightarrow> int option" where
  "pt_index_loop ret (h # h1 # hs) off res =
     (if ret - 1 = 0 then Some res
      else if cp_out h1 \<le> off then pt_index_loop (ret - 1) (h1 # hs) off (res + 1)
      else Some res)"
| "pt_index_loop ret _ off res = (if ret - 1 = 0 then Some res else None)"

definition pt_index_from_ucmp_offset :: "gzip_zinfo \<Rightarrow> offset \<Rightarrow> int option" where
  "pt_index_from_ucmp_offset index off = pt_index_loop (gz_have index) (gz_list index) off 0"

definition get_ucomp_off :: "gzip_zinfo \<Rightarrow> int \<Rightarrow> offset option" where
  "get_ucomp_off index i = map_option cp_out (checkpoint index i)"

definition get_comp_off :: "gzip_zinfo \<Rightarrow> int \<Rightarrow> offset option" where
  "get_comp_off index i = map_option cp_in (checkpoint index i)"

definition get_max_span_id :: "gzip_zinfo \<Rightarrow> int" where
  "get_max_span_id index = wrap32 (gz_have index - 1)"

definition has_bits :: "gzip_zinfo \<Rightarrow> int \<Rightarrow> bool option" where
  "has_bits index i =
     (if gz_have index \<le> i then Some False
      else map_option (\<lambda>c. cp_bits c \<noteq> 0) (checkpoint index i))"

section \<open>Gzip: the serialized form\<close>

text \<open>
  The result of a C function that returns a pointer or writes to a buffer: a null pointer, an
  access outside an allocated buffer, or a value. Allocations of a size a machine can have are
  taken to succeed; a negative count converts to a size of nearly \<open>2 ^ 64\<close> and fails.
\<close>

datatype 'a c_result = CNull | CFault | CVal 'a

definition WINSIZE :: nat where "WINSIZE = 32768"

definition PACKED_CHECKPOINT_SIZE :: int where "PACKED_CHECKPOINT_SIZE = 32785"

definition BLOB_HEADER_SIZE :: int where "BLOB_HEADER_SIZE = 12"

lemmas blob_consts = WINSIZE_def PACKED_CHECKPOINT_SIZE_def BLOB_HEADER_SIZE_def

definition get_blob_size :: "gzip_zinfo \<Rightarrow> int" where
  "get_blob_size index =
     (PACKED_CHECKPOINT_SIZE * (if gz_version index = 1 then gz_size index - 1 else gz_size index)
      + BLOB_HEADER_SIZE) mod 4294967296"

definition enc_checkpoint :: "gzip_checkpoint \<Rightarrow> bytes" where
  "enc_checkpoint c = enc_le 8 (cp_in c) @ enc_le 8 (cp_out c) @ enc_le 1 (cp_bits c) @ cp_window c"

definition zinfo_to_blob :: "gzip_zinfo \<Rightarrow> bytes \<Rightarrow> (int \<times> bytes) c_result" where
  "zinfo_to_blob index buf =
     (let n = nat (gz_have index);
          out = enc_le 4 (gz_have index) @ enc_le 8 (gz_span_size index) @
            concat (map enc_checkpoint
              (drop (if gz_version index = 1 then 1 else 0) (take n (gz_list index))))
      in if length (gz_list index) < n \<or> length buf < length out then CFault
         else CVal (wrap32 (get_blob_size index), out @ drop (length out) buf))"

definition dec_checkpoint :: "bytes \<Rightarrow> gzip_checkpoint" where
  "dec_checkpoint cur =
     \<lparr>cp_out = wrap64 (dec_le (take 8 (drop 8 cur))), cp_in = wrap64 (dec_le (take 8 cur)),
      cp_bits = dec_le (take 1 (drop 16 cur)), cp_window = take WINSIZE (drop 17 cur)\<rparr>"

fun dec_checkpoints :: "nat \<Rightarrow> bytes \<Rightarrow> gzip_checkpoint list option" where
  "dec_checkpoints 0 cur = Some []"
| "dec_checkpoints (Suc n) cur =
     (if int (length cur) < PACKED_CHECKPOINT_SIZE then None
      else map_option (Cons (dec_checkpoint cur))
             (dec_checkpoints n (drop (nat PACKED_CHECKPOINT_SIZE) cur)))"

definition v1_first_checkpoint :: gzip_checkpoint where
  "v1_first_checkpoint = \<lparr>cp_out = 0, cp_in = 10, cp_bits = 0, cp_window = replicate WINSIZE 0\<rparr>"

text \<open>\<^verbatim>\<open>claimed_size\<close> is computed in 32-bit unsigned arithmetic, the constants being unsigned.\<close>

definition blob_to_zinfo :: "bytes \<Rightarrow> gzip_zinfo c_result" where
  "blob_to_zinfo b =
     (let len = int (length b);
          sz = wrap32 (dec_le (take 4 b));
          span_size = wrap64 (dec_le (take 8 (drop 4 b)));
          claimed_size = (PACKED_CHECKPOINT_SIZE * sz + BLOB_HEADER_SIZE) mod 4294967296;
          z = \<lambda>v l. CVal \<lparr>gz_version = v, gz_have = sz, gz_size = sz, gz_list = l,
                           gz_span_size = span_size\<rparr>
      in if len < BLOB_HEADER_SIZE then CNull
         else if claimed_size = len
           then (if sz < 0 then CNull
                 else case dec_checkpoints (nat sz) (drop (nat BLOB_HEADER_SIZE) b) of
                        None \<Rightarrow> CFault | Some l \<Rightarrow> z 2 l)
         else if claimed_size - PACKED_CHECKPOINT_SIZE = len
           then (if sz < 0 then CNull
                 else if sz = 0 then CFault
                 else case dec_checkpoints (nat sz - 1) (drop (nat BLOB_HEADER_SIZE) b) of
                        None \<Rightarrow> CFault | Some l \<Rightarrow> z 1 (v1_first_checkpoint # l))
         else CNull)"

section \<open>Gzip: the Go wrapper\<close>

text \<open>
  \<open>inflate\<close> is \<^verbatim>\<open>C.extract_data_from_buffer\<close>: the return code and the bytes of the output
  buffer.
\<close>

type_synonym inflate_fun = "bytes \<Rightarrow> gzip_zinfo \<Rightarrow> offset \<Rightarrow> offset \<Rightarrow> span_id \<Rightarrow> int \<times> bytes"

definition newGzipZinfo :: "bytes \<Rightarrow> zinfo_error + gzip_zinfo" where
  "newGzipZinfo zinfoBytes =
     (if zinfoBytes = [] then Inl EmptyCheckpoints
      else case blob_to_zinfo zinfoBytes of
             CNull \<Rightarrow> Inl CannotConvertBlob | CFault \<Rightarrow> Inl ZinfoPanic | CVal z \<Rightarrow> Inr z)"

definition gzip_Bytes :: "gzip_zinfo \<Rightarrow> zinfo_error + bytes" where
  "gzip_Bytes i =
     (let bs = replicate (nat (get_blob_size i)) 0 in
      if bs = [] then Inl (SerializeFailed 0)
      else case zinfo_to_blob i bs of
             CVal (ret, out) \<Rightarrow> if ret \<le> 0 then Inl (SerializeFailed ret) else Inr out
           | _ \<Rightarrow> Inl ZinfoPanic)"

definition gzip_SpanSize :: "gzip_zinfo \<Rightarrow> offset" where
  "gzip_SpanSize i = gz_span_size i"

definition gzip_MaxSpanID :: "gzip_zinfo \<Rightarrow> span_id option" where
  "gzip_MaxSpanID i = Some (get_max_span_id i)"

definition gzip_UncompressedOffsetToSpanID :: "gzip_zinfo \<Rightarrow> offset \<Rightarrow> span_id option" where
  "gzip_UncompressedOffsetToSpanID i off = pt_index_from_ucmp_offset i off"

definition gzip_ExtractDataFromBuffer ::
    "inflate_fun \<Rightarrow> gzip_zinfo \<Rightarrow> bytes \<Rightarrow> offset \<Rightarrow> offset \<Rightarrow> span_id \<Rightarrow> zinfo_error + bytes" where
  "gzip_ExtractDataFromBuffer inflate i compressedBuf uncompressedSize uncompressedOffset spanID =
     (if compressedBuf = [] then Inl EmptyCompressedBuffer
      else if uncompressedSize < 0 then Inl (InvalidUncompressedSize uncompressedSize)
      else if uncompressedSize = 0 then Inr []
      else case inflate compressedBuf i uncompressedOffset uncompressedSize spanID of
             (ret, bs) \<Rightarrow> if ret \<le> 0 then Inl (ExtractFailed ret) else Inr bs)"

definition gzip_StartCompressedOffset :: "gzip_zinfo \<Rightarrow> span_id \<Rightarrow> offset option" where
  "gzip_StartCompressedOffset i spanID =
     (case (get_comp_off i spanID, has_bits i spanID) of
        (Some start, Some hb) \<Rightarrow> Some (if hb then wrap64 (start - 1) else start)
      | _ \<Rightarrow> None)"

definition gzip_EndCompressedOffset :: "gzip_zinfo \<Rightarrow> span_id \<Rightarrow> offset \<Rightarrow> offset option" where
  "gzip_EndCompressedOffset i spanID fileSize =
     (if spanID = get_max_span_id i then Some fileSize else get_comp_off i (wrap32 (spanID + 1)))"

definition gzip_StartUncompressedOffset :: "gzip_zinfo \<Rightarrow> span_id \<Rightarrow> offset option" where
  "gzip_StartUncompressedOffset i spanID = get_ucomp_off i spanID"

definition gzip_EndUncompressedOffset :: "gzip_zinfo \<Rightarrow> span_id \<Rightarrow> offset \<Rightarrow> offset option" where
  "gzip_EndUncompressedOffset i spanID fileSize =
     (if spanID = get_max_span_id i then Some fileSize else get_ucomp_off i (wrap32 (spanID + 1)))"

section \<open>The interface\<close>

datatype zinfo = TarZ tarZinfo | GzipZ gzip_zinfo

text \<open>
  \<open>t2z\<close> and \<open>z2t\<close> are the generated flatbuffer code of a \<^verbatim>\<open>TarZinfo\<close>; where it panics, the
  wrapper recovers and returns an error. \<open>stat\<close> is \<^verbatim>\<open>os.Stat\<close> and \<open>gen\<close> the C function
  \<^verbatim>\<open>generate_zinfo_from_file\<close>, with its return code.
\<close>

definition newTarZinfo :: "(bytes \<Rightarrow> tarZinfo option) \<Rightarrow> bytes \<Rightarrow> zinfo_error + tarZinfo" where
  "newTarZinfo t2z zinfoBytes =
     (case t2z zinfoBytes of None \<Rightarrow> Inl CannotUnmarshalTarZinfo | Some z \<Rightarrow> Inr z)"

definition tar_Bytes :: "(tarZinfo \<Rightarrow> bytes option) \<Rightarrow> tarZinfo \<Rightarrow> zinfo_error + bytes" where
  "tar_Bytes z2t i = (case z2t i of None \<Rightarrow> Inl (SerializeFailed 0) | Some bs \<Rightarrow> Inr bs)"

definition NewZinfo :: "(bytes \<Rightarrow> tarZinfo option) \<Rightarrow> string \<Rightarrow> bytes \<Rightarrow> zinfo_error + zinfo" where
  "NewZinfo t2z compressionAlgo zinfoBytes =
     (if compressionAlgo = Gzip then map_sum id GzipZ (newGzipZinfo zinfoBytes)
      else if compressionAlgo = Zstd then Inl (NotImplementedAlgorithm Zstd)
      else if compressionAlgo = Uncompressed \<or> compressionAlgo = Unknown
        then map_sum id TarZ (newTarZinfo t2z zinfoBytes)
      else Inl (UnexpectedAlgorithm compressionAlgo))"

definition newGzipZinfoFromFile ::
    "(string \<Rightarrow> int \<Rightarrow> int \<times> gzip_zinfo) \<Rightarrow> string \<Rightarrow> int \<Rightarrow> zinfo_error + gzip_zinfo" where
  "newGzipZinfoFromFile gen gzipFile spanSize =
     (case gen gzipFile spanSize of (ret, z) \<Rightarrow> if ret < 0 then Inl (GenerateFailed ret) else Inr z)"

definition NewZinfoFromFile ::
    "(string \<Rightarrow> int \<Rightarrow> int \<times> gzip_zinfo) \<Rightarrow> (string \<Rightarrow> int option) \<Rightarrow> string \<Rightarrow> string \<Rightarrow> int \<Rightarrow>
     zinfo_error + zinfo" where
  "NewZinfoFromFile gen stat compressionAlgo filename spanSize =
     (if compressionAlgo = Gzip then map_sum id GzipZ (newGzipZinfoFromFile gen filename spanSize)
      else if compressionAlgo = Zstd then Inl (NotImplementedAlgorithm Zstd)
      else if compressionAlgo = Uncompressed
        then map_sum id TarZ (newTarZinfoFromFile (stat filename) spanSize)
      else Inl (UnexpectedAlgorithm compressionAlgo))"

fun zinfo_Bytes :: "(tarZinfo \<Rightarrow> bytes option) \<Rightarrow> zinfo \<Rightarrow> zinfo_error + bytes" where
  "zinfo_Bytes z2t (TarZ z) = tar_Bytes z2t z"
| "zinfo_Bytes z2t (GzipZ z) = gzip_Bytes z"

fun MaxSpanID :: "zinfo \<Rightarrow> span_id option" where
  "MaxSpanID (TarZ z) = tar_MaxSpanID z"
| "MaxSpanID (GzipZ z) = gzip_MaxSpanID z"

fun UncompressedOffsetToSpanID :: "zinfo \<Rightarrow> offset \<Rightarrow> span_id option" where
  "UncompressedOffsetToSpanID (TarZ z) = tar_UncompressedOffsetToSpanID z"
| "UncompressedOffsetToSpanID (GzipZ z) = gzip_UncompressedOffsetToSpanID z"

fun StartCompressedOffset :: "zinfo \<Rightarrow> span_id \<Rightarrow> offset option" where
  "StartCompressedOffset (TarZ z) = tar_StartOffset z"
| "StartCompressedOffset (GzipZ z) = gzip_StartCompressedOffset z"

fun EndCompressedOffset :: "zinfo \<Rightarrow> span_id \<Rightarrow> offset \<Rightarrow> offset option" where
  "EndCompressedOffset (TarZ z) = tar_EndOffset z"
| "EndCompressedOffset (GzipZ z) = gzip_EndCompressedOffset z"

fun StartUncompressedOffset :: "zinfo \<Rightarrow> span_id \<Rightarrow> offset option" where
  "StartUncompressedOffset (TarZ z) = tar_StartOffset z"
| "StartUncompressedOffset (GzipZ z) = gzip_StartUncompressedOffset z"

fun EndUncompressedOffset :: "zinfo \<Rightarrow> span_id \<Rightarrow> offset \<Rightarrow> offset option" where
  "EndUncompressedOffset (TarZ z) = tar_EndOffset z"
| "EndUncompressedOffset (GzipZ z) = gzip_EndUncompressedOffset z"

fun ExtractDataFromBuffer ::
    "inflate_fun \<Rightarrow> zinfo \<Rightarrow> bytes \<Rightarrow> offset \<Rightarrow> offset \<Rightarrow> span_id \<Rightarrow> zinfo_error + bytes" where
  "ExtractDataFromBuffer inflate (TarZ z) = tar_ExtractDataFromBuffer z"
| "ExtractDataFromBuffer inflate (GzipZ z) = gzip_ExtractDataFromBuffer inflate z"

section \<open>The layout of the spans\<close>

text \<open>
  What the clients of a \<^verbatim>\<open>Zinfo\<close> rely on, for an uncompressed stream of \<open>us\<close> bytes: span IDs
  run from 0 to the maximum, span \<open>i\<close> ends where span \<open>i + 1\<close> starts, the last one ends at
  \<open>us\<close>, starts increase, and the ID of an offset is that of the span that contains it. The ID
  of \<open>us\<close> itself may lie beyond the last span.
\<close>

locale span_layout =
  fixes wf :: "'z \<Rightarrow> offset \<Rightarrow> bool" and maxID :: "'z \<Rightarrow> span_id option"
    and startU :: "'z \<Rightarrow> span_id \<Rightarrow> offset option"
    and endU :: "'z \<Rightarrow> span_id \<Rightarrow> offset \<Rightarrow> offset option"
    and idOf :: "'z \<Rightarrow> offset \<Rightarrow> span_id option"
  assumes max_Some: "wf z us \<Longrightarrow> \<exists>m. maxID z = Some m \<and> 0 \<le> m \<and> m + 1 < max_int32"
    and us_range: "wf z us \<Longrightarrow> 0 \<le> us \<and> us \<le> max_int64"
    and start_Some: "wf z us \<Longrightarrow> maxID z = Some m \<Longrightarrow> 0 \<le> i \<Longrightarrow> i \<le> m \<Longrightarrow>
          \<exists>s. startU z i = Some s \<and> 0 \<le> s \<and> s \<le> us"
    and start_0: "wf z us \<Longrightarrow> startU z 0 = Some 0"
    and start_mono: "wf z us \<Longrightarrow> maxID z = Some m \<Longrightarrow> 0 \<le> i \<Longrightarrow> i < m \<Longrightarrow>
          startU z i = Some s \<Longrightarrow> startU z (i + 1) = Some t \<Longrightarrow> s < t"
    and end_last: "wf z us \<Longrightarrow> maxID z = Some m \<Longrightarrow> endU z m us = Some us"
    and end_next: "wf z us \<Longrightarrow> maxID z = Some m \<Longrightarrow> 0 \<le> i \<Longrightarrow> i < m \<Longrightarrow> endU z i us = startU z (i + 1)"
    and id_Some: "wf z us \<Longrightarrow> maxID z = Some m \<Longrightarrow> 0 \<le> off \<Longrightarrow> off \<le> us \<Longrightarrow>
          \<exists>i. idOf z off = Some i \<and> 0 \<le> i \<and> (off < us \<longrightarrow> i \<le> m)"
    and id_start: "wf z us \<Longrightarrow> maxID z = Some m \<Longrightarrow> 0 \<le> off \<Longrightarrow> off \<le> us \<Longrightarrow>
          idOf z off = Some i \<Longrightarrow> i \<le> m \<Longrightarrow> startU z i = Some s \<Longrightarrow> s \<le> off"
    and id_end: "wf z us \<Longrightarrow> maxID z = Some m \<Longrightarrow> 0 \<le> off \<Longrightarrow> off \<le> us \<Longrightarrow>
          idOf z off = Some i \<Longrightarrow> i < m \<Longrightarrow> startU z (i + 1) = Some t \<Longrightarrow> off < t"
begin

lemma end_Some:
  assumes "wf z us" and "maxID z = Some m" and "0 \<le> i" and "i \<le> m"
  shows "\<exists>e. endU z i us = Some e \<and> 0 \<le> e \<and> e \<le> us"
proof (cases "i = m")
  case True
  then show ?thesis using assms end_last us_range by auto
next
  case False
  then show ?thesis using assms end_next start_Some [of z us m "i + 1"] by auto
qed

lemma start_le_end:
  assumes "wf z us" and "maxID z = Some m" and "0 \<le> i" and "i \<le> m"
    and "startU z i = Some s" and "endU z i us = Some e"
  shows "s \<le> e"
proof (cases "i = m")
  case True
  then have "e = us" using assms(6) end_last [OF assms(1,2)] by simp
  then show ?thesis using assms(5) start_Some [OF assms(1-4)] by auto
next
  case False
  then have "startU z (i + 1) = Some e"
    using assms(4,6) end_next [OF assms(1,2,3)] by simp
  then show ?thesis using start_mono [OF assms(1,2,3) _ assms(5)] assms(4) False by force
qed

text \<open>The starts are monotone over any distance.\<close>

lemma start_mono_le:
  assumes "wf z us" and "maxID z = Some m" and "0 \<le> i" and "i \<le> j" and "j \<le> m"
    and "startU z i = Some s" and "startU z j = Some t"
  shows "s \<le> t"
  using assms(4-7)
proof (induction "nat (j - i)" arbitrary: j t)
  case 0
  then show ?case by simp
next
  case (Suc k)
  then have j: "i \<le> j - 1" "k = nat (j - 1 - i)" by auto
  then obtain t' where t': "startU z (j - 1) = Some t'"
    using start_Some [OF assms(1,2), of "j - 1"] assms(3) Suc.prems(2) by auto
  then have "t' < t" using start_mono [OF assms(1,2), of "j - 1" t' t] j assms(3) Suc.prems by simp
  moreover have "s \<le> t'" using Suc.hyps(1) [OF j(2) j(1) _ assms(6) t'] Suc.prems(2) by simp
  ultimately show ?case by simp
qed

text \<open>Later offsets lie in later spans, and no offset lies beyond the end of its span.\<close>

lemma id_mono:
  assumes "wf z us" and "maxID z = Some m" and "0 \<le> a" and "a \<le> b" and "b \<le> us"
    and "idOf z a = Some i" and "idOf z b = Some j" and "i \<le> m"
  shows "i \<le> j"
proof (rule ccontr)
  assume "\<not> i \<le> j"
  then have j: "j < i" "j < m" using assms(8) by auto
  have j0: "0 \<le> j" using id_Some [OF assms(1,2), of b] assms by auto
  obtain t where t: "startU z (j + 1) = Some t" using start_Some [OF assms(1,2), of "j + 1"] j j0 by auto
  obtain s where s: "startU z i = Some s" using start_Some [OF assms(1,2), of i] j j0 assms(8) by auto
  have "b < t" using id_end [OF assms(1,2) _ assms(5,7) j(2) t] assms by simp
  moreover have "t \<le> s" using start_mono_le [OF assms(1,2) _ _ assms(8) t s] j j0 by simp
  moreover have "s \<le> a" using id_start [OF assms(1,2,3) _ assms(6,8) s] assms by simp
  ultimately show False using assms(4) by simp
qed

lemma id_end_le:
  assumes "wf z us" and "maxID z = Some m" and "0 \<le> off" and "off \<le> us"
    and "idOf z off = Some i" and "i \<le> m" and "endU z i us = Some e"
  shows "off \<le> e"
proof (cases "i = m")
  case True
  then show ?thesis using assms end_last [OF assms(1,2)] by simp
next
  case False
  have "0 \<le> i" using id_Some [OF assms(1-4)] assms(5) by auto
  then show ?thesis
    using False assms(6,7) end_next [OF assms(1,2), of i] id_end [OF assms(1-5), of e] by simp
qed

text \<open>The span of an offset inside the stream contains it.\<close>

lemma id_contains:
  assumes "wf z us" and "maxID z = Some m" and "0 \<le> off" and "off < us" and "idOf z off = Some i"
  shows "\<exists>s e. 0 \<le> i \<and> i \<le> m \<and> startU z i = Some s \<and> endU z i us = Some e \<and> s \<le> off \<and> off < e"
proof -
  have "0 \<le> i \<and> i \<le> m" using id_Some [OF assms(1,2,3)] assms(4,5) by auto
  then have i: "0 \<le> i" "i \<le> m" by simp_all
  obtain s where s: "startU z i = Some s" using start_Some [OF assms(1,2) i] by blast
  obtain e where e: "endU z i us = Some e" using end_Some [OF assms(1,2) i] by blast
  have "off < e"
  proof (cases "i = m")
    case True
    then show ?thesis using e end_last [OF assms(1,2)] assms(4) by simp
  next
    case False
    then show ?thesis using e end_next [OF assms(1,2) i(1)] id_end [OF assms(1,2,3)] assms(4,5) i by simp
  qed
  then show ?thesis using i s e id_start [OF assms(1,2,3)] assms(4,5) by simp
qed

end

subsection \<open>Uncompressed archives\<close>

text \<open>
  The archive is not empty, the span size is positive and the number of spans fits a span
  ID; then the IDs are those of the blocks of \<open>spanSize\<close> bytes, the last one shorter.
\<close>

definition tar_wf :: "tarZinfo \<Rightarrow> offset \<Rightarrow> bool" where
  "tar_wf z us \<longleftrightarrow> tz_size z = us \<and> 0 < us \<and> us + tz_spanSize z \<le> max_int64 \<and> 0 < tz_spanSize z \<and>
     us div tz_spanSize z + 1 < max_int32"

lemma tar_MaxSpanID_wf:
  assumes "tar_wf z us"
  shows "tar_MaxSpanID z = Some ((us - 1) div tz_spanSize z)"
proof -
  let ?s = "tz_spanSize z"
  have b: "0 < us" "0 < ?s" "us \<le> max_int64" "us div ?s < max_int32" "tz_size z = us"
    using assms by (auto simp: tar_wf_def)
  have q: "0 \<le> us div ?s" using b by (simp add: pos_imp_zdiv_nonneg_iff)
  have "(us - 1) div ?s = (if us mod ?s = 0 then us div ?s - 1 else us div ?s)"
  proof (cases "us mod ?s = 0")
    case True
    then have "us = ?s * (us div ?s)" using mult_div_mod_eq [of ?s us] by linarith
    then show ?thesis
      using True b div_unique_interval [of ?s "us div ?s - 1" "us - 1"] by (simp add: algebra_simps)
  next
    case False
    then have "0 < us mod ?s" using b pos_mod_sign [of ?s us] by linarith
    then have "?s * (us div ?s) \<le> us - 1" using mult_div_mod_eq [of ?s us] by linarith
    then show ?thesis
      using False b div_unique_interval [of ?s "us div ?s" "us - 1"] div_interval [of ?s us] by simp
  qed
  then show ?thesis
    using b q by (simp add: tar_MaxSpanID_def go_quot_pos go_rem_pos wrap32_id)
qed

lemma tar_offset_wf:
  assumes "tar_wf z us" and "0 \<le> i" and "i \<le> (us - 1) div tz_spanSize z"
  shows "tar_spanIDToOffset z i = tz_spanSize z * i" and "tz_spanSize z * i \<le> us - 1"
proof -
  have "tz_spanSize z * i \<le> tz_spanSize z * ((us - 1) div tz_spanSize z)"
    using assms by (simp add: tar_wf_def)
  also have "\<dots> \<le> us - 1"
    using assms(1) div_interval(1) [of "tz_spanSize z" "us - 1"] by (simp add: tar_wf_def)
  finally show le: "tz_spanSize z * i \<le> us - 1" .
  have "0 \<le> tz_spanSize z * i" using assms(1,2) by (simp add: tar_wf_def)
  with le show "tar_spanIDToOffset z i = tz_spanSize z * i"
    using assms(1) by (simp add: tar_spanIDToOffset_def tar_wf_def wrap64_id)
qed

lemma tar_StartOffset_wf:
  assumes "tar_wf z us" and "tar_MaxSpanID z = Some m" and "0 \<le> i" and "i \<le> m"
  shows "tar_StartOffset z i = Some (tz_spanSize z * i)" and "0 \<le> tz_spanSize z * i"
    and "tz_spanSize z * i < us"
  using tar_offset_wf [OF assms(1), of i] assms
  by (auto simp: tar_StartOffset_def tar_MaxSpanID_wf tar_wf_def)

lemma tar_ID_wf:
  assumes "tar_wf z us" and "0 \<le> off" and "off \<le> us"
  shows "tar_UncompressedOffsetToSpanID z off = Some (off div tz_spanSize z)"
proof -
  let ?s = "tz_spanSize z"
  have b: "0 < us" "0 < ?s" "us \<le> max_int64" "us div ?s < max_int32"
    using assms(1) by (auto simp: tar_wf_def)
  have "0 \<le> off div ?s" "off div ?s \<le> us div ?s"
    using b assms by (simp_all add: pos_imp_zdiv_nonneg_iff zdiv_mono1)
  then show ?thesis
    using b assms by (simp add: tar_UncompressedOffsetToSpanID_def go_quot_pos wrap32_id)
qed

lemma tar_EndOffset_wf:
  assumes "tar_wf z us" and "tar_MaxSpanID z = Some m" and "0 \<le> i" and "i < m"
  shows "tar_EndOffset z i us = tar_StartOffset z (i + 1)"
proof -
  have "i + 1 \<le> max_int32"
    using assms(2-4) zdiv_mono1 [of "us - 1" us "tz_spanSize z"] assms(1)
    by (simp add: tar_MaxSpanID_wf [OF assms(1)]) (simp add: tar_wf_def)
  then show ?thesis
    using assms by (simp add: tar_EndOffset_def tar_StartOffset_def wrap32_id)
qed

interpretation tarz: span_layout tar_wf tar_MaxSpanID tar_StartOffset tar_EndOffset
  tar_UncompressedOffsetToSpanID
proof (unfold_locales, goal_cases)
  case (1 z us)
  then have "(us - 1) div tz_spanSize z \<le> us div tz_spanSize z"
    by (intro zdiv_mono1) (auto simp: tar_wf_def)
  with 1 show ?case by (auto simp: tar_MaxSpanID_wf tar_wf_def pos_imp_zdiv_nonneg_iff)
next
  case (2 z us)
  then show ?case by (auto simp: tar_wf_def)
next
  case (3 z us m i)
  then show ?case using tar_StartOffset_wf [of z us m i] by auto
next
  case (4 z us)
  then show ?case by (simp add: tar_StartOffset_def tar_spanIDToOffset_def wrap64_def)
next
  case (5 z us m i s t)
  then have "s = tz_spanSize z * i" "t = tz_spanSize z * (i + 1)"
    using tar_StartOffset_wf(1) [OF 5(1,2), of i] tar_StartOffset_wf(1) [OF 5(1,2), of "i + 1"] by auto
  then show ?case using 5(1) by (simp add: tar_wf_def algebra_simps)
next
  case (6 z us m)
  then show ?case by (simp add: tar_EndOffset_def)
next
  case (7 z us m i)
  then show ?case by (rule tar_EndOffset_wf)
next
  case (8 z us m off)
  have "off \<le> us - 1 \<Longrightarrow> off div tz_spanSize z \<le> (us - 1) div tz_spanSize z"
    using 8(1) by (intro zdiv_mono1) (auto simp: tar_wf_def)
  with 8 show ?case
    by (auto simp: tar_ID_wf tar_MaxSpanID_wf tar_wf_def pos_imp_zdiv_nonneg_iff)
next
  case (9 z us m off i s)
  then have i: "i = off div tz_spanSize z" "0 < tz_spanSize z" by (auto simp: tar_ID_wf tar_wf_def)
  then have "0 \<le> i" using 9(3) by (simp add: pos_imp_zdiv_nonneg_iff)
  then have "s = tz_spanSize z * i" using 9 tar_StartOffset_wf(1) [OF 9(1,2)] by auto
  then show ?case
    using i div_interval(1) [of "tz_spanSize z" off] by simp
next
  case (10 z us m off i t)
  then have i: "i = off div tz_spanSize z" "0 < tz_spanSize z" by (auto simp: tar_ID_wf tar_wf_def)
  then have "0 \<le> i" using 10(3) by (simp add: pos_imp_zdiv_nonneg_iff)
  then have "t = tz_spanSize z * (i + 1)" using 10 tar_StartOffset_wf(1) [OF 10(1,2), of "i + 1"] by auto
  then show ?case
    using i div_interval(2) [of "tz_spanSize z" off] by (simp add: algebra_simps)
qed

subsection \<open>Gzip\<close>

text \<open>
  A checkpoint list as \<^verbatim>\<open>generate_zinfo_from_fp\<close> builds it: at least one checkpoint, the first
  at uncompressed offset 0, the offsets increasing and inside the stream.
\<close>

definition gzip_wf :: "gzip_zinfo \<Rightarrow> offset \<Rightarrow> bool" where
  "gzip_wf z us \<longleftrightarrow> gz_list z \<noteq> [] \<and> gz_have z = int (length (gz_list z)) \<and> gz_have z < max_int32 \<and>
     cp_out (hd (gz_list z)) = 0 \<and> sorted_wrt (<) (map cp_out (gz_list z)) \<and>
     list_all (\<lambda>c. cp_out c \<le> us) (gz_list z) \<and> us \<le> max_int64"

text \<open>The C loop counts the checkpoints after the first one that do not lie beyond the offset.\<close>

lemma pt_index_loop_count:
  assumes "hs \<noteq> []"
  shows "pt_index_loop (int (length hs)) hs off res =
         Some (res + int (length (takeWhile (\<lambda>c. cp_out c \<le> off) (tl hs))))"
  using assms
proof (induction hs arbitrary: res rule: induct_list012)
  case (3 h h1 hs)
  then show ?case by simp
qed simp_all

lemma gzip_ID_wf:
  assumes "gzip_wf z us"
  shows "gzip_UncompressedOffsetToSpanID z off =
         Some (int (length (takeWhile (\<lambda>c. cp_out c \<le> off) (tl (gz_list z)))))"
  using assms pt_index_loop_count [of "gz_list z" off 0]
  by (simp add: gzip_UncompressedOffsetToSpanID_def pt_index_from_ucmp_offset_def gzip_wf_def)

lemma gzip_Max_wf: "gzip_wf z us \<Longrightarrow> gzip_MaxSpanID z = Some (int (length (gz_list z)) - 1)"
  by (cases "gz_list z") (auto simp: gzip_MaxSpanID_def get_max_span_id_def gzip_wf_def wrap32_id)

lemma gzip_Start_wf:
  "0 \<le> i \<Longrightarrow> i < int (length (gz_list z)) \<Longrightarrow>
   gzip_StartUncompressedOffset z i = Some (cp_out (gz_list z ! nat i))"
  by (simp add: gzip_StartUncompressedOffset_def get_ucomp_off_def checkpoint_def)

lemma gzip_first: "gzip_wf z us \<Longrightarrow> cp_out (gz_list z ! 0) = 0"
  by (auto simp: gzip_wf_def hd_conv_nth)

lemma gzip_outs:
  assumes "gzip_wf z us" and "k < length (gz_list z)"
  shows "0 \<le> cp_out (gz_list z ! k)" and "cp_out (gz_list z ! k) \<le> us"
    and "Suc k < length (gz_list z) \<Longrightarrow> cp_out (gz_list z ! k) < cp_out (gz_list z ! Suc k)"
proof -
  have s: "i < j \<Longrightarrow> j < length (gz_list z) \<Longrightarrow> cp_out (gz_list z ! i) < cp_out (gz_list z ! j)" for i j
    using assms(1) sorted_wrt_nth_less [of "(<)" "map cp_out (gz_list z)" i j] by (simp add: gzip_wf_def)
  show "0 \<le> cp_out (gz_list z ! k)" using s [of 0 k] gzip_first [OF assms(1)] assms(2) by (cases k) auto
  show "cp_out (gz_list z ! k) \<le> us" using assms by (simp add: gzip_wf_def list_all_length)
  show "Suc k < length (gz_list z) \<Longrightarrow> cp_out (gz_list z ! k) < cp_out (gz_list z ! Suc k)"
    using s by simp
qed

lemma gzip_End_wf:
  assumes "gzip_wf z us"
  shows "gzip_EndUncompressedOffset z (int (length (gz_list z)) - 1) us = Some us"
    and "0 \<le> i \<Longrightarrow> i < int (length (gz_list z)) - 1 \<Longrightarrow>
         gzip_EndUncompressedOffset z i us = gzip_StartUncompressedOffset z (i + 1)"
  using assms gzip_Max_wf [OF assms]
  by (auto simp: gzip_EndUncompressedOffset_def gzip_StartUncompressedOffset_def gzip_MaxSpanID_def
      gzip_wf_def wrap32_id)

interpretation gzipz: span_layout gzip_wf gzip_MaxSpanID gzip_StartUncompressedOffset
  gzip_EndUncompressedOffset gzip_UncompressedOffsetToSpanID
proof (unfold_locales, goal_cases)
  case (1 z us)
  then show ?case
    by (cases "gz_list z") (auto simp: gzip_Max_wf, auto simp: gzip_wf_def)
next
  case (2 z us)
  then show ?case using gzip_outs [of z us 0] by (auto simp: gzip_wf_def)
next
  case (3 z us m i)
  then show ?case using gzip_outs [of z us "nat i"] by (auto simp: gzip_Max_wf gzip_Start_wf)
next
  case (4 z us)
  then show ?case by (auto simp: gzip_Start_wf gzip_wf_def hd_conv_nth)
next
  case (5 z us m i s t)
  then show ?case
    using gzip_outs(3) [of z us "nat i"] by (auto simp: gzip_Max_wf gzip_Start_wf nat_add_distrib)
next
  case (6 z us m)
  then show ?case using gzip_End_wf(1) by (auto simp: gzip_Max_wf)
next
  case (7 z us m i)
  then show ?case using gzip_End_wf(2) by (auto simp: gzip_Max_wf)
next
  case (8 z us m off)
  then show ?case
    using length_takeWhile_le [of "\<lambda>c. cp_out c \<le> off" "tl (gz_list z)"]
    by (cases "gz_list z") (auto simp: gzip_ID_wf gzip_Max_wf, auto simp: gzip_wf_def)
next
  case (9 z us m off i s)
  define k where "k = length (takeWhile (\<lambda>c. cp_out c \<le> off) (tl (gz_list z)))"
  have i: "i = int k" using 9 by (simp add: gzip_ID_wf k_def)
  have s: "s = cp_out (gz_list z ! k)" "k < length (gz_list z)"
    using 9 gzip_Start_wf [of i z] by (auto simp: i gzip_Max_wf)
  show ?case
  proof (cases k)
    case 0
    then show ?thesis using 9(3) s(1) gzip_first [OF 9(1)] by simp
  next
    case (Suc j)
    then have "tl (gz_list z) ! j \<in> set (takeWhile (\<lambda>c. cp_out c \<le> off) (tl (gz_list z)))"
      by (metis k_def lessI nth_mem takeWhile_nth)
    then show ?thesis using s Suc by (auto simp: nth_tl dest: set_takeWhileD)
  qed
next
  case (10 z us m off i t)
  define k where "k = length (takeWhile (\<lambda>c. cp_out c \<le> off) (tl (gz_list z)))"
  have i: "i = int k" using 10 by (simp add: gzip_ID_wf k_def)
  have k: "Suc k < length (gz_list z)" using 10 by (simp add: i gzip_Max_wf)
  have "t = cp_out (gz_list z ! Suc k)"
    using 10 gzip_Start_wf [of "i + 1" z] k by (simp add: i nat_add_distrib)
  moreover have "\<not> cp_out (tl (gz_list z) ! k) \<le> off"
    using nth_length_takeWhile [of "\<lambda>c. cp_out c \<le> off" "tl (gz_list z)"] k by (simp add: k_def)
  ultimately show ?case using k by (simp add: nth_tl)
qed

text \<open>Both kinds behind the interface.\<close>

fun zinfo_wf :: "zinfo \<Rightarrow> offset \<Rightarrow> bool" where
  "zinfo_wf (TarZ z) us = tar_wf z us"
| "zinfo_wf (GzipZ z) us = gzip_wf z us"

interpretation zinfo: span_layout zinfo_wf MaxSpanID StartUncompressedOffset EndUncompressedOffset
  UncompressedOffsetToSpanID
proof (unfold_locales, goal_cases)
  case (1 z us) then show ?case using tarz.max_Some gzipz.max_Some by (cases z) fastforce+
next
  case (2 z us) then show ?case by (cases z) (auto dest: tarz.us_range gzipz.us_range)
next
  case (3 z us m i) then show ?case by (cases z) (auto intro: tarz.start_Some gzipz.start_Some)
next
  case (4 z us) then show ?case by (cases z) (auto intro: tarz.start_0 gzipz.start_0)
next
  case (5 z us m i s t)
  then show ?case by (cases z) (auto intro: tarz.start_mono gzipz.start_mono)
next
  case (6 z us m) then show ?case by (cases z) (auto intro: tarz.end_last gzipz.end_last)
next
  case (7 z us m i) then show ?case by (cases z) (auto intro: tarz.end_next gzipz.end_next)
next
  case (8 z us m off) then show ?case by (cases z) (auto intro: tarz.id_Some gzipz.id_Some)
next
  case (9 z us m off i s) then show ?case by (cases z) (auto intro: tarz.id_start gzipz.id_start)
next
  case (10 z us m off i t) then show ?case by (cases z) (auto intro: tarz.id_end gzipz.id_end)
qed

section \<open>Properties\<close>

text \<open>
  C14: the spans partition the uncompressed stream and an offset is mapped to the one span
  that contains it, for uncompressed archives by division and for gzip by the C search over
  the checkpoint list.
\<close>

theorem zinfo_span_of_offset:
  assumes "zinfo_wf z us" and "0 \<le> off" and "off < us"
  shows "\<exists>m i s e. MaxSpanID z = Some m \<and> UncompressedOffsetToSpanID z off = Some i \<and>
     0 \<le> i \<and> i \<le> m \<and> StartUncompressedOffset z i = Some s \<and> EndUncompressedOffset z i us = Some e \<and>
     s \<le> off \<and> off < e \<and> 0 \<le> s \<and> e \<le> us \<and>
     (\<forall>j s' e'. 0 \<le> j \<and> j \<le> m \<and> StartUncompressedOffset z j = Some s' \<and>
        EndUncompressedOffset z j us = Some e' \<and> s' \<le> off \<and> off < e' \<longrightarrow> j = i)"
proof -
  obtain m where m: "MaxSpanID z = Some m" using zinfo.max_Some [OF assms(1)] by blast
  obtain i where i: "UncompressedOffsetToSpanID z off = Some i"
    using zinfo.id_Some [OF assms(1) m assms(2)] assms(3) by auto
  obtain s e where c: "0 \<le> i" "i \<le> m" "StartUncompressedOffset z i = Some s"
      "EndUncompressedOffset z i us = Some e" "s \<le> off" "off < e"
    using zinfo.id_contains [OF assms(1) m assms(2,3) i] by blast
  have "j = i" if "0 \<le> j" "j \<le> m" "StartUncompressedOffset z j = Some s'"
      "EndUncompressedOffset z j us = Some e'" "s' \<le> off" "off < e'" for j s' e'
  proof (rule ccontr)
    assume "j \<noteq> i"
    then consider "j < i" | "i < j" by linarith
    then show False
    proof cases
      case 1
      then have "StartUncompressedOffset z (j + 1) = Some e'"
        using zinfo.end_next [OF assms(1) m, of j] that c by simp
      then have "e' \<le> s" using zinfo.start_mono_le [OF assms(1) m, of "j + 1" i e' s] that(1) c 1 by simp
      then show ?thesis using that c by simp
    next
      case 2
      then have "StartUncompressedOffset z (i + 1) = Some e"
        using zinfo.end_next [OF assms(1) m, of i] that c by simp
      then have "e \<le> s'" using zinfo.start_mono_le [OF assms(1) m, of "i + 1" j e s'] that c 2 by simp
      then show ?thesis using that c by simp
    qed
  qed
  moreover have "0 \<le> s" "e \<le> us"
    using zinfo.start_Some [OF assms(1) m c(1,2)] zinfo.end_Some [OF assms(1) m c(1,2)] c by auto
  ultimately show ?thesis using m i c by blast
qed

theorem zinfo_span_of_offset_witness:
  "zinfo_wf (TarZ \<lparr>tz_version = 2, tz_spanSize = 4, tz_size = 10\<rparr>) 10 \<and>
   UncompressedOffsetToSpanID (TarZ \<lparr>tz_version = 2, tz_spanSize = 4, tz_size = 10\<rparr>) 9 = Some 2 \<and>
   (\<exists>s e. EndUncompressedOffset (TarZ \<lparr>tz_version = 2, tz_spanSize = 4, tz_size = 10\<rparr>) 2 10 = Some e \<and>
      StartUncompressedOffset (TarZ \<lparr>tz_version = 2, tz_spanSize = 4, tz_size = 10\<rparr>) 2 = Some s \<and>
      s \<le> 9 \<and> 9 < e)"
proof -
  have wf: "zinfo_wf (TarZ \<lparr>tz_version = 2, tz_spanSize = 4, tz_size = 10\<rparr>) 10"
    by (simp add: tar_wf_def)
  have "UncompressedOffsetToSpanID (TarZ \<lparr>tz_version = 2, tz_spanSize = 4, tz_size = 10\<rparr>) 9 = Some 2"
    by (simp add: tar_UncompressedOffsetToSpanID_def go_quot_def wrap64_def wrap32_def)
  then show ?thesis using wf zinfo_span_of_offset [OF wf, of 9] by fastforce
qed

text \<open>
  For an uncompressed archive whose size is a multiple of the span size, the end of the
  archive is mapped to a span ID one beyond the last span.
\<close>

theorem tar_end_beyond_last_span:
  assumes "tar_wf z us" and "us mod tz_spanSize z = 0"
  shows "\<exists>m. tar_MaxSpanID z = Some m \<and> tar_UncompressedOffsetToSpanID z us = Some (m + 1)"
proof -
  have b: "0 < tz_spanSize z" "0 \<le> us" using assms(1) by (auto simp: tar_wf_def)
  have "us = tz_spanSize z * (us div tz_spanSize z)"
    using assms(2) mult_div_mod_eq [of "tz_spanSize z" us] by linarith
  then have "(us - 1) div tz_spanSize z = us div tz_spanSize z - 1"
    using b div_unique_interval [of "tz_spanSize z" "us div tz_spanSize z - 1" "us - 1"]
    by (simp add: algebra_simps)
  then show ?thesis using tar_MaxSpanID_wf [OF assms(1)] tar_ID_wf [OF assms(1) b(2)] by simp
qed

theorem tar_end_beyond_last_span_witness:
  "tar_wf \<lparr>tz_version = 2, tz_spanSize = 4, tz_size = 8\<rparr> 8 \<and>
   (\<exists>m. tar_MaxSpanID \<lparr>tz_version = 2, tz_spanSize = 4, tz_size = 8\<rparr> = Some m \<and>
        tar_UncompressedOffsetToSpanID \<lparr>tz_version = 2, tz_spanSize = 4, tz_size = 8\<rparr> 8 = Some (m + 1))"
  using tar_end_beyond_last_span [of "\<lparr>tz_version = 2, tz_spanSize = 4, tz_size = 8\<rparr>" 8]
  by (simp add: tar_wf_def)

text \<open>
  A span size of 0, which a serialized \<^verbatim>\<open>TarZinfo\<close> may carry and the index builder
  accepts, makes every method that divides by it panic.
\<close>

theorem tar_zero_span_size_panics:
  "tz_spanSize z = 0 \<longleftrightarrow> tar_MaxSpanID z = None \<and> tar_UncompressedOffsetToSpanID z off = None"
  by (auto simp: tar_MaxSpanID_def tar_UncompressedOffsetToSpanID_def go_quot_def go_rem_def)

end
