(* ===== verification/Zinfo_Blob.thy ===== *)
theory Zinfo_Blob
  imports Zinfo
begin

text \<open>
  The serialized form of a gzip index, the C functions \<^verbatim>\<open>zinfo_to_blob\<close> and
  \<^verbatim>\<open>blob_to_zinfo\<close> and the Go methods \<^verbatim>\<open>Bytes\<close> and \<^verbatim>\<open>newGzipZinfo\<close> around them: a round
  trip for both versions of the format, and the blobs on which the reader goes wrong.
\<close>

section \<open>Checkpoints\<close>

definition checkpoint_ok :: "gzip_checkpoint \<Rightarrow> bool" where
  "checkpoint_ok c \<longleftrightarrow> in64 (cp_in c) \<and> in64 (cp_out c) \<and> 0 \<le> cp_bits c \<and> cp_bits c < 256 \<and>
     length (cp_window c) = WINSIZE"

lemma length_enc_checkpoint: "checkpoint_ok c \<Longrightarrow> length (enc_checkpoint c) = 32785"
  by (simp add: checkpoint_ok_def enc_checkpoint_def WINSIZE_def)

lemma dec_enc_checkpoint:
  assumes "checkpoint_ok c"
  shows "dec_checkpoint (enc_checkpoint c @ r) = c"
proof -
  have "dec_le (enc_le 1 (cp_bits c)) = cp_bits c"
    using assms by (simp add: uint_word_of_int checkpoint_ok_def)
  then show ?thesis
    using assms by (simp add: dec_checkpoint_def enc_checkpoint_def checkpoint_ok_def dec_le_64)
qed

lemma length_enc_checkpoints:
  "list_all checkpoint_ok cs \<Longrightarrow> length (concat (map enc_checkpoint cs)) = 32785 * length cs"
  by (induction cs) (auto simp: length_enc_checkpoint)

lemma dec_enc_checkpoints:
  "list_all checkpoint_ok cs \<Longrightarrow>
   dec_checkpoints (length cs) (concat (map enc_checkpoint cs)) = Some cs"
  by (induction cs)
     (auto simp: length_enc_checkpoint dec_enc_checkpoint PACKED_CHECKPOINT_SIZE_def)

lemma dec_checkpoints_short:
  "int (length cur) < PACKED_CHECKPOINT_SIZE * int n \<Longrightarrow> dec_checkpoints n cur = None"
  by (induction n cur rule: dec_checkpoints.induct) (auto simp: PACKED_CHECKPOINT_SIZE_def)

section \<open>Round trip\<close>

text \<open>
  An index as the builder or the reader makes it: all entries of the list in use, version 2,
  or version 1 with the checkpoint the format leaves out. 65,500 checkpoints are the most a
  blob of less than 2 GiB holds.
\<close>

definition gzip_blob_ok :: "gzip_zinfo \<Rightarrow> bool" where
  "gzip_blob_ok z \<longleftrightarrow> gz_have z = int (length (gz_list z)) \<and> gz_size z = gz_have z \<and>
     gz_have z \<le> 65500 \<and> in64 (gz_span_size z) \<and> list_all checkpoint_ok (gz_list z) \<and>
     (gz_version z = 2 \<or>
      gz_version z = 1 \<and> gz_list z \<noteq> [] \<and> hd (gz_list z) = v1_first_checkpoint)"

definition blob_body :: "gzip_zinfo \<Rightarrow> gzip_checkpoint list" where
  "blob_body z = (if gz_version z = 1 then tl (gz_list z) else gz_list z)"

definition blob_of :: "gzip_zinfo \<Rightarrow> bytes" where
  "blob_of z = enc_le 4 (gz_have z) @ enc_le 8 (gz_span_size z) @
     concat (map enc_checkpoint (blob_body z))"

lemma blob_body_ok: "gzip_blob_ok z \<Longrightarrow> list_all checkpoint_ok (blob_body z)"
  by (cases "gz_list z") (auto simp: gzip_blob_ok_def blob_body_def)

lemma length_blob_body:
  "gzip_blob_ok z \<Longrightarrow>
   int (length (blob_body z)) = (if gz_version z = 1 then gz_have z - 1 else gz_have z)"
  by (cases "gz_list z") (auto simp: gzip_blob_ok_def blob_body_def)

lemma length_blob_of:
  "gzip_blob_ok z \<Longrightarrow> length (blob_of z) = 12 + 32785 * length (blob_body z)"
  by (simp add: blob_of_def length_enc_checkpoints blob_body_ok)

lemma gz_size_eq: "gzip_blob_ok z \<Longrightarrow> gz_size z = gz_have z"
  by (simp add: gzip_blob_ok_def)

lemma blob_size_of:
  assumes "gzip_blob_ok z"
  shows "get_blob_size z = int (length (blob_of z))"
proof -
  have "0 \<le> int (length (blob_body z))" "int (length (blob_body z)) \<le> 65500"
    using length_blob_body [OF assms] assms by (auto simp: gzip_blob_ok_def split: if_splits)
  moreover have "get_blob_size z = (32785 * int (length (blob_body z)) + 12) mod 4294967296"
    using length_blob_body [OF assms] gz_size_eq [OF assms]
    by (cases "gz_version z = 1") (simp_all add: get_blob_size_def blob_consts)
  ultimately show ?thesis by (simp add: length_blob_of [OF assms])
qed

lemma gzip_Bytes_ok:
  assumes "gzip_blob_ok z"
  shows "gzip_Bytes z = Inr (blob_of z)"
proof -
  have len: "int (length (blob_of z)) \<le> 2147417512" "0 < length (blob_of z)"
    using length_blob_body [OF assms] assms
    by (auto simp: gzip_blob_ok_def length_blob_of split: if_splits)
  have out: "enc_le 4 (gz_have z) @ enc_le 8 (gz_span_size z) @
      concat (map enc_checkpoint
        (drop (if gz_version z = 1 then 1 else 0) (take (nat (gz_have z)) (gz_list z)))) = blob_of z"
    using assms by (simp add: gzip_blob_ok_def blob_of_def blob_body_def drop_Suc)
  have "zinfo_to_blob z (replicate (nat (get_blob_size z)) 0) =
      CVal (int (length (blob_of z)), blob_of z)"
    using assms len
    unfolding zinfo_to_blob_def Let_def out
    by (simp add: blob_size_of gzip_blob_ok_def wrap32_id)
  then show ?thesis using len by (simp add: gzip_Bytes_def blob_size_of assms)
qed

lemma blob_to_zinfo_of:
  assumes "gzip_blob_ok z"
  shows "blob_to_zinfo (blob_of z) = CVal z"
proof -
  let ?n = "length (blob_body z)"
  have sz: "wrap32 (dec_le (take 4 (blob_of z))) = gz_have z"
    using assms by (simp add: blob_of_def dec_le_32 in32_def gzip_blob_ok_def)
  have sp: "wrap64 (dec_le (take 8 (drop 4 (blob_of z)))) = gz_span_size z"
    using assms by (simp add: blob_of_def dec_le_64 gzip_blob_ok_def)
  have "dec_checkpoints ?n (drop (nat BLOB_HEADER_SIZE) (blob_of z)) = Some (blob_body z)"
    using dec_enc_checkpoints [OF blob_body_ok [OF assms]] by (simp add: blob_of_def BLOB_HEADER_SIZE_def)
  moreover have h: "0 \<le> gz_have z" "gz_have z \<le> 65500"
    using assms by (auto simp: gzip_blob_ok_def)
  moreover have c: "(PACKED_CHECKPOINT_SIZE * gz_have z + BLOB_HEADER_SIZE) mod 4294967296 =
      32785 * gz_have z + 12"
    using h by (simp add: blob_consts)
  moreover have "gz_version z = 2 \<or> gz_version z = 1 \<and> 1 \<le> gz_have z"
    using assms by (cases "gz_list z") (auto simp: gzip_blob_ok_def)
  moreover have "gz_version z = 1 \<Longrightarrow> v1_first_checkpoint # blob_body z = gz_list z"
    using assms by (cases "gz_list z") (auto simp: gzip_blob_ok_def blob_body_def)
  moreover have "gz_version z \<noteq> 1 \<Longrightarrow> blob_body z = gz_list z"
    by (simp add: blob_body_def)
  moreover have "nat (gz_have z) - (if gz_version z = 1 then 1 else 0) = ?n"
    using length_blob_body [OF assms] h by (auto simp: nat_eq_iff)
  ultimately show ?thesis
    using length_blob_body [OF assms] gz_size_eq [OF assms]
    unfolding blob_to_zinfo_def Let_def sz sp length_blob_of [OF assms] c
    by (auto simp: PACKED_CHECKPOINT_SIZE_def BLOB_HEADER_SIZE_def)
qed

section \<open>Properties\<close>

text \<open>
  C12: serializing a gzip index and reading it back gives the same index, for the current
  format and for version 1, whose first checkpoint is not stored.
\<close>

theorem gzip_zinfo_roundtrip:
  assumes "gzip_blob_ok z"
  shows "bind_res (gzip_Bytes z) newGzipZinfo = Inr z"
proof -
  have "blob_of z \<noteq> []" using length_blob_of [OF assms] by auto
  then show ?thesis
    using gzip_Bytes_ok [OF assms] blob_to_zinfo_of [OF assms] by (simp add: newGzipZinfo_def)
qed

definition two_checkpoints :: gzip_zinfo where
  "two_checkpoints = \<lparr>gz_version = 1, gz_have = 2, gz_size = 2,
     gz_list = [v1_first_checkpoint,
       \<lparr>cp_out = 5000, cp_in = 300, cp_bits = 3, cp_window = replicate WINSIZE 7\<rparr>],
     gz_span_size = 4096\<rparr>"

theorem gzip_zinfo_roundtrip_witness:
  "gzip_blob_ok two_checkpoints \<and> bind_res (gzip_Bytes two_checkpoints) newGzipZinfo = Inr two_checkpoints"
proof -
  have "gzip_blob_ok two_checkpoints"
    by (simp add: two_checkpoints_def gzip_blob_ok_def checkpoint_ok_def v1_first_checkpoint_def in64_def)
  then show ?thesis using gzip_zinfo_roundtrip by blast
qed

text \<open>
  C32: the check of the blob's size is made in 32-bit arithmetic, so a blob of 31,641 bytes that
  claims 131,005 checkpoints passes it, and the reader then reads past the end of the blob.
\<close>

theorem blob_to_zinfo_overread:
  assumes "length b = 31641" and "wrap32 (dec_le (take 4 b)) = 131005"
  shows "blob_to_zinfo b = CFault"
proof -
  have "dec_checkpoints 131005 (drop 12 b) = None"
    by (rule dec_checkpoints_short) (simp add: assms(1) PACKED_CHECKPOINT_SIZE_def)
  then show ?thesis unfolding blob_to_zinfo_def Let_def assms by (simp add: blob_consts)
qed

theorem blob_to_zinfo_overread_witness:
  "blob_to_zinfo (enc_le 4 131005 @ replicate 31637 0) = CFault"
  by (rule blob_to_zinfo_overread) (simp, simp add: dec_le_32 in32_def)

text \<open>
  A blob is only accepted if it has at least the 12 bytes of the header, and then the index
  has exactly as many checkpoints as it claims; but the claim may be 0, and with no checkpoint
  the index has maximum span ID -1 and looking up any offset leaves the list.
\<close>

theorem blob_to_zinfo_counts:
  assumes "blob_to_zinfo b = CVal z"
  shows "12 \<le> length b \<and> gz_have z = int (length (gz_list z)) \<and> gz_size z = gz_have z \<and>
    gzip_MaxSpanID z = Some (wrap32 (gz_have z - 1)) \<and>
    (gz_list z = [] \<longrightarrow> gzip_UncompressedOffsetToSpanID z off = None)"
proof -
  have len: "length l = n" if "dec_checkpoints n c = Some l" for n c l
    using that by (induction n c arbitrary: l rule: dec_checkpoints.induct) (auto split: if_splits)
  have "12 \<le> length b \<and> gz_have z = int (length (gz_list z)) \<and> gz_size z = gz_have z"
    using assms unfolding blob_to_zinfo_def Let_def
    by (auto simp: blob_consts dest!: len split: if_splits option.splits)
  moreover have "pt_index_from_ucmp_offset z off = None" if "gz_list z = []" "gz_have z = 0"
    using that by (simp add: pt_index_from_ucmp_offset_def)
  ultimately show ?thesis
    by (simp add: gzip_MaxSpanID_def get_max_span_id_def gzip_UncompressedOffsetToSpanID_def)
qed

theorem blob_to_zinfo_counts_witness:
  "blob_to_zinfo (replicate 12 0) =
     CVal \<lparr>gz_version = 2, gz_have = 0, gz_size = 0, gz_list = [], gz_span_size = 0\<rparr> \<and>
   gzip_UncompressedOffsetToSpanID
     \<lparr>gz_version = 2, gz_have = 0, gz_size = 0, gz_list = [], gz_span_size = 0\<rparr> 0 = None"
proof -
  have "blob_to_zinfo (replicate 12 0) =
      CVal \<lparr>gz_version = 2, gz_have = 0, gz_size = 0, gz_list = [], gz_span_size = 0\<rparr>"
    by (simp add: blob_to_zinfo_def blob_consts numeral_eq_Suc wrap32_def wrap64_def)
  then show ?thesis using blob_to_zinfo_counts [of "replicate 12 0" _ 0] by fastforce
qed

end
