(* ===== verification/Layer_Data.thy ===== *)
theory Layer_Data
  imports Zinfo
begin

text \<open>
  When a \<^verbatim>\<open>Zinfo\<close> describes a layer, given as its compressed and uncompressed bytes: the spans
  cover both streams, and extracting from the compressed bytes of a run of spans gives the
  uncompressed bytes. For uncompressed archives this is proved; for gzip the last part is
  what zlib guarantees for the checkpoints of a correct index.
\<close>

text \<open>The compressed ranges of the spans: none empty, inside the layer, ends in order.\<close>

definition comp_layout :: "zinfo \<Rightarrow> offset \<Rightarrow> bool" where
  "comp_layout z cs \<longleftrightarrow> (\<forall>m. MaxSpanID z = Some m \<longrightarrow>
     (\<forall>i. 0 \<le> i \<and> i \<le> m \<longrightarrow> (\<exists>s e. StartCompressedOffset z i = Some s \<and>
        EndCompressedOffset z i cs = Some e \<and> 0 \<le> s \<and> s < e \<and> e \<le> cs)) \<and>
     (\<forall>i e e'. 0 \<le> i \<and> i < m \<and> EndCompressedOffset z i cs = Some e \<and>
        EndCompressedOffset z (i + 1) cs = Some e' \<longrightarrow> e \<le> e'))"

definition extracts :: "inflate_fun \<Rightarrow> zinfo \<Rightarrow> bytes \<Rightarrow> bytes \<Rightarrow> bool" where
  "extracts inflate z cdata udata \<longleftrightarrow> (\<forall>m i j ci cj si ej off sz.
     MaxSpanID z = Some m \<and> 0 \<le> i \<and> i \<le> j \<and> j \<le> m \<and> StartCompressedOffset z i = Some ci \<and>
     EndCompressedOffset z j (int (length cdata)) = Some cj \<and> StartUncompressedOffset z i = Some si \<and>
     EndUncompressedOffset z j (int (length udata)) = Some ej \<and> si \<le> off \<and> 0 < sz \<and> off + sz \<le> ej \<longrightarrow>
     ExtractDataFromBuffer inflate z (sub cdata ci cj) sz off i = Inr (sub udata off (off + sz)))"

definition layer_ok :: "inflate_fun \<Rightarrow> zinfo \<Rightarrow> bytes \<Rightarrow> bytes \<Rightarrow> bool" where
  "layer_ok inflate z cdata udata \<longleftrightarrow> zinfo_wf z (int (length udata)) \<and>
     int (length cdata) \<le> max_int64 \<and> comp_layout z (int (length cdata)) \<and> extracts inflate z cdata udata"

lemma layer_okD:
  assumes "layer_ok inflate z cdata udata"
  shows "zinfo_wf z (int (length udata))" and "int (length cdata) \<le> max_int64"
    and "comp_layout z (int (length cdata))" and "extracts inflate z cdata udata"
  using assms by (simp_all add: layer_ok_def)

lemma comp_layoutD:
  assumes "comp_layout z cs" and "MaxSpanID z = Some m" and "0 \<le> i" and "i \<le> m"
  obtains s e where "StartCompressedOffset z i = Some s" and "EndCompressedOffset z i cs = Some e"
    and "0 \<le> s" and "s < e" and "e \<le> cs"
  using assms unfolding comp_layout_def by blast

lemma comp_layout_mono:
  assumes "comp_layout z cs" and "MaxSpanID z = Some m" and "0 \<le> i" and "i < m"
    and "EndCompressedOffset z i cs = Some e" and "EndCompressedOffset z (i + 1) cs = Some e'"
  shows "e \<le> e'"
  using assms unfolding comp_layout_def by blast

lemma extractsD:
  assumes "extracts inflate z cdata udata" and "MaxSpanID z = Some m" and "0 \<le> i" and "i \<le> j" and "j \<le> m"
    and "StartCompressedOffset z i = Some ci" and "EndCompressedOffset z j (int (length cdata)) = Some cj"
    and "StartUncompressedOffset z i = Some si" and "EndUncompressedOffset z j (int (length udata)) = Some ej"
    and "si \<le> off" and "0 < sz" and "off + sz \<le> ej"
  shows "ExtractDataFromBuffer inflate z (sub cdata ci cj) sz off i = Inr (sub udata off (off + sz))"
  using assms unfolding extracts_def by blast

section \<open>Uncompressed archives\<close>

lemma tar_comp_layout:
  assumes "tar_wf z us"
  shows "comp_layout (TarZ z) us"
  unfolding comp_layout_def
proof (intro allI impI conjI, goal_cases)
  case (1 m i)
  then have m: "tar_MaxSpanID z = Some m" and i: "0 \<le> i" "i \<le> m" by auto
  have pos: "0 < tz_spanSize z" using assms by (simp add: tar_wf_def)
  show ?case
  proof (cases "i = m")
    case True
    then show ?thesis using tar_StartOffset_wf [OF assms m i] tarz.end_last [OF assms m] by auto
  next
    case False
    then show ?thesis
      using tar_StartOffset_wf [OF assms m i] tar_EndOffset_wf [OF assms m i(1)] i
        tar_StartOffset_wf [OF assms m, of "i + 1"] pos
      by (auto simp: algebra_simps)
  qed
next
  case (2 m i e e')
  then have m: "tar_MaxSpanID z = Some m" and i: "0 \<le> i" "i < m" by auto
  have "startU = Some e \<Longrightarrow> e \<le> e'" if "startU = tar_StartOffset z (i + 1)" for startU
    using tarz.start_le_end [OF assms m, of "i + 1" e e'] 2 i that by simp
  then show ?case using tar_EndOffset_wf [OF assms m i] 2 by simp
qed

lemma tar_extracts:
  assumes "tar_wf z (int (length b))"
  shows "extracts inflate (TarZ z) b b"
  unfolding extracts_def
proof (intro allI impI, goal_cases)
  case (1 m i j ci cj si ej off sz)
  let ?us = "int (length b)"
  have m: "tar_MaxSpanID z = Some m" using 1 by simp
  have ij: "0 \<le> i" "i \<le> m" "0 \<le> j" "j \<le> m" using 1 by auto
  have c: "ci = tz_spanSize z * i" "si = ci" "0 \<le> ci"
    using tar_StartOffset_wf [OF assms m ij(1,2)] 1 by auto
  have e: "ej = cj" "cj \<le> ?us" using 1 tarz.end_Some [OF assms m ij(3,4)] by auto
  have r: "?us \<le> max_int64" using tarz.us_range [OF assms] by simp
  have o': "tar_spanIDToOffset z i = ci"
    using tar_StartOffset_wf [OF assms m ij(1,2)] c by (simp add: tar_StartOffset_def)
  have in_sub: "0 \<le> off - ci" "off - ci + sz \<le> cj - ci" "0 < sz" "ci \<le> cj" using 1 c e by auto
  have len: "int (length (sub b ci cj)) = cj - ci"
    using c e in_sub by (intro length_sub) auto
  then have "sub b ci cj \<noteq> []" using in_sub by auto
  moreover have "slice (sub b ci cj) (off - ci) (off - ci + sz) = Some (sub b off (off + sz))"
    using in_sub len c sub_sub [of ci "off - ci" "off - ci + sz" cj b]
    by (simp add: slice_eq)
  ultimately show ?case
    using in_sub r c e 1 by (simp add: tar_ExtractDataFromBuffer_def o' wrap64_id)
qed

lemma tar_layer_ok:
  assumes "tar_wf z (int (length b))"
  shows "layer_ok inflate (TarZ z) b b"
  using assms tar_comp_layout [OF assms] tar_extracts [OF assms] tarz.us_range [OF assms]
  by (simp add: layer_ok_def)

end
