(* ===== verification/Ztoc_Toc.thy ===== *)
theory Ztoc_Toc
  imports Layer_Data
begin

text \<open>
  The table of contents of a layer and the builder of both, \<^verbatim>\<open>ztoc.go\<close>, \<^verbatim>\<open>tar.go\<close>,
  \<^verbatim>\<open>toc_builder.go\<close>, \<^verbatim>\<open>zinfo_builder.go\<close> and \<^verbatim>\<open>ztoc_builder.go\<close> of \<^verbatim>\<open>ztoc/\<close>. The tar reader is
  given by what it yields: the headers with the position of the underlying stream after each.
  Times are numbers, a Go map is a list of pairs with distinct keys.
\<close>

section \<open>Data\<close>

type_synonym gotime = int
type_synonym headers = "(string \<times> string) list"

record fileMetadata =
  fm_Name :: string
  fm_Type :: string
  fm_UncompressedOffset :: offset
  fm_UncompressedSize :: offset
  fm_TarHeaderOffset :: offset
  fm_Linkname :: string
  fm_Mode :: int
  fm_UID :: int
  fm_GID :: int
  fm_Uname :: string
  fm_Gname :: string
  fm_ModTime :: gotime
  fm_Devmajor :: int
  fm_Devminor :: int
  fm_PAXHeaders :: headers

type_synonym tOC = "fileMetadata list"

record compressionInfo =
  ci_MaxSpanID :: span_id
  ci_SpanDigests :: "string list"
  ci_Checkpoints :: bytes
  ci_CompressionAlgorithm :: string

record ztoc =
  zt_TOC :: tOC
  zt_CompressionInfo :: compressionInfo
  zt_Version :: string
  zt_BuildToolIdentifier :: string
  zt_CompressedArchiveSize :: offset
  zt_UncompressedArchiveSize :: offset

definition Version09 :: string where "Version09 = ''0.9''"

record metadataEntry =
  me_UncompressedSize :: offset
  me_UncompressedOffset :: offset

datatype ztoc_error =
    FileNotInMetadata string
  | ZinfoError zinfo_error
  | UnexpectedDataSize int int
  | ReadError
  | UnsupportedTarEntry int
  | TarHeaderError
  | UnsupportedAlgorithm string
  | NeedFilename
  | OptionError
  | FileOpenError
  | FileStatError
  | TarProviderError
  | DigestError
  | ZtocPanic

section \<open>File metadata\<close>

text \<open>\<^verbatim>\<open>os.FileMode\<close> bits.\<close>

definition ModeDir :: "32 word" where "ModeDir = push_bit 31 1"
definition ModeSymlink :: "32 word" where "ModeSymlink = push_bit 27 1"
definition ModeDevice :: "32 word" where "ModeDevice = push_bit 26 1"
definition ModeNamedPipe :: "32 word" where "ModeNamedPipe = push_bit 25 1"
definition ModeSetuid :: "32 word" where "ModeSetuid = push_bit 23 1"
definition ModeSetgid :: "32 word" where "ModeSetgid = push_bit 22 1"
definition ModeCharDevice :: "32 word" where "ModeCharDevice = push_bit 21 1"
definition ModeSticky :: "32 word" where "ModeSticky = push_bit 20 1"

lemmas mode_defs = ModeDir_def ModeSymlink_def ModeDevice_def ModeNamedPipe_def ModeSetuid_def
  ModeSetgid_def ModeCharDevice_def ModeSticky_def

text \<open>
  The permission, setuid, setgid and sticky bits of a tar header's mode, as
  \<^verbatim>\<open>tar.Header.FileInfo().Mode()\<close> translates them.
\<close>

definition tar_mode_bits :: "int \<Rightarrow> 32 word" where
  "tar_mode_bits m =
     or (or (take_bit 9 (word_of_int m)) (if bit m 11 then ModeSetuid else 0))
        (or (if bit m 10 then ModeSetgid else 0) (if bit m 9 then ModeSticky else 0))"

definition FileMode :: "fileMetadata \<Rightarrow> 32 word" where
  "FileMode src =
     or (tar_mode_bits (fm_Mode src))
        (if fm_Type src = ''dir'' then ModeDir
         else if fm_Type src = ''symlink'' then ModeSymlink
         else if fm_Type src = ''char'' then or ModeDevice ModeCharDevice
         else if fm_Type src = ''block'' then ModeDevice
         else if fm_Type src = ''fifo'' then ModeNamedPipe else 0)"

text \<open>A lookup in a Go map gives the zero value for a missing key.\<close>

definition go_lookup :: "headers \<Rightarrow> string \<Rightarrow> string" where
  "go_lookup m k = (case map_of m k of None \<Rightarrow> '''' | Some v \<Rightarrow> v)"

definition fm_Equal :: "fileMetadata \<Rightarrow> fileMetadata \<Rightarrow> bool" where
  "fm_Equal src o' =
     (if fm_Name src \<noteq> fm_Name o' \<or> fm_Type src \<noteq> fm_Type o' \<or>
         fm_UncompressedOffset src \<noteq> fm_UncompressedOffset o' \<or>
         fm_UncompressedSize src \<noteq> fm_UncompressedSize o' \<or>
         fm_TarHeaderOffset src \<noteq> fm_TarHeaderOffset o' \<or> fm_Linkname src \<noteq> fm_Linkname o' \<or>
         fm_Mode src \<noteq> fm_Mode o' \<or> fm_UID src \<noteq> fm_UID o' \<or> fm_GID src \<noteq> fm_GID o' \<or>
         fm_Uname src \<noteq> fm_Uname o' \<or> fm_Gname src \<noteq> fm_Gname o' \<or>
         fm_ModTime src \<noteq> fm_ModTime o' \<or> fm_Devmajor src \<noteq> fm_Devmajor o' \<or>
         fm_Devminor src \<noteq> fm_Devminor o' then False
      else if length (fm_PAXHeaders src) \<noteq> length (fm_PAXHeaders o') then False
      else list_all (\<lambda>(k, v). go_lookup (fm_PAXHeaders o') k = v) (fm_PAXHeaders src))"

definition TarBlockSize :: int where "TarBlockSize = 512"

definition schilyXattrPrefix :: string where "schilyXattrPrefix = ''SCHILY.xattr.''"

definition AlignToTarBlock :: "offset \<Rightarrow> offset" where
  "AlignToTarBlock p =
     (case go_rem p TarBlockSize of
        Some r \<Rightarrow> if r > 0 then wrap64 (p + (TarBlockSize - r)) else p
      | None \<Rightarrow> p)"

text \<open>\<^const>\<open>None\<close> is the nil map.\<close>

definition Xattrs :: "headers \<Rightarrow> headers option" where
  "Xattrs paxHeaders =
     (if paxHeaders = [] then None
      else Some (map (\<lambda>(k, v). (drop (length schilyXattrPrefix) k, v))
        (filter (\<lambda>(k, v). take (length schilyXattrPrefix) k = schilyXattrPrefix) paxHeaders)))"

section \<open>Looking up and extracting a file\<close>

text \<open>A link is followed by name; a cycle of links is never left, here \<^const>\<open>None\<close>.\<close>

partial_function (option) GetMetadataEntry :: "tOC \<Rightarrow> string \<Rightarrow> (ztoc_error + metadataEntry) option" where
  "GetMetadataEntry toc filename =
     (case find (\<lambda>v. fm_Name v = filename) toc of
        None \<Rightarrow> Some (Inl (FileNotInMetadata filename))
      | Some v \<Rightarrow>
          (if fm_Linkname v \<noteq> '''' then GetMetadataEntry toc (fm_Linkname v)
           else Some (Inr \<lparr>me_UncompressedSize = fm_UncompressedSize v,
                           me_UncompressedOffset = fm_UncompressedOffset v\<rparr>)))"

definition Ztoc_Zinfo :: "(bytes \<Rightarrow> tarZinfo option) \<Rightarrow> ztoc \<Rightarrow> zinfo_error + zinfo" where
  "Ztoc_Zinfo t2z zt =
     NewZinfo t2z (ci_CompressionAlgorithm (zt_CompressionInfo zt)) (ci_Checkpoints (zt_CompressionInfo zt))"

text \<open>
  \<open>readAt off n\<close> is the section reader: the bytes read, at most \<open>n\<close>, and whether an error
  other than end of file occurred.
\<close>

type_synonym read_at = "offset \<Rightarrow> int \<Rightarrow> bytes \<times> bool"

text \<open>The ends of the spans \<open>i\<close>, \<open>i + 1\<close>, \<open>...\<close>, \<open>n\<close> of them.\<close>

fun span_ends :: "zinfo \<Rightarrow> offset \<Rightarrow> nat \<Rightarrow> span_id \<Rightarrow> offset list option" where
  "span_ends z cs 0 i = Some []"
| "span_ends z cs (Suc n) i =
     (case (EndCompressedOffset z i cs, span_ends z cs n (i + 1)) of
        (Some e, Some es) \<Rightarrow> Some (e # es) | _ \<Rightarrow> None)"

text \<open>
  Each goroutine reads the bytes between two neighbouring checkpoints into its own part of the
  buffer; the first error in this order is returned.
\<close>

fun read_spans :: "read_at \<Rightarrow> offset \<Rightarrow> offset list \<Rightarrow> ztoc_error + bytes" where
  "read_spans readAt s [] = Inr []"
| "read_spans readAt s (e # es) =
     (case readAt s (e - s) of (b, failed) \<Rightarrow>
        if failed then Inl ReadError
        else if int (length b) \<noteq> e - s then Inl (UnexpectedDataSize (int (length b)) (e - s))
        else bind_res (read_spans readAt e es) (\<lambda>rest. Inr (b @ rest)))"

definition extract_entry ::
    "inflate_fun \<Rightarrow> read_at \<Rightarrow> zinfo \<Rightarrow> offset \<Rightarrow> metadataEntry \<Rightarrow> ztoc_error + bytes" where
  "extract_entry inflate readAt z cs entry =
     (let off = me_UncompressedOffset entry; sz = me_UncompressedSize entry in
      case (UncompressedOffsetToSpanID z off, UncompressedOffsetToSpanID z (wrap64 (off + sz))) of
        (Some spanStart, Some spanEnd) \<Rightarrow>
          (let numSpans = wrap32 (spanEnd - spanStart + 1) in
           if numSpans < 0 \<or> wrap32 (numSpans + 1) \<le> 0 then Inl ZtocPanic
           else case (StartCompressedOffset z spanStart, span_ends z cs (nat numSpans) spanStart) of
             (Some c0, Some cps) \<Rightarrow>
               if \<not> sorted (c0 # cps) then Inl ZtocPanic
               else bind_res (read_spans readAt c0 cps) (\<lambda>buf.
                 map_sum ZinfoError id (ExtractDataFromBuffer inflate z buf sz off spanStart))
           | _ \<Rightarrow> Inl ZtocPanic)
      | _ \<Rightarrow> Inl ZtocPanic)"

text \<open>
  The lookup may not return. Where the checkpoints cannot be read the code returns no data and
  no error, the result \<open>Inr []\<close>.
\<close>

definition ExtractFile ::
    "inflate_fun \<Rightarrow> (bytes \<Rightarrow> tarZinfo option) \<Rightarrow> read_at \<Rightarrow> ztoc \<Rightarrow> string \<Rightarrow> (ztoc_error + bytes) option" where
  "ExtractFile inflate t2z readAt zt filename =
     (case GetMetadataEntry (zt_TOC zt) filename of
        None \<Rightarrow> None
      | Some (Inl e) \<Rightarrow> Some (Inl e)
      | Some (Inr entry) \<Rightarrow>
          Some (if me_UncompressedSize entry = 0 then Inr []
                else case Ztoc_Zinfo t2z zt of
                  Inl _ \<Rightarrow> Inr []
                | Inr z \<Rightarrow> extract_entry inflate readAt z (zt_CompressedArchiveSize zt) entry))"

section \<open>The builder of the table of contents\<close>

record tarHeader =
  h_Name :: string
  h_Typeflag :: int
  h_Size :: int
  h_Linkname :: string
  h_Mode :: int
  h_Uid :: int
  h_Gid :: int
  h_Uname :: string
  h_Gname :: string
  h_ModTime :: gotime
  h_Devmajor :: int
  h_Devminor :: int
  h_PAXRecords :: headers

text \<open>The type flags are the characters \<^verbatim>\<open>0\<close> to \<^verbatim>\<open>6\<close>.\<close>

definition getType :: "tarHeader \<Rightarrow> ztoc_error + string" where
  "getType h =
     (let t = h_Typeflag h in
      if t = 49 then Inr ''hardlink'' else if t = 50 then Inr ''symlink''
      else if t = 53 then Inr ''dir'' else if t = 48 then Inr ''reg''
      else if t = 51 then Inr ''char'' else if t = 52 then Inr ''block''
      else if t = 54 then Inr ''fifo'' else Inl (UnsupportedTarEntry t))"

text \<open>
  What the tar reader yields: headers, each with the position of the stream after it, then
  the end of the archive with the final position or an error.
\<close>

datatype tar_stream =
    TarEnd offset
  | TarError
  | TarNext tarHeader offset tar_stream

fun metadata_loop :: "offset \<Rightarrow> tar_stream \<Rightarrow> fileMetadata list \<Rightarrow> ztoc_error + fileMetadata list \<times> offset" where
  "metadata_loop tarHeaderOffset (TarEnd pos) md = Inr (md, pos)"
| "metadata_loop tarHeaderOffset TarError md = Inl TarHeaderError"
| "metadata_loop tarHeaderOffset (TarNext hdr pos rest) md =
     bind_res (getType hdr) (\<lambda>fileType.
       let e = \<lparr>fm_Name = h_Name hdr, fm_Type = fileType, fm_UncompressedOffset = pos,
                fm_UncompressedSize = h_Size hdr, fm_TarHeaderOffset = tarHeaderOffset,
                fm_Linkname = h_Linkname hdr, fm_Mode = h_Mode hdr, fm_UID = h_Uid hdr,
                fm_GID = h_Gid hdr, fm_Uname = h_Uname hdr, fm_Gname = h_Gname hdr,
                fm_ModTime = h_ModTime hdr, fm_Devmajor = h_Devmajor hdr,
                fm_Devminor = h_Devminor hdr, fm_PAXHeaders = h_PAXRecords hdr\<rparr>
       in metadata_loop (AlignToTarBlock (wrap64 (fm_UncompressedOffset e + fm_UncompressedSize e)))
            rest (md @ [e]))"

definition metadataFromTarReader :: "tar_stream \<Rightarrow> ztoc_error + fileMetadata list \<times> offset" where
  "metadataFromTarReader r = metadata_loop 0 r []"

section \<open>The builders\<close>

text \<open>
  What a build reads and the code it calls: the files, the C function that scans a gzip file,
  the generated flatbuffer writer of a \<^verbatim>\<open>TarZinfo\<close>, the digest function, and the readers of the
  tar stream of a file, one for each \<^verbatim>\<open>TarProvider\<close>.
\<close>

record build_env =
  be_file :: "string \<Rightarrow> bytes option"
  be_gen :: "string \<Rightarrow> int \<Rightarrow> int \<times> gzip_zinfo"
  be_z2t :: "tarZinfo \<Rightarrow> bytes option"
  be_digest :: "bytes \<Rightarrow> string"
  be_gunzip :: "bytes \<Rightarrow> tar_stream option"
  be_tar :: "bytes \<Rightarrow> tar_stream"

definition getFileSize :: "build_env \<Rightarrow> string \<Rightarrow> ztoc_error + offset" where
  "getFileSize env file =
     (case be_file env file of None \<Rightarrow> Inl FileStatError | Some b \<Rightarrow> Inr (int (length b)))"

text \<open>What a section reader over a file yields until its end.\<close>

definition section_bytes :: "bytes \<Rightarrow> offset \<Rightarrow> offset \<Rightarrow> ztoc_error + bytes" where
  "section_bytes content s e = (if s < 0 then Inl DigestError else Inr (sub content s e))"

fun span_digests ::
    "(bytes \<Rightarrow> string) \<Rightarrow> bytes \<Rightarrow> offset \<Rightarrow> zinfo \<Rightarrow> nat \<Rightarrow> span_id \<Rightarrow> ztoc_error + string list" where
  "span_digests dig content fileSize index 0 i = Inr []"
| "span_digests dig content fileSize index (Suc n) i =
     (case (StartCompressedOffset index i, EndCompressedOffset index i fileSize) of
        (Some s, Some e) \<Rightarrow>
          bind_res (section_bytes content s e) (\<lambda>b.
            bind_res (span_digests dig content fileSize index n (i + 1)) (\<lambda>ds. Inr (dig b # ds)))
      | _ \<Rightarrow> Inl ZtocPanic)"

definition getPerSpanDigests :: "build_env \<Rightarrow> string \<Rightarrow> offset \<Rightarrow> zinfo \<Rightarrow> ztoc_error + string list" where
  "getPerSpanDigests env filename fileSize index =
     (case be_file env filename of None \<Rightarrow> Inl FileOpenError
      | Some content \<Rightarrow>
          (case MaxSpanID index of None \<Rightarrow> Inl ZtocPanic
           | Some m \<Rightarrow> span_digests (be_digest env) content fileSize index (nat (m + 1)) 0))"

datatype zinfoBuilder = GzipZinfoBuilder | TarZinfoBuilder

definition builder_algorithm :: "zinfoBuilder \<Rightarrow> string" where
  "builder_algorithm zb = (case zb of GzipZinfoBuilder \<Rightarrow> Gzip | TarZinfoBuilder \<Rightarrow> Uncompressed)"

text \<open>The two implementations of \<^verbatim>\<open>ZinfoFromFile\<close> differ in the algorithm only.\<close>

definition ZinfoFromFile ::
    "build_env \<Rightarrow> zinfoBuilder \<Rightarrow> string \<Rightarrow> int \<Rightarrow> ztoc_error + compressionInfo \<times> offset" where
  "ZinfoFromFile env zb filename spanSize =
     bind_res (map_sum ZinfoError id (NewZinfoFromFile (be_gen env)
         (\<lambda>f. map_option (\<lambda>b. int (length b)) (be_file env f)) (builder_algorithm zb) filename spanSize)) (\<lambda>index.
     bind_res (getFileSize env filename) (\<lambda>fs.
     bind_res (getPerSpanDigests env filename fs index) (\<lambda>digests.
     bind_res (map_sum ZinfoError id (zinfo_Bytes (be_z2t env) index)) (\<lambda>checkpoints.
       case MaxSpanID index of None \<Rightarrow> Inl ZtocPanic
       | Some m \<Rightarrow> Inr (\<lparr>ci_MaxSpanID = m, ci_SpanDigests = digests, ci_Checkpoints = checkpoints,
                         ci_CompressionAlgorithm = builder_algorithm zb\<rparr>, fs)))))"

datatype tarProvider = TarProviderGzip | TarProviderTar

fun open_tar :: "build_env \<Rightarrow> tarProvider \<Rightarrow> bytes \<Rightarrow> ztoc_error + tar_stream" where
  "open_tar env TarProviderGzip b =
     (case be_gunzip env b of None \<Rightarrow> Inl TarProviderError | Some r \<Rightarrow> Inr r)"
| "open_tar env TarProviderTar b = Inr (be_tar env b)"

record builder =
  b_tarProviders :: "string \<rightharpoonup> tarProvider"
  b_zinfoBuilders :: "string \<rightharpoonup> zinfoBuilder"
  b_buildToolIdentifier :: string

definition RegisterTarProvider :: "string \<Rightarrow> tarProvider \<Rightarrow> builder \<Rightarrow> builder" where
  "RegisterTarProvider algorithm provider b = b\<lparr>b_tarProviders := (b_tarProviders b)(algorithm \<mapsto> provider)\<rparr>"

definition RegisterCompressionAlgorithm :: "string \<Rightarrow> tarProvider \<Rightarrow> zinfoBuilder \<Rightarrow> builder \<Rightarrow> builder" where
  "RegisterCompressionAlgorithm name tp zb b =
     RegisterTarProvider name tp (b\<lparr>b_zinfoBuilders := (b_zinfoBuilders b)(name \<mapsto> zb)\<rparr>)"

definition NewBuilder :: "string \<Rightarrow> builder" where
  "NewBuilder ident =
     RegisterCompressionAlgorithm Unknown TarProviderTar TarZinfoBuilder
       (RegisterCompressionAlgorithm Uncompressed TarProviderTar TarZinfoBuilder
         (RegisterCompressionAlgorithm Gzip TarProviderGzip GzipZinfoBuilder
           \<lparr>b_tarProviders = Map.empty, b_zinfoBuilders = Map.empty, b_buildToolIdentifier = ident\<rparr>))"

definition toc_CheckCompressionAlgorithm :: "builder \<Rightarrow> string \<Rightarrow> bool" where
  "toc_CheckCompressionAlgorithm b algorithm \<longleftrightarrow> b_tarProviders b algorithm \<noteq> None"

definition CheckCompressionAlgorithm :: "builder \<Rightarrow> string \<Rightarrow> bool" where
  "CheckCompressionAlgorithm b algorithm \<longleftrightarrow>
     b_zinfoBuilders b algorithm \<noteq> None \<and> toc_CheckCompressionAlgorithm b algorithm"

definition getFileMetadata ::
    "build_env \<Rightarrow> builder \<Rightarrow> string \<Rightarrow> string \<Rightarrow> ztoc_error + fileMetadata list \<times> offset" where
  "getFileMetadata env b algorithm filename =
     (case be_file env filename of None \<Rightarrow> Inl FileOpenError
      | Some content \<Rightarrow>
          (case b_tarProviders b algorithm of None \<Rightarrow> Inl ZtocPanic
           | Some tp \<Rightarrow> bind_res (open_tar env tp content) metadataFromTarReader))"

definition TocFromFile ::
    "build_env \<Rightarrow> builder \<Rightarrow> string \<Rightarrow> string \<Rightarrow> ztoc_error + tOC \<times> offset" where
  "TocFromFile env b algorithm filename =
     (if \<not> toc_CheckCompressionAlgorithm b algorithm then Inl (UnsupportedAlgorithm algorithm)
      else getFileMetadata env b algorithm filename)"

text \<open>The options of a call set the algorithm, \<^verbatim>\<open>WithCompression\<close>; the last one counts.\<close>

definition apply_options :: "string list \<Rightarrow> string" where
  "apply_options options = fold (\<lambda>a _. a) options Gzip"

definition BuildZtoc :: "build_env \<Rightarrow> builder \<Rightarrow> string \<Rightarrow> int \<Rightarrow> string list \<Rightarrow> ztoc_error + ztoc" where
  "BuildZtoc env b filename span options =
     (let algorithm = apply_options options in
      if filename = '''' then Inl NeedFilename
      else if \<not> CheckCompressionAlgorithm b algorithm then Inl (UnsupportedAlgorithm algorithm)
      else case b_zinfoBuilders b algorithm of None \<Rightarrow> Inl ZtocPanic
      | Some zb \<Rightarrow>
        bind_res (ZinfoFromFile env zb filename span) (\<lambda>(ci, fs).
        bind_res (TocFromFile env b algorithm filename) (\<lambda>(toc, us).
          Inr \<lparr>zt_TOC = toc, zt_CompressionInfo = ci, zt_Version = Version09,
               zt_BuildToolIdentifier = b_buildToolIdentifier b, zt_CompressedArchiveSize = fs,
               zt_UncompressedArchiveSize = us\<rparr>)))"

section \<open>Following links\<close>

text \<open>\<open>resolves toc f v\<close>: the links from the name \<open>f\<close> end at the entry \<open>v\<close>, which is no link.\<close>

inductive resolves :: "tOC \<Rightarrow> string \<Rightarrow> fileMetadata \<Rightarrow> bool" for toc where
  here: "find (\<lambda>v. fm_Name v = f) toc = Some v \<Longrightarrow> fm_Linkname v = '''' \<Longrightarrow> resolves toc f v"
| link: "find (\<lambda>v. fm_Name v = f) toc = Some w \<Longrightarrow> fm_Linkname w \<noteq> '''' \<Longrightarrow>
    resolves toc (fm_Linkname w) v \<Longrightarrow> resolves toc f v"

definition entry_of :: "fileMetadata \<Rightarrow> metadataEntry" where
  "entry_of v = \<lparr>me_UncompressedSize = fm_UncompressedSize v, me_UncompressedOffset = fm_UncompressedOffset v\<rparr>"

lemma GetMetadataEntry_resolves: "resolves toc f v \<Longrightarrow> GetMetadataEntry toc f = Some (Inr (entry_of v))"
  by (induction rule: resolves.induct) (simp_all add: GetMetadataEntry.simps entry_of_def)

lemma resolves_GetMetadataEntry:
  assumes "GetMetadataEntry toc f = Some (Inr e)"
  shows "\<exists>v. resolves toc f v \<and> e = entry_of v"
proof -
  have "\<forall>e. r = Inr e \<longrightarrow> (\<exists>v. resolves toc f v \<and> e = entry_of v)"
    if "GetMetadataEntry toc f = Some r" for r
  proof (rule GetMetadataEntry.raw_induct [OF _ that])
    fix G toc f r
    assume IH: "\<And>toc f r. G toc f = Some r \<Longrightarrow> \<forall>e. r = Inr e \<longrightarrow> (\<exists>v. resolves toc f v \<and> e = entry_of v)"
      and r: "(case find (\<lambda>v. fm_Name v = f) toc of None \<Rightarrow> Some (Inl (FileNotInMetadata f))
        | Some v \<Rightarrow> if fm_Linkname v \<noteq> [] then G toc (fm_Linkname v)
            else Some (Inr \<lparr>me_UncompressedSize = fm_UncompressedSize v,
                            me_UncompressedOffset = fm_UncompressedOffset v\<rparr>)) = Some r"
    show "\<forall>e. r = Inr e \<longrightarrow> (\<exists>v. resolves toc f v \<and> e = entry_of v)"
    proof (cases "find (\<lambda>v. fm_Name v = f) toc")
      case None
      then show ?thesis using r by auto
    next
      case (Some w)
      show ?thesis
      proof (cases "fm_Linkname w = ''''")
        case True
        then show ?thesis using r Some by (auto simp: entry_of_def intro: resolves.here)
      next
        case False
        then have "G toc (fm_Linkname w) = Some r" using r Some by simp
        then show ?thesis using IH resolves.link [OF Some False] by blast
      qed
    qed
  qed
  then show ?thesis using assms by blast
qed

lemma resolves_entry: "resolves toc f v \<Longrightarrow> v \<in> set toc \<and> fm_Linkname v = ''''"
  by (induction rule: resolves.induct) (auto simp: find_Some_iff)

section \<open>Extraction\<close>

text \<open>A reader of the compressed layer.\<close>

definition reads :: "bytes \<Rightarrow> read_at \<Rightarrow> bool" where
  "reads cdata readAt \<longleftrightarrow> (\<forall>s n. 0 \<le> s \<and> 0 \<le> n \<and> s + n \<le> int (length cdata) \<longrightarrow>
     readAt s n = (sub cdata s (s + n), False))"

lemma read_run:
  assumes "comp_layout z (int (length cdata))" and "MaxSpanID z = Some m" and "reads cdata readAt"
    and "0 \<le> i" and "i + int n \<le> m + 1" and "0 \<le> s" and "s \<le> int (length cdata)"
    and "\<forall>e. 0 < n \<and> EndCompressedOffset z i (int (length cdata)) = Some e \<longrightarrow> s \<le> e"
  shows "\<exists>es. span_ends z (int (length cdata)) n i = Some es \<and> sorted (s # es) \<and>
    read_spans readAt s es = Inr (sub cdata s (last (s # es))) \<and>
    (0 < n \<longrightarrow> EndCompressedOffset z (i + int n - 1) (int (length cdata)) = Some (last (s # es)))"
  using assms(4-8)
proof (induction n arbitrary: i s)
  case 0
  then show ?case by simp
next
  case (Suc n)
  let ?cs = "int (length cdata)"
  have i: "0 \<le> i" "i \<le> m" using Suc.prems by auto
  obtain s' e where e: "EndCompressedOffset z i ?cs = Some e" "0 \<le> e" "e \<le> ?cs"
    using comp_layoutD [OF assms(1,2) i] by (metis less_imp_le order_trans)
  have se: "s \<le> e" using Suc.prems e by simp
  have "\<exists>es. span_ends z ?cs n (i + 1) = Some es \<and> sorted (e # es) \<and>
      read_spans readAt e es = Inr (sub cdata e (last (e # es))) \<and>
      (0 < n \<longrightarrow> EndCompressedOffset z (i + 1 + int n - 1) ?cs = Some (last (e # es)))"
  proof (rule Suc.IH)
    show "\<forall>e'. 0 < n \<and> EndCompressedOffset z (i + 1) ?cs = Some e' \<longrightarrow> e \<le> e'"
      using comp_layout_mono [OF assms(1,2) i(1) _ e(1)] Suc.prems by auto
  qed (use Suc.prems e in auto)
  then obtain es where es: "span_ends z ?cs n (i + 1) = Some es" "sorted (e # es)"
      "read_spans readAt e es = Inr (sub cdata e (last (e # es)))"
      "0 < n \<longrightarrow> EndCompressedOffset z (i + 1 + int n - 1) ?cs = Some (last (e # es))" by blast
  have le: "e \<le> last (e # es)" using es(2) by (cases es rule: rev_cases) auto
  have rd: "readAt s (e - s) = (sub cdata s e, False)" "int (length (sub cdata s e)) = e - s"
    using assms(3) se e Suc.prems by (simp_all add: reads_def length_sub)
  have "n = 0 \<Longrightarrow> es = []" using es(1) by simp
  then show ?case
    using e es se le rd sub_append [of s e "last (e # es)" cdata] Suc.prems
    by (cases "n = 0") auto
qed

lemma extract_entry_ok:
  assumes "layer_ok inflate z cdata udata" and "reads cdata readAt"
    and "0 \<le> off" and "0 < sz" and "off + sz < int (length udata)"
  shows "extract_entry inflate readAt z (int (length cdata))
     \<lparr>me_UncompressedSize = sz, me_UncompressedOffset = off\<rparr> = Inr (sub udata off (off + sz))"
proof -
  let ?us = "int (length udata)" and ?cs = "int (length cdata)"
  note L = layer_okD [OF assms(1)]
  obtain m where m: "MaxSpanID z = Some m" "0 \<le> m" "m + 1 < max_int32" using zinfo.max_Some [OF L(1)] by blast
  have us: "?us \<le> max_int64" using zinfo.us_range [OF L(1)] by simp
  obtain i where i: "UncompressedOffsetToSpanID z off = Some i" "0 \<le> i" "i \<le> m"
    using zinfo.id_Some [OF L(1) m(1) assms(3)] assms(4,5) by auto
  obtain j where j: "UncompressedOffsetToSpanID z (off + sz) = Some j" "0 \<le> j" "j \<le> m"
    using zinfo.id_Some [OF L(1) m(1), of "off + sz"] assms(3-5) by auto
  have ij: "i \<le> j" using zinfo.id_mono [OF L(1) m(1) assms(3) _ _ i(1) j(1) i(3)] assms(4,5) by simp
  obtain c0 e0 where c0: "StartCompressedOffset z i = Some c0" "0 \<le> c0" "c0 < e0" "e0 \<le> ?cs"
      "EndCompressedOffset z i ?cs = Some e0"
    using comp_layoutD [OF L(3) m(1) i(2,3)] by metis
  obtain es where es: "span_ends z ?cs (nat (j - i + 1)) i = Some es" "sorted (c0 # es)"
      "read_spans readAt c0 es = Inr (sub cdata c0 (last (c0 # es)))"
      "EndCompressedOffset z j ?cs = Some (last (c0 # es))"
    using read_run [OF L(3) m(1) assms(2) i(2), of "nat (j - i + 1)" c0] i j ij c0 by auto
  obtain si where si: "StartUncompressedOffset z i = Some si" "si \<le> off"
    using zinfo.start_Some [OF L(1) m(1) i(2,3)] zinfo.id_start [OF L(1) m(1) assms(3) _ i(1,3)] assms(4,5)
    by force
  obtain ej where ej: "EndUncompressedOffset z j ?us = Some ej" using zinfo.end_Some [OF L(1) m(1) j(2,3)] by blast
  have "off + sz \<le> ej" using zinfo.id_end_le [OF L(1) m(1) _ _ j(1,3) ej] assms(3-5) by simp
  then have ex: "ExtractDataFromBuffer inflate z (sub cdata c0 (last (c0 # es))) sz off i =
      Inr (sub udata off (off + sz))"
    using extractsD [OF L(4) m(1) i(2) ij j(3) c0(1) es(4) si(1) ej si(2) assms(4)] by simp
  show ?thesis
    using i j ij m us assms(3-5) c0(1) es(1-3) ex
    by (simp add: extract_entry_def wrap64_id wrap32_id Let_def)
qed

section \<open>Properties\<close>

text \<open>
  C30: when no chain of links, hard or symbolic, is a cycle (a rank of the names goes down along each), the lookup
  returns. It gives the offset and the size of the entry at which the chain from the name ends, which is no link itself,
  or the error that names a file the table of contents does not have.
\<close>

theorem GetMetadataEntry_returns:
  fixes rank :: "string \<Rightarrow> nat"
  assumes "\<forall>v \<in> set toc. fm_Linkname v \<noteq> '''' \<longrightarrow> rank (fm_Linkname v) < rank (fm_Name v)"
  shows "(\<exists>v \<in> set toc. resolves toc f v \<and> fm_Linkname v = '''' \<and> GetMetadataEntry toc f = Some (Inr (entry_of v))) \<or>
    (\<exists>g. (\<forall>v. \<not> resolves toc f v) \<and> g \<notin> fm_Name ` set toc \<and> GetMetadataEntry toc f = Some (Inl (FileNotInMetadata g)))"
proof -
  have "\<exists>r. GetMetadataEntry toc f = Some r \<and> (\<forall>e. r = Inl e \<longrightarrow> (\<exists>g. g \<notin> fm_Name ` set toc \<and> e = FileNotInMetadata g))"
  proof (induction "rank f" arbitrary: f rule: less_induct)
    case less
    show ?case
    proof (cases "find (\<lambda>v. fm_Name v = f) toc")
      case None
      then have "GetMetadataEntry toc f = Some (Inl (FileNotInMetadata f))" by (simp add: GetMetadataEntry.simps)
      then show ?thesis using None by (auto simp: find_None_iff)
    next
      case (Some v)
      then have "v \<in> set toc" "fm_Name v = f" by (auto simp: find_Some_iff)
      then show ?thesis
        using Some less [of "fm_Linkname v"] assms GetMetadataEntry.simps [of toc f]
        by (cases "fm_Linkname v = ''''") auto
    qed
  qed
  then obtain r where r: "GetMetadataEntry toc f = Some r" "\<And>e. r = Inl e \<Longrightarrow> \<exists>g. g \<notin> fm_Name ` set toc \<and> e = FileNotInMetadata g" by blast
  show ?thesis
  proof (cases r)
    case (Inl e)
    then show ?thesis using r GetMetadataEntry_resolves by fastforce
  next
    case (Inr e)
    then obtain v where "resolves toc f v" "e = entry_of v" using r(1) resolves_GetMetadataEntry by blast
    then show ?thesis using r(1) Inr resolves_entry by blast
  qed
qed

definition file_named :: "string \<Rightarrow> string \<Rightarrow> offset \<Rightarrow> offset \<Rightarrow> fileMetadata" where
  "file_named name lnk off sz =
     \<lparr>fm_Name = name, fm_Type = (if lnk = '''' then ''reg'' else ''hardlink''), fm_UncompressedOffset = off,
      fm_UncompressedSize = sz, fm_TarHeaderOffset = off - 512, fm_Linkname = lnk, fm_Mode = 420,
      fm_UID = 0, fm_GID = 0, fm_Uname = '''', fm_Gname = '''', fm_ModTime = 0, fm_Devmajor = 0,
      fm_Devminor = 0, fm_PAXHeaders = []\<rparr>"

theorem GetMetadataEntry_returns_witness:
  "GetMetadataEntry [file_named ''a'' '''' 512 3, file_named ''bb'' ''a'' 1536 0] ''bb'' =
     Some (Inr \<lparr>me_UncompressedSize = 3, me_UncompressedOffset = 512\<rparr>) \<and>
   (\<exists>v. resolves [file_named ''a'' '''' 512 3, file_named ''bb'' ''a'' 1536 0] ''bb'' v)"
proof -
  let ?toc = "[file_named ''a'' '''' 512 3, file_named ''bb'' ''a'' 1536 0]"
  have g: "GetMetadataEntry ?toc ''bb'' = Some (Inr \<lparr>me_UncompressedSize = 3, me_UncompressedOffset = 512\<rparr>)"
    by (simp add: GetMetadataEntry.simps file_named_def)
  show ?thesis using GetMetadataEntry_returns [of ?toc length "''bb''"] g by (auto simp: file_named_def)
qed

text \<open>
  On a cycle of links, which the code does not exclude, the lookup never returns.
\<close>

theorem GetMetadataEntry_cycle:
  assumes "\<forall>g \<in> S. \<exists>v. find (\<lambda>v. fm_Name v = g) toc = Some v \<and> fm_Linkname v \<noteq> '''' \<and> fm_Linkname v \<in> S"
    and "f \<in> S"
  shows "GetMetadataEntry toc f = None"
proof -
  have "t = toc \<longrightarrow> g \<notin> S" if "GetMetadataEntry t g = Some r" for t g r
  proof (rule GetMetadataEntry.raw_induct [OF _ that, where P = "\<lambda>t g r. t = toc \<longrightarrow> g \<notin> S"])
    fix G t g r
    assume IH: "\<And>t g r. G t g = Some r \<Longrightarrow> t = toc \<longrightarrow> g \<notin> S"
      and r: "(case find (\<lambda>v. fm_Name v = g) t of None \<Rightarrow> Some (Inl (FileNotInMetadata g))
        | Some v \<Rightarrow> if fm_Linkname v \<noteq> [] then G t (fm_Linkname v)
            else Some (Inr \<lparr>me_UncompressedSize = fm_UncompressedSize v,
                            me_UncompressedOffset = fm_UncompressedOffset v\<rparr>)) = Some r"
    show "t = toc \<longrightarrow> g \<notin> S"
    proof (intro impI notI)
      assume "t = toc" "g \<in> S"
      then obtain v where "find (\<lambda>v. fm_Name v = g) t = Some v" "fm_Linkname v \<noteq> ''''" "fm_Linkname v \<in> S"
        using assms(1) by blast
      then show False using r IH [of t "fm_Linkname v" r] \<open>t = toc\<close> by simp
    qed
  qed
  then show ?thesis using assms(2) by (cases "GetMetadataEntry toc f") auto
qed

theorem GetMetadataEntry_cycle_witness:
  "GetMetadataEntry [file_named ''a'' ''b'' 512 0, file_named ''b'' ''a'' 1024 0] ''a'' = None"
  by (rule GetMetadataEntry_cycle [where S = "{''a'', ''b''}"]) (simp_all add: file_named_def)

text \<open>
  C18: extracting a file through the index reads the spans that cover it and returns exactly
  the file's bytes of the uncompressed layer.
\<close>

theorem ExtractFile_correct:
  assumes "Ztoc_Zinfo t2z zt = Inr z" and "layer_ok inflate z cdata udata" and "reads cdata readAt"
    and "zt_CompressedArchiveSize zt = int (length cdata)"
    and "resolves (zt_TOC zt) f v" and "0 \<le> fm_UncompressedOffset v" and "0 \<le> fm_UncompressedSize v"
    and "fm_UncompressedOffset v + fm_UncompressedSize v < int (length udata)"
  shows "ExtractFile inflate t2z readAt zt f =
    Some (Inr (sub udata (fm_UncompressedOffset v) (fm_UncompressedOffset v + fm_UncompressedSize v)))"
proof -
  have g: "GetMetadataEntry (zt_TOC zt) f = Some (Inr (entry_of v))"
    using GetMetadataEntry_resolves [OF assms(5)] .
  show ?thesis
  proof (cases "fm_UncompressedSize v = 0")
    case True
    then show ?thesis using g by (simp add: ExtractFile_def entry_of_def)
  next
    case False
    then show ?thesis
      using g assms(1,4) extract_entry_ok [OF assms(2,3,6) _ assms(8)] assms(7)
      by (simp add: ExtractFile_def entry_of_def)
  qed
qed

definition tar_ztoc :: "tOC \<Rightarrow> bytes \<Rightarrow> ztoc" where
  "tar_ztoc toc b = \<lparr>zt_TOC = toc, zt_CompressionInfo = \<lparr>ci_MaxSpanID = 2, ci_SpanDigests = [],
     ci_Checkpoints = [], ci_CompressionAlgorithm = Uncompressed\<rparr>, zt_Version = Version09,
     zt_BuildToolIdentifier = '''', zt_CompressedArchiveSize = int (length b),
     zt_UncompressedArchiveSize = int (length b)\<rparr>"

theorem ExtractFile_correct_witness:
  "ExtractFile (\<lambda>_ _ _ _ _. (0, [])) (\<lambda>_. Some \<lparr>tz_version = 2, tz_spanSize = 4, tz_size = 10\<rparr>)
     (\<lambda>s n. (sub [0, 1, 2, 3, 4, 5, 6, 7, 8, 9] s (s + n), False))
     (tar_ztoc [file_named ''a'' '''' 3 5] [0, 1, 2, 3, 4, 5, 6, 7, 8, 9]) ''a'' =
   Some (Inr [3, 4, 5, 6, 7])"
proof -
  let ?b = "[0, 1, 2, 3, 4, 5, 6, 7, 8, 9] :: bytes"
  have wf: "tar_wf \<lparr>tz_version = 2, tz_spanSize = 4, tz_size = 10\<rparr> (int (length ?b))"
    by (simp add: tar_wf_def)
  have z: "Ztoc_Zinfo (\<lambda>_. Some \<lparr>tz_version = 2, tz_spanSize = 4, tz_size = 10\<rparr>) (tar_ztoc toc ?b) =
      Inr (TarZ \<lparr>tz_version = 2, tz_spanSize = 4, tz_size = 10\<rparr>)" for toc
    by (simp add: Ztoc_Zinfo_def NewZinfo_def newTarZinfo_def tar_ztoc_def algo_defs)
  have r: "resolves (zt_TOC (tar_ztoc [file_named ''a'' '''' 3 5] ?b)) ''a'' (file_named ''a'' '''' 3 5)"
    by (rule resolves.here) (simp_all add: file_named_def tar_ztoc_def)
  have v: "fm_UncompressedOffset (file_named ''a'' '''' 3 5) = 3" "fm_UncompressedSize (file_named ''a'' '''' 3 5) = 5"
    by (simp_all add: file_named_def)
  have rd: "reads ?b (\<lambda>s n. (sub ?b s (s + n), False))" by (simp add: reads_def)
  have "zt_CompressedArchiveSize (tar_ztoc [file_named ''a'' '''' 3 5] ?b) = int (length ?b)"
    by (simp add: tar_ztoc_def)
  then have "ExtractFile (\<lambda>_ _ _ _ _. (0, [])) (\<lambda>_. Some \<lparr>tz_version = 2, tz_spanSize = 4, tz_size = 10\<rparr>)
      (\<lambda>s n. (sub ?b s (s + n), False)) (tar_ztoc [file_named ''a'' '''' 3 5] ?b) ''a'' =
      Some (Inr (sub ?b 3 (3 + 5)))"
    using ExtractFile_correct [OF z tar_layer_ok [OF wf] rd _ r] unfolding v by simp
  then show ?thesis by (simp add: sub_def)
qed
text \<open>
  If the checkpoints of the layer cannot be read, extracting a file that is not empty
  reports success with no data.
\<close>

theorem ExtractFile_swallows_error:
  assumes "Ztoc_Zinfo t2z zt = Inl e" and "resolves (zt_TOC zt) f v"
  shows "ExtractFile inflate t2z readAt zt f = Some (Inr [])"
  using GetMetadataEntry_resolves [OF assms(2)] assms(1) by (simp add: ExtractFile_def)

theorem ExtractFile_swallows_error_witness:
  "fm_UncompressedSize (file_named ''a'' '''' 3 5) = 5 \<and>
   ExtractFile (\<lambda>_ _ _ _ _. (0, [])) (\<lambda>_. None) (\<lambda>s n. ([], False)) (tar_ztoc [file_named ''a'' '''' 3 5] []) ''a'' = Some (Inr [])"
  by (simp add: file_named_def)
     (rule ExtractFile_swallows_error [where v = "file_named ''a'' '''' 3 5" and e = CannotUnmarshalTarZinfo],
      simp add: Ztoc_Zinfo_def NewZinfo_def newTarZinfo_def tar_ztoc_def algo_defs,
      rule resolves.here, simp_all add: file_named_def tar_ztoc_def)

text \<open>
  Comparing the metadata of two files decides whether they are the same, PAX headers as
  maps, provided no header of the first file has an empty value.
\<close>

theorem fm_Equal_correct:
  assumes "distinct (map fst (fm_PAXHeaders a))" and "distinct (map fst (fm_PAXHeaders b))"
    and "\<forall>h \<in> set (fm_PAXHeaders a). snd h \<noteq> ''''"
  shows "fm_Equal a b \<longleftrightarrow> a = b\<lparr>fm_PAXHeaders := fm_PAXHeaders a\<rparr> \<and>
    map_of (fm_PAXHeaders a) = map_of (fm_PAXHeaders b)"
proof -
  let ?p = "fm_PAXHeaders a" and ?q = "fm_PAXHeaders b"
  have eq: "map_of ?p = map_of ?q \<longleftrightarrow> set ?p = set ?q" using map_of_inject_set [OF assms(1,2)] .
  have d: "distinct ?p" "distinct ?q" using assms(1,2) by (auto simp: distinct_map)
  have look: "go_lookup ?q k = v \<longleftrightarrow> (k, v) \<in> set ?q" if "v \<noteq> ''''" for k v
    using that by (cases "map_of ?q k") (auto simp: go_lookup_def map_of_eq_Some_iff [OF assms(2), symmetric])
  have "list_all (\<lambda>(k, v). go_lookup ?q k = v) ?p \<longleftrightarrow> set ?p \<subseteq> set ?q"
    using assms(3) look by (fastforce simp: list_all_iff)
  moreover have "length ?p = length ?q \<and> set ?p \<subseteq> set ?q \<longleftrightarrow> set ?p = set ?q"
    using distinct_card [OF d(1)] distinct_card [OF d(2)] card_subset_eq [of "set ?q" "set ?p"] by auto
  ultimately show ?thesis
    unfolding eq fm_Equal_def by (cases a; cases b) auto
qed

theorem fm_Equal_correct_witness:
  "fm_Equal (file_named ''a'' '''' 512 3\<lparr>fm_PAXHeaders := [(''k'', ''v''), (''l'', ''w'')]\<rparr>)
     (file_named ''a'' '''' 512 3\<lparr>fm_PAXHeaders := [(''l'', ''w''), (''k'', ''v'')]\<rparr>)"
  by (subst fm_Equal_correct) (simp_all add: fun_eq_iff)

text \<open>
  With an empty value two different sets of headers compare equal.
\<close>

theorem fm_Equal_empty_value:
  "fm_Equal (file_named ''a'' '''' 512 3\<lparr>fm_PAXHeaders := [(''k'', '''')]\<rparr>)
     (file_named ''a'' '''' 512 3\<lparr>fm_PAXHeaders := [(''l'', ''w'')]\<rparr>)"
  by (simp add: fm_Equal_def go_lookup_def file_named_def)

end
