(* ===== verification/Ztoc_Marshaler.thy ===== *)
theory Ztoc_Marshaler
  imports Ztoc_Toc "HOL-Library.Multiset"
begin

text \<open>
  Serializing a ztoc, \<^verbatim>\<open>ztoc/ztoc_marshaler.go\<close>. The flatbuffer tables of the schema are
  records; writing tables to bytes and reading them back is the generated code and the
  flatbuffers library, the arguments \<open>enc\<close> and \<open>dec\<close>, where \<^const>\<open>None\<close> is a panic, which the
  code recovers. Times are written and read by \<^verbatim>\<open>MarshalText\<close> and \<^verbatim>\<open>UnmarshalText\<close>, the
  arguments \<open>tt\<close> and \<open>pt\<close>. Sorting a slice is the argument \<open>srt\<close>, since the order of equal
  entries is not determined.
\<close>

section \<open>The tables\<close>

record fb_fileMetadata =
  fb_name :: string
  fb_type :: string
  fb_uncompressed_offset :: int
  fb_uncompressed_size :: int
  fb_linkname :: string
  fb_mode :: int
  fb_uid :: int
  fb_gid :: int
  fb_uname :: string
  fb_gname :: string
  fb_mod_time :: string
  fb_devmajor :: int
  fb_devminor :: int
  fb_xattrs :: headers

datatype fb_algorithm = FbGzip | FbUncompressed

record fb_compressionInfo =
  fb_max_span_id :: int
  fb_span_digests :: "string list"
  fb_checkpoints :: bytes
  fb_compression_algorithm :: fb_algorithm

record fb_ztoc =
  fb_version :: string
  fb_build_tool_identifier :: string
  fb_compressed_archive_size :: int
  fb_uncompressed_archive_size :: int
  fb_toc :: "fb_fileMetadata list"
  fb_compression_info :: fb_compressionInfo

datatype marshal_error =
    CannotMarshal
  | CannotUnmarshal
  | AlgorithmNotDefined string
  | InvalidTOCEntry

section \<open>Writing\<close>

text \<open>\<^verbatim>\<open>ToLower\<close> of the name of the algorithm, which is how the two spellings are matched.\<close>

fun algorithm_name :: "fb_algorithm \<Rightarrow> string" where
  "algorithm_name FbGzip = ''gzip''"
| "algorithm_name FbUncompressed = ''uncompressed''"

definition compressionAlgorithmToFlatbuf :: "string \<Rightarrow> marshal_error + fb_algorithm" where
  "compressionAlgorithmToFlatbuf algo =
     (if algo = algorithm_name FbGzip then Inr FbGzip
      else if algo = algorithm_name FbUncompressed then Inr FbUncompressed
      else Inl (AlgorithmNotDefined algo))"

text \<open>The headers in the order of their keys, \<^verbatim>\<open>sort.Strings\<close>: bytewise lexicographic.\<close>

definition str_le :: "string \<Rightarrow> string \<Rightarrow> bool" where
  "str_le s t \<longleftrightarrow> s = t \<or> (s, t) \<in> lexord {(a, b). (of_char a :: nat) < of_char b}"

fun insert_header :: "string \<times> string \<Rightarrow> headers \<Rightarrow> headers" where
  "insert_header h [] = [h]"
| "insert_header h (g # gs) = (if str_le (fst h) (fst g) then h # g # gs else g # insert_header h gs)"

definition prepareXattrsOffset :: "fileMetadata \<Rightarrow> headers" where
  "prepareXattrsOffset me = foldr insert_header (fm_PAXHeaders me) []"

definition uint32 :: "int \<Rightarrow> int" where
  "uint32 x = x mod 4294967296"

definition prepareMetadataOffset :: "(gotime \<Rightarrow> string) \<Rightarrow> fileMetadata \<Rightarrow> fb_fileMetadata" where
  "prepareMetadataOffset tt me =
     \<lparr>fb_name = fm_Name me, fb_type = fm_Type me, fb_uncompressed_offset = fm_UncompressedOffset me,
      fb_uncompressed_size = fm_UncompressedSize me, fb_linkname = fm_Linkname me, fb_mode = fm_Mode me,
      fb_uid = uint32 (fm_UID me), fb_gid = uint32 (fm_GID me), fb_uname = fm_Uname me,
      fb_gname = fm_Gname me, fb_mod_time = tt (fm_ModTime me), fb_devmajor = fm_Devmajor me,
      fb_devminor = fm_Devminor me, fb_xattrs = prepareXattrsOffset me\<rparr>"

definition tocToFlatbuffer :: "(gotime \<Rightarrow> string) \<Rightarrow> tOC \<Rightarrow> fb_fileMetadata list" where
  "tocToFlatbuffer tt toc = map (prepareMetadataOffset tt) toc"

text \<open>An empty algorithm is left out of the table, whose default is gzip.\<close>

definition ztocToFlatbuffer ::
    "(fb_ztoc \<Rightarrow> bytes option) \<Rightarrow> (gotime \<Rightarrow> string) \<Rightarrow> ztoc \<Rightarrow> marshal_error + bytes" where
  "ztocToFlatbuffer enc tt zt =
     (let ci = zt_CompressionInfo zt in
      bind_res (if ci_CompressionAlgorithm ci = '''' then Inr FbGzip
                else compressionAlgorithmToFlatbuf (ci_CompressionAlgorithm ci)) (\<lambda>algo.
      case enc \<lparr>fb_version = zt_Version zt, fb_build_tool_identifier = zt_BuildToolIdentifier zt,
                fb_compressed_archive_size = zt_CompressedArchiveSize zt,
                fb_uncompressed_archive_size = zt_UncompressedArchiveSize zt,
                fb_toc = tocToFlatbuffer tt (zt_TOC zt),
                fb_compression_info = \<lparr>fb_max_span_id = ci_MaxSpanID ci,
                  fb_span_digests = ci_SpanDigests ci, fb_checkpoints = ci_Checkpoints ci,
                  fb_compression_algorithm = algo\<rparr>\<rparr> of
        None \<Rightarrow> Inl CannotMarshal | Some b \<Rightarrow> Inr b))"

text \<open>The reader and the descriptor's digest and size.\<close>

definition Marshal ::
    "(bytes \<Rightarrow> string) \<Rightarrow> (fb_ztoc \<Rightarrow> bytes option) \<Rightarrow> (gotime \<Rightarrow> string) \<Rightarrow> ztoc \<Rightarrow>
     marshal_error + bytes \<times> string \<times> int" where
  "Marshal dig enc tt zt =
     bind_res (ztocToFlatbuffer enc tt zt) (\<lambda>b. Inr (b, dig b, int (length b)))"

section \<open>Reading\<close>

text \<open>\<open>set_header\<close> is an assignment to a Go map; the last assignment to a key counts.\<close>

definition set_header :: "string \<times> string \<Rightarrow> headers \<Rightarrow> headers" where
  "set_header h m = filter (\<lambda>g. fst g \<noteq> fst h) m @ [h]"

definition read_entry :: "(string \<Rightarrow> gotime) \<Rightarrow> fb_fileMetadata \<Rightarrow> fileMetadata" where
  "read_entry pt e =
     \<lparr>fm_Name = fb_name e, fm_Type = fb_type e, fm_UncompressedOffset = fb_uncompressed_offset e,
      fm_UncompressedSize = fb_uncompressed_size e, fm_TarHeaderOffset = 0, fm_Linkname = fb_linkname e,
      fm_Mode = fb_mode e, fm_UID = fb_uid e, fm_GID = fb_gid e, fm_Uname = fb_uname e,
      fm_Gname = fb_gname e, fm_ModTime = pt (fb_mod_time e), fm_Devmajor = fb_devmajor e,
      fm_Devminor = fb_devminor e, fm_PAXHeaders = fold set_header (fb_xattrs e) []\<rparr>"

fun set_tar_headers :: "offset \<Rightarrow> fileMetadata list \<Rightarrow> marshal_error + fileMetadata list" where
  "set_tar_headers nextTarHeader [] = Inr []"
| "set_tar_headers nextTarHeader (e # es) =
     (if nextTarHeader > fm_UncompressedOffset e then Inl InvalidTOCEntry
      else bind_res (set_tar_headers
             (AlignToTarBlock (wrap64 (fm_UncompressedOffset e + fm_UncompressedSize e))) es) (\<lambda>es'.
           Inr (e\<lparr>fm_TarHeaderOffset := nextTarHeader\<rparr> # es')))"

definition flatbufferToTOC ::
    "(fileMetadata list \<Rightarrow> fileMetadata list) \<Rightarrow> (string \<Rightarrow> gotime) \<Rightarrow> fb_fileMetadata list \<Rightarrow>
     marshal_error + tOC" where
  "flatbufferToTOC srt pt fbtoc = set_tar_headers 0 (srt (map (read_entry pt) fbtoc))"

text \<open>\<open>pd\<close> is \<^verbatim>\<open>digest.Parse\<close>, whose error is dropped: the string, or the empty one.\<close>

definition flatbufToZtoc ::
    "(bytes \<Rightarrow> fb_ztoc option) \<Rightarrow> (fileMetadata list \<Rightarrow> fileMetadata list) \<Rightarrow> (string \<Rightarrow> gotime) \<Rightarrow>
     (string \<Rightarrow> string) \<Rightarrow> bytes \<Rightarrow> marshal_error + ztoc" where
  "flatbufToZtoc dec srt pt pd flatbuffer =
     (case dec flatbuffer of None \<Rightarrow> Inl CannotUnmarshal
      | Some t \<Rightarrow>
          bind_res (flatbufferToTOC srt pt (fb_toc t)) (\<lambda>toc.
            let ci = fb_compression_info t in
            Inr \<lparr>zt_TOC = toc, zt_CompressionInfo = \<lparr>ci_MaxSpanID = fb_max_span_id ci,
                   ci_SpanDigests = map pd (fb_span_digests ci), ci_Checkpoints = fb_checkpoints ci,
                   ci_CompressionAlgorithm = algorithm_name (fb_compression_algorithm ci)\<rparr>,
                 zt_Version = fb_version t, zt_BuildToolIdentifier = fb_build_tool_identifier t,
                 zt_CompressedArchiveSize = fb_compressed_archive_size t,
                 zt_UncompressedArchiveSize = fb_uncompressed_archive_size t\<rparr>))"

definition Unmarshal ::
    "(bytes \<Rightarrow> fb_ztoc option) \<Rightarrow> (fileMetadata list \<Rightarrow> fileMetadata list) \<Rightarrow> (string \<Rightarrow> gotime) \<Rightarrow>
     (string \<Rightarrow> string) \<Rightarrow> bytes \<Rightarrow> marshal_error + ztoc" where
  "Unmarshal dec srt pt pd b = flatbufToZtoc dec srt pt pd b"

section \<open>Headers\<close>

lemma mset_insert_header: "mset (insert_header h gs) = add_mset h (mset gs)"
  by (induction gs) auto

lemma mset_prepareXattrs: "mset (prepareXattrsOffset me) = mset (fm_PAXHeaders me)"
proof -
  have "mset (foldr insert_header hs []) = mset hs" for hs
    by (induction hs) (auto simp: mset_insert_header)
  then show ?thesis by (simp add: prepareXattrsOffset_def)
qed

lemma fold_set_header:
  "distinct (map fst hs) \<Longrightarrow> fst ` set hs \<inter> fst ` set m = {} \<Longrightarrow> fold set_header hs m = m @ hs"
proof (induction hs arbitrary: m)
  case (Cons h hs)
  have "fst h \<notin> fst ` set m" using Cons.prems(2) by simp
  then have "\<forall>g \<in> set m. fst g \<noteq> fst h" by (metis imageI)
  then have "set_header h m = m @ [h]" by (simp add: set_header_def)
  moreover have "fst ` set hs \<inter> fst ` set (m @ [h]) = {}" using Cons.prems by auto
  ultimately show ?case using Cons.IH [of "m @ [h]"] Cons.prems(1) by simp
qed simp

lemma headers_roundtrip:
  assumes "distinct (map fst (fm_PAXHeaders me))"
  shows "map_of (fold set_header (prepareXattrsOffset me) []) = map_of (fm_PAXHeaders me)"
proof -
  let ?hs = "prepareXattrsOffset me"
  have m: "mset (map fst ?hs) = mset (map fst (fm_PAXHeaders me))"
    by (simp only: mset_map mset_prepareXattrs)
  then have d: "distinct (map fst ?hs)" using assms mset_eq_imp_distinct_iff by blast
  then have "fold set_header ?hs [] = ?hs" by (subst fold_set_header) auto
  moreover have "set ?hs = set (fm_PAXHeaders me)" using mset_prepareXattrs mset_eq_setD by blast
  ultimately show ?thesis using map_of_inject_set [OF d assms] by simp
qed

section \<open>The table of contents\<close>

text \<open>
  A table of contents as the builder makes it: the first tar header is at offset 0, every
  other one after the data of the file before it, rounded up to a block.
\<close>

fun tar_chain :: "offset \<Rightarrow> fileMetadata list \<Rightarrow> bool" where
  "tar_chain next [] = True"
| "tar_chain next (e # es) \<longleftrightarrow> fm_TarHeaderOffset e = next \<and> next < fm_UncompressedOffset e \<and>
     fm_UncompressedOffset e \<le> AlignToTarBlock (wrap64 (fm_UncompressedOffset e + fm_UncompressedSize e)) \<and>
     tar_chain (AlignToTarBlock (wrap64 (fm_UncompressedOffset e + fm_UncompressedSize e))) es"

lemma tar_chain_above: "tar_chain next es \<Longrightarrow> e \<in> set es \<Longrightarrow> next < fm_UncompressedOffset e"
proof (induction es arbitrary: "next")
  case (Cons a es)
  then show ?case by (cases "e = a") fastforce+
qed simp

lemma tar_chain_sorted: "tar_chain next es \<Longrightarrow> sorted_wrt (<) (map fm_UncompressedOffset es)"
proof (induction es arbitrary: "next")
  case (Cons a es)
  then show ?case using tar_chain_above [of _ es] by fastforce
qed simp

text \<open>The same metadata, with the PAX headers compared as maps.\<close>

definition same_metadata :: "fileMetadata \<Rightarrow> fileMetadata \<Rightarrow> bool" where
  "same_metadata a b \<longleftrightarrow> a\<lparr>fm_PAXHeaders := []\<rparr> = b\<lparr>fm_PAXHeaders := []\<rparr> \<and>
     map_of (fm_PAXHeaders a) = map_of (fm_PAXHeaders b)"

lemma set_tar_headers_chain:
  assumes "tar_chain next es" and "map fm_UncompressedOffset es' = map fm_UncompressedOffset es"
    and "map fm_UncompressedSize es' = map fm_UncompressedSize es"
  shows "set_tar_headers next es' =
    Inr (map (\<lambda>(e', e). e'\<lparr>fm_TarHeaderOffset := fm_TarHeaderOffset e\<rparr>) (zip es' es))"
  using assms
proof (induction es arbitrary: "next" es')
  case (Cons a es)
  obtain a' as' where [simp]: "es' = a' # as'" using Cons.prems(2) by (cases es') auto
  then show ?case using Cons.prems Cons.IH [of _ as'] by auto
qed simp

text \<open>Sorting by offset is determined when the offsets differ.\<close>

definition sorts_by_offset :: "(fileMetadata list \<Rightarrow> fileMetadata list) \<Rightarrow> bool" where
  "sorts_by_offset srt \<longleftrightarrow> (\<forall>xs. mset (srt xs) = mset xs \<and> sorted (map fm_UncompressedOffset (srt xs)))"

lemma srt_id:
  assumes "sorts_by_offset srt" and "sorted_wrt (<) (map fm_UncompressedOffset xs)"
  shows "srt xs = xs"
proof -
  let ?f = fm_UncompressedOffset
  have d: "sorted (map ?f xs)" "distinct (map ?f xs)"
    using assms(2) by (simp_all add: strict_sorted_iff)
  have m: "mset (srt xs) = mset xs" "sorted (map ?f (srt xs))" using assms(1) by (auto simp: sorts_by_offset_def)
  then have "map ?f (srt xs) = map ?f xs"
    using d(1) by (metis mset_map properties_for_sort)
  moreover have "inj_on ?f (set (srt xs) \<union> set xs)"
    using d(2) mset_eq_setD [OF m(1)] by (simp add: distinct_map)
  ultimately show ?thesis by (rule map_inj_on)
qed

definition entry_ok :: "(gotime \<Rightarrow> string) \<Rightarrow> (string \<Rightarrow> gotime) \<Rightarrow> fileMetadata \<Rightarrow> bool" where
  "entry_ok tt pt e \<longleftrightarrow> distinct (map fst (fm_PAXHeaders e)) \<and> 0 \<le> fm_UID e \<and> fm_UID e < 4294967296 \<and>
     0 \<le> fm_GID e \<and> fm_GID e < 4294967296 \<and> pt (tt (fm_ModTime e)) = fm_ModTime e"

lemma read_prepared:
  assumes "entry_ok tt pt e"
  shows "same_metadata ((read_entry pt (prepareMetadataOffset tt e))\<lparr>fm_TarHeaderOffset := fm_TarHeaderOffset e\<rparr>) e"
  using assms headers_roundtrip [of e]
  by (cases e) (simp add: same_metadata_def read_entry_def prepareMetadataOffset_def entry_ok_def uint32_def)

lemma toc_roundtrip:
  assumes "sorts_by_offset srt" and "tar_chain 0 toc" and "list_all (entry_ok tt pt) toc"
  shows "\<exists>toc'. flatbufferToTOC srt pt (tocToFlatbuffer tt toc) = Inr toc' \<and> list_all2 same_metadata toc' toc"
proof -
  let ?rs = "map (read_entry pt) (tocToFlatbuffer tt toc)"
  have k: "map fm_UncompressedOffset ?rs = map fm_UncompressedOffset toc"
    "map fm_UncompressedSize ?rs = map fm_UncompressedSize toc"
    by (simp_all add: tocToFlatbuffer_def read_entry_def prepareMetadataOffset_def)
  then have "srt ?rs = ?rs"
    using srt_id [OF assms(1)] tar_chain_sorted [OF assms(2)] by simp
  then have f: "flatbufferToTOC srt pt (tocToFlatbuffer tt toc) =
      Inr (map (\<lambda>(e', e). e'\<lparr>fm_TarHeaderOffset := fm_TarHeaderOffset e\<rparr>) (zip ?rs toc))"
    using set_tar_headers_chain [OF assms(2) k] by (simp add: flatbufferToTOC_def)
  have "list_all2 same_metadata (map (\<lambda>(e', e). e'\<lparr>fm_TarHeaderOffset := fm_TarHeaderOffset e\<rparr>) (zip ?rs toc)) toc"
    using assms(3) read_prepared
    by (auto simp: list_all2_conv_all_nth tocToFlatbuffer_def list_all_length)
  then show ?thesis using f by blast
qed

section \<open>The tar reader\<close>

text \<open>
  The positions a tar reader reports: each entry has a header of at least one block after the
  data of the entry before it, sizes are not negative and offsets fit 64 bits.
\<close>

fun tar_stream_ok :: "offset \<Rightarrow> tar_stream \<Rightarrow> bool" where
  "tar_stream_ok next (TarEnd pos) = True"
| "tar_stream_ok next TarError = True"
| "tar_stream_ok next (TarNext hdr pos rest) \<longleftrightarrow> next + 512 \<le> pos \<and> 0 \<le> h_Size hdr \<and>
     pos + h_Size hdr + 512 \<le> max_int64 \<and> tar_stream_ok (AlignToTarBlock (pos + h_Size hdr)) rest"

text \<open>The members of an archive with the positions of their data, and the position at its end.\<close>

fun tar_members :: "tar_stream \<Rightarrow> (tarHeader \<times> offset) list" where
  "tar_members (TarNext hdr pos rest) = (hdr, pos) # tar_members rest"
| "tar_members _ = []"

fun tar_end :: "tar_stream \<Rightarrow> offset option" where
  "tar_end (TarNext hdr pos rest) = tar_end rest"
| "tar_end (TarEnd pos) = Some pos"
| "tar_end TarError = None"

text \<open>An entry has the metadata of a member and the place of its data.\<close>

definition describes :: "tarHeader \<times> offset \<Rightarrow> fileMetadata \<Rightarrow> bool" where
  "describes m e \<longleftrightarrow> getType (fst m) = Inr (fm_Type e) \<and> fm_Name e = h_Name (fst m) \<and> fm_Linkname e = h_Linkname (fst m) \<and>
     fm_UncompressedOffset e = snd m \<and> fm_UncompressedSize e = h_Size (fst m) \<and> fm_Mode e = h_Mode (fst m) \<and>
     (fm_UID e, fm_GID e, fm_Uname e, fm_Gname e) = (h_Uid (fst m), h_Gid (fst m), h_Uname (fst m), h_Gname (fst m)) \<and>
     fm_ModTime e = h_ModTime (fst m) \<and> (fm_Devmajor e, fm_Devminor e) = (h_Devmajor (fst m), h_Devminor (fst m)) \<and>
     fm_PAXHeaders e = h_PAXRecords (fst m)"

lemma Align_ge:
  assumes "0 \<le> p" and "p + 512 \<le> max_int64"
  shows "p \<le> AlignToTarBlock p" and "AlignToTarBlock p < p + 512" and "AlignToTarBlock p mod 512 = 0"
proof -
  have r: "go_rem p TarBlockSize = Some (p mod 512)" using assms by (simp add: TarBlockSize_def go_rem_pos)
  have b: "0 \<le> p mod 512" "p mod 512 < 512" by simp_all
  have w: "wrap64 (p + (512 - p mod 512)) = p + (512 - p mod 512)"
    using assms b by (intro wrap64_id) linarith+
  have "p + (512 - p mod 512) = (p - p mod 512) + 512" by simp
  also have "\<dots> = 512 * (p div 512) + 512" by (simp only: minus_mod_eq_mult_div)
  finally have "(p + (512 - p mod 512)) mod 512 = (512 * (p div 512) + 512) mod 512" by (rule arg_cong)
  then have m: "(p + (512 - p mod 512)) mod 512 = 0" by simp
  show "p \<le> AlignToTarBlock p" and "AlignToTarBlock p < p + 512" and "AlignToTarBlock p mod 512 = 0"
    using r w m b by (auto simp: AlignToTarBlock_def TarBlockSize_def)
qed

lemma metadata_loop_chain:
  assumes "tar_stream_ok h r" and "0 \<le> h" and "metadata_loop h r md = Inr (md', pos)"
  shows "\<exists>es. md' = md @ es \<and> tar_chain h es \<and> list_all2 describes (tar_members r) es \<and> tar_end r = Some pos"
  using assms
proof (induction r arbitrary: h md)
  case (TarNext hdr p rest)
  obtain t where t: "getType hdr = Inr t" using TarNext(4) by (cases "getType hdr") auto
  let ?e = "\<lparr>fm_Name = h_Name hdr, fm_Type = t, fm_UncompressedOffset = p,
      fm_UncompressedSize = h_Size hdr, fm_TarHeaderOffset = h, fm_Linkname = h_Linkname hdr,
      fm_Mode = h_Mode hdr, fm_UID = h_Uid hdr, fm_GID = h_Gid hdr, fm_Uname = h_Uname hdr,
      fm_Gname = h_Gname hdr, fm_ModTime = h_ModTime hdr, fm_Devmajor = h_Devmajor hdr,
      fm_Devminor = h_Devminor hdr, fm_PAXHeaders = h_PAXRecords hdr\<rparr>"
  have b: "h + 512 \<le> p" "0 \<le> h_Size hdr" "p + h_Size hdr + 512 \<le> max_int64"
      "tar_stream_ok (AlignToTarBlock (p + h_Size hdr)) rest"
    using TarNext(2) by simp_all
  have w: "wrap64 (p + h_Size hdr) = p + h_Size hdr" using b TarNext(3) by (intro wrap64_id) linarith+
  have al: "p + h_Size hdr \<le> AlignToTarBlock (p + h_Size hdr)"
    using b TarNext(3) by (intro Align_ge) linarith+
  have "metadata_loop (AlignToTarBlock (p + h_Size hdr)) rest (md @ [?e]) = Inr (md', pos)"
    using TarNext(4) t w by (simp add: Let_def)
  then obtain es where "md' = (md @ [?e]) @ es" "tar_chain (AlignToTarBlock (p + h_Size hdr)) es"
      "list_all2 describes (tar_members rest) es" "tar_end rest = Some pos"
    using TarNext(1) [OF b(4)] al b(1,2) TarNext(3) by force
  moreover have "describes (hdr, p) ?e" using t by (simp add: describes_def)
  ultimately show ?case using b TarNext(3) al w by (intro exI [of _ "?e # es"]) simp
qed auto

lemma metadata_loop_total:
  "tar_end r \<noteq> None \<Longrightarrow> list_all (\<lambda>m. \<exists>t. getType (fst m) = Inr t) (tar_members r) \<Longrightarrow> \<exists>q. metadata_loop h r md = Inr q"
  by (induction h r md rule: metadata_loop.induct) (auto simp: Let_def)

section \<open>Properties\<close>

text \<open>
  C28: for an archive without sparse members that is read to its end and has only known types, building the table of
  contents succeeds with one entry for each member, in order, with the metadata of the member and the place of its
  data; the first tar header is at offset 0 and every other one directly after the padded data of the member before
  it, before its own data.
\<close>

theorem metadataFromTarReader_chain:
  assumes "tar_stream_ok 0 r" and "tar_end r = Some pos" and "list_all (\<lambda>m. \<exists>t. getType (fst m) = Inr t) (tar_members r)"
  shows "\<exists>md. metadataFromTarReader r = Inr (md, pos) \<and> list_all2 describes (tar_members r) md \<and>
    tar_chain 0 md \<and> sorted_wrt (<) (map fm_UncompressedOffset md)"
proof -
  obtain md pos' where m: "metadata_loop 0 r [] = Inr (md, pos')" using metadata_loop_total [OF _ assms(3)] assms(2) by force
  then show ?thesis using metadata_loop_chain [OF assms(1) _ m] assms(2) tar_chain_sorted by (auto simp: metadataFromTarReader_def)
qed

definition plain_header :: "string \<Rightarrow> int \<Rightarrow> tarHeader" where
  "plain_header name sz = \<lparr>h_Name = name, h_Typeflag = 48, h_Size = sz, h_Linkname = '''', h_Mode = 420,
     h_Uid = 0, h_Gid = 0, h_Uname = '''', h_Gname = '''', h_ModTime = 0, h_Devmajor = 0, h_Devminor = 0,
     h_PAXRecords = [(''k'', ''v'')]\<rparr>"

definition two_files :: tar_stream where
  "two_files = TarNext (plain_header ''a'' 3) 512 (TarNext (plain_header ''b'' 1024) 1536 (TarEnd 3584))"

theorem metadataFromTarReader_chain_witness:
  "\<exists>md. metadataFromTarReader two_files = Inr (md, 3584) \<and> length md = 2 \<and> tar_chain 0 md"
proof -
  have "tar_stream_ok 0 two_files"
    by (simp add: two_files_def plain_header_def AlignToTarBlock_def TarBlockSize_def go_rem_def wrap64_def)
  moreover have "tar_end two_files = Some 3584" "length (tar_members two_files) = 2"
      "list_all (\<lambda>m. \<exists>t. getType (fst m) = Inr t) (tar_members two_files)"
    by (simp_all add: two_files_def plain_header_def getType_def)
  ultimately show ?thesis using metadataFromTarReader_chain [of two_files 3584] by (metis list_all2_lengthD)
qed

text \<open>
  C13: for a table of contents with the layout that the builder makes, user and group IDs that fit 32 bits, times and span digests that
  survive being written as text, and a named compression algorithm, unmarshalling the marshalled bytes gives the ztoc
  back, up to the order of the headers of a file, with the offsets of the tar headers, which are not stored, rebuilt.
\<close>

theorem marshal_roundtrip:
  assumes "Marshal dig enc tt zt = Inr (b, d, n)"
    and "\<forall>t c. enc t = Some c \<longrightarrow> dec c = Some t" and "sorts_by_offset srt"
    and "tar_chain 0 (zt_TOC zt)" and "list_all (entry_ok tt pt) (zt_TOC zt)"
    and "ci_CompressionAlgorithm (zt_CompressionInfo zt) \<noteq> ''''"
    and "\<forall>s \<in> set (ci_SpanDigests (zt_CompressionInfo zt)). pd s = s"
  shows "d = dig b \<and> n = int (length b) \<and>
    (\<exists>zt'. Unmarshal dec srt pt pd b = Inr zt' \<and> zt'\<lparr>zt_TOC := zt_TOC zt\<rparr> = zt \<and>
       list_all2 same_metadata (zt_TOC zt') (zt_TOC zt))"
proof -
  let ?ci = "zt_CompressionInfo zt"
  obtain algo where algo: "compressionAlgorithmToFlatbuf (ci_CompressionAlgorithm ?ci) = Inr algo"
    using assms(1,6) by (auto simp: Marshal_def ztocToFlatbuffer_def Let_def bind_res_Inr_iff)
  then have name: "algorithm_name algo = ci_CompressionAlgorithm ?ci"
    by (auto simp: compressionAlgorithmToFlatbuf_def split: if_splits)
  have b: "d = dig b" "n = int (length b)"
    and e: "enc \<lparr>fb_version = zt_Version zt, fb_build_tool_identifier = zt_BuildToolIdentifier zt,
                fb_compressed_archive_size = zt_CompressedArchiveSize zt,
                fb_uncompressed_archive_size = zt_UncompressedArchiveSize zt,
                fb_toc = tocToFlatbuffer tt (zt_TOC zt),
                fb_compression_info = \<lparr>fb_max_span_id = ci_MaxSpanID ?ci,
                  fb_span_digests = ci_SpanDigests ?ci, fb_checkpoints = ci_Checkpoints ?ci,
                  fb_compression_algorithm = algo\<rparr>\<rparr> = Some b"
    using assms(1,6) algo
    by (auto simp: Marshal_def ztocToFlatbuffer_def Let_def bind_res_Inr_iff split: option.splits)
  obtain toc' where toc': "flatbufferToTOC srt pt (tocToFlatbuffer tt (zt_TOC zt)) = Inr toc'"
      "list_all2 same_metadata toc' (zt_TOC zt)"
    using toc_roundtrip [OF assms(3-5)] by blast
  have pd: "map pd (ci_SpanDigests ?ci) = ci_SpanDigests ?ci" using assms(7) by (simp add: map_idI)
  have "Unmarshal dec srt pt pd b = Inr (zt\<lparr>zt_TOC := toc'\<rparr>)"
    using assms(2) e toc'(1) pd name by (simp add: Unmarshal_def flatbufToZtoc_def Let_def)
  then show ?thesis using b toc'(2) by simp
qed

text \<open>What does not come back otherwise: larger user and group IDs are cut to 32 bits, and an empty algorithm is read as gzip.\<close>

lemma uid_truncated:
  "fm_UID (read_entry pt (prepareMetadataOffset tt e)) = fm_UID e mod 4294967296 \<and>
   fm_GID (read_entry pt (prepareMetadataOffset tt e)) = fm_GID e mod 4294967296"
  by (simp add: read_entry_def prepareMetadataOffset_def uint32_def)

lemma empty_algorithm_gzip:
  assumes "Marshal dig enc tt zt = Inr (b, d, n)" and "\<forall>t c. enc t = Some c \<longrightarrow> dec c = Some t"
    and "ci_CompressionAlgorithm (zt_CompressionInfo zt) = ''''" and "Unmarshal dec srt pt pd b = Inr zt'"
  shows "ci_CompressionAlgorithm (zt_CompressionInfo zt') = algorithm_name FbGzip"
  using assms by (fastforce simp: Marshal_def ztocToFlatbuffer_def Unmarshal_def flatbufToZtoc_def Let_def bind_res_Inr_iff split: option.splits)

text \<open>A codec for one table, times as unary numbers, and a sort.\<close>

definition small_ztoc :: ztoc where
  "small_ztoc = \<lparr>zt_TOC = [\<lparr>fm_Name = ''a'', fm_Type = ''reg'', fm_UncompressedOffset = 512,
       fm_UncompressedSize = 3, fm_TarHeaderOffset = 0, fm_Linkname = '''', fm_Mode = 420, fm_UID = 1000,
       fm_GID = 0, fm_Uname = ''u'', fm_Gname = '''', fm_ModTime = 2, fm_Devmajor = 0, fm_Devminor = 0,
       fm_PAXHeaders = [(''b'', ''1''), (''a'', ''2'')]\<rparr>],
     zt_CompressionInfo = \<lparr>ci_MaxSpanID = 0, ci_SpanDigests = [''d''], ci_Checkpoints = [7],
       ci_CompressionAlgorithm = ''gzip''\<rparr>, zt_Version = Version09, zt_BuildToolIdentifier = ''soci'',
     zt_CompressedArchiveSize = 100, zt_UncompressedArchiveSize = 2048\<rparr>"

definition small_table :: fb_ztoc where
  "small_table = \<lparr>fb_version = Version09, fb_build_tool_identifier = ''soci'', fb_compressed_archive_size = 100,
     fb_uncompressed_archive_size = 2048, fb_toc = tocToFlatbuffer (\<lambda>t. replicate (nat t) CHR ''I'') (zt_TOC small_ztoc),
     fb_compression_info = \<lparr>fb_max_span_id = 0, fb_span_digests = [''d''], fb_checkpoints = [7],
       fb_compression_algorithm = FbGzip\<rparr>\<rparr>"

theorem marshal_roundtrip_witness:
  "\<exists>zt'. Unmarshal (\<lambda>b. if b = [1] then Some small_table else None) (sort_key fm_UncompressedOffset)
      (\<lambda>s. int (length s)) id [1] = Inr zt' \<and> zt'\<lparr>zt_TOC := zt_TOC small_ztoc\<rparr> = small_ztoc \<and>
      list_all2 same_metadata (zt_TOC zt') (zt_TOC small_ztoc)"
proof -
  have m: "Marshal (\<lambda>b. '''') (\<lambda>t. if t = small_table then Some [1] else None) (\<lambda>t. replicate (nat t) CHR ''I'')
      small_ztoc = Inr ([1], '''', 1)"
    by (simp add: Marshal_def ztocToFlatbuffer_def small_table_def Let_def compressionAlgorithmToFlatbuf_def)
       (simp add: small_ztoc_def)
  have s: "sorts_by_offset (sort_key fm_UncompressedOffset)" by (simp add: sorts_by_offset_def)
  have c: "tar_chain 0 (zt_TOC small_ztoc)"
    by (simp add: small_ztoc_def AlignToTarBlock_def TarBlockSize_def go_rem_def wrap64_def)
  have o': "list_all (entry_ok (\<lambda>t. replicate (nat t) CHR ''I'') (\<lambda>s. int (length s))) (zt_TOC small_ztoc)"
    by (simp add: small_ztoc_def entry_ok_def)
  show ?thesis
    using marshal_roundtrip [OF m _ s c o', where pd = id and dec = "\<lambda>b. if b = [1] then Some small_table else None"]
    by (simp add: small_ztoc_def)
qed

end
