(* ===== verification/Lru_Cache.thy ===== *)
theory Lru_Cache
  imports Prelude
begin

text \<open>
  The reference-count-aware LRU cache of \<^verbatim>\<open>util/lrucache/lrucache.go\<close>. The eviction policy is
  that of the package groupcache/lru, which is an argument \<open>ops\<close> of the operations with the
  laws of the locale \<open>inner_lru\<close>: what its documentation promises of \<^verbatim>\<open>Get\<close>, \<^verbatim>\<open>Add\<close> and
  \<^verbatim>\<open>Remove\<close> and of the calls of \<^verbatim>\<open>OnEvicted\<close>. The result shown is that the finalizer of a
  value runs exactly once, when the value has left the cache and every client has called its
  \<^verbatim>\<open>done\<close>. Every operation holds the cache's mutex, so the operations are steps of a state
  machine; \<^verbatim>\<open>refCounter\<close> objects have addresses, their positions in the heap.
\<close>

section \<open>The inner cache\<close>

type_synonym addr = nat

text \<open>\<open>l_add\<close> and \<open>l_remove\<close> also return the entries \<^verbatim>\<open>OnEvicted\<close> was called on.\<close>

record 'l lru_ops =
  l_get :: "'l \<Rightarrow> string \<Rightarrow> 'l \<times> addr option"
  l_add :: "'l \<Rightarrow> string \<Rightarrow> addr \<Rightarrow> 'l \<times> (string \<times> addr) list"
  l_remove :: "'l \<Rightarrow> string \<Rightarrow> 'l \<times> (string \<times> addr) list"

section \<open>The cache\<close>

record 'v refCounter =
  rc_key :: string
  rc_v :: 'v
  rc_refCounts :: int
  rc_finalized :: bool

text \<open>
  \<open>c_dones\<close> are the closures returned by \<^verbatim>\<open>decreaseOnceFunc\<close>: the object each refers to and
  whether it has run. \<open>c_evicted\<close> records the calls of the callback \<^verbatim>\<open>OnEvicted\<close> in order.
\<close>

record ('l, 'v) lcache =
  c_inner :: 'l
  c_heap :: "'v refCounter list"
  c_dones :: "(addr \<times> bool) list"
  c_evicted :: "addr list"

definition New :: "'l \<Rightarrow> ('l, 'v) lcache" where
  "New inner = \<lparr>c_inner = inner, c_heap = [], c_dones = [], c_evicted = []\<rparr>"

definition rc_inc :: "addr \<Rightarrow> ('l, 'v) lcache \<Rightarrow> ('l, 'v) lcache" where
  "rc_inc a c = c\<lparr>c_heap := (c_heap c)[a := (c_heap c ! a)\<lparr>rc_refCounts := rc_refCounts (c_heap c ! a) + 1\<rparr>]\<rparr>"

definition rc_dec :: "addr \<Rightarrow> ('l, 'v) lcache \<Rightarrow> ('l, 'v) lcache" where
  "rc_dec a c =
     (let n = rc_refCounts (c_heap c ! a) - 1;
          c' = c\<lparr>c_heap := (c_heap c)[a := (c_heap c ! a)\<lparr>rc_refCounts := n\<rparr>]\<rparr>
      in if n \<le> 0 then c'\<lparr>c_evicted := c_evicted c' @ [a]\<rparr> else c')"

definition rc_finalize :: "addr \<Rightarrow> ('l, 'v) lcache \<Rightarrow> ('l, 'v) lcache" where
  "rc_finalize a c =
     (if rc_finalized (c_heap c ! a) then c
      else rc_dec a (c\<lparr>c_heap := (c_heap c)[a := (c_heap c ! a)\<lparr>rc_finalized := True\<rparr>]\<rparr>))"

definition finalize_all :: "(string \<times> addr) list \<Rightarrow> ('l, 'v) lcache \<Rightarrow> ('l, 'v) lcache" where
  "finalize_all es c = fold (\<lambda>e. rc_finalize (snd e)) es c"

text \<open>A call of \<^verbatim>\<open>decreaseOnceFunc\<close> makes a new closure; its index is the client's handle.\<close>

definition decreaseOnceFunc :: "addr \<Rightarrow> ('l, 'v) lcache \<Rightarrow> ('l, 'v) lcache \<times> nat" where
  "decreaseOnceFunc a c = (c\<lparr>c_dones := c_dones c @ [(a, False)]\<rparr>, length (c_dones c))"

definition call_done :: "nat \<Rightarrow> ('l, 'v) lcache \<Rightarrow> ('l, 'v) lcache" where
  "call_done h c =
     (case c_dones c ! h of (a, used) \<Rightarrow>
        if used then c else rc_dec a (c\<lparr>c_dones := (c_dones c)[h := (a, True)]\<rparr>))"

definition lru_Get ::
    "'l lru_ops \<Rightarrow> string \<Rightarrow> ('l, 'v) lcache \<Rightarrow> ('l, 'v) lcache \<times> ('v \<times> nat) option" where
  "lru_Get ops key c =
     (case l_get ops (c_inner c) key of
        (l, None) \<Rightarrow> (c\<lparr>c_inner := l\<rparr>, None)
      | (l, Some a) \<Rightarrow>
          (case decreaseOnceFunc a (rc_inc a (c\<lparr>c_inner := l\<rparr>)) of
             (c', h) \<Rightarrow> (c', Some (rc_v (c_heap c ! a), h))))"

definition lru_Add ::
    "'l lru_ops \<Rightarrow> string \<Rightarrow> 'v \<Rightarrow> ('l, 'v) lcache \<Rightarrow> ('l, 'v) lcache \<times> 'v \<times> nat \<times> bool" where
  "lru_Add ops key v c =
     (case l_get ops (c_inner c) key of
        (l, Some a) \<Rightarrow>
          (case decreaseOnceFunc a (rc_inc a (c\<lparr>c_inner := l\<rparr>)) of
             (c', h) \<Rightarrow> (c', rc_v (c_heap c ! a), h, False))
      | (l, None) \<Rightarrow>
          (let a = length (c_heap c);
               rc = \<lparr>rc_key = key, rc_v = v, rc_refCounts = 0, rc_finalized = False\<rparr>;
               c1 = rc_inc a (rc_inc a (c\<lparr>c_inner := l, c_heap := c_heap c @ [rc]\<rparr>))
           in case l_add ops l key a of
                (l', es) \<Rightarrow>
                  (case decreaseOnceFunc a (finalize_all es (c1\<lparr>c_inner := l'\<rparr>)) of
                     (c', h) \<Rightarrow> (c', v, h, True))))"

definition lru_Remove :: "'l lru_ops \<Rightarrow> string \<Rightarrow> ('l, 'v) lcache \<Rightarrow> ('l, 'v) lcache" where
  "lru_Remove ops key c =
     (case l_remove ops (c_inner c) key of (l, es) \<Rightarrow> finalize_all es (c\<lparr>c_inner := l\<rparr>))"

text \<open>One call by a client; a handle is one that was returned.\<close>

inductive lru_step :: "'l lru_ops \<Rightarrow> ('l, 'v) lcache \<Rightarrow> ('l, 'v) lcache \<Rightarrow> bool" for ops where
  step_get: "lru_step ops c (fst (lru_Get ops key c))"
| step_add: "lru_step ops c (fst (lru_Add ops key v c))"
| step_remove: "lru_step ops c (lru_Remove ops key c)"
| step_done: "h < length (c_dones c) \<Longrightarrow> lru_step ops c (call_done h c)"

section \<open>The reference counts\<close>

definition live :: "addr \<Rightarrow> ('l, 'v) lcache \<Rightarrow> int" where
  "live a c = int (length (filter (\<lambda>d. d = (a, False)) (c_dones c)))"

text \<open>
  For the entries \<open>E\<close> of the inner cache: an object is in the cache until it is finalized, its
  counter is the number of its open handles plus one while it is in the cache, and the callback
  has run on it once if the counter is zero and not at all otherwise.
\<close>

definition lru_inv :: "(string \<times> addr) set \<Rightarrow> ('l, 'v) lcache \<Rightarrow> bool" where
  "lru_inv E c \<longleftrightarrow>
     (\<forall>(k, a) \<in> E. a < length (c_heap c) \<and> \<not> rc_finalized (c_heap c ! a) \<and> rc_key (c_heap c ! a) = k) \<and>
     (\<forall>a < length (c_heap c). \<not> rc_finalized (c_heap c ! a) \<longrightarrow> (rc_key (c_heap c ! a), a) \<in> E) \<and>
     (\<forall>a < length (c_heap c). rc_refCounts (c_heap c ! a) =
        (if rc_finalized (c_heap c ! a) then 0 else 1) + live a c) \<and>
     (\<forall>d \<in> set (c_dones c). fst d < length (c_heap c)) \<and>
     (\<forall>a. count_list (c_evicted c) a =
        (if a < length (c_heap c) \<and> rc_refCounts (c_heap c ! a) = 0 then 1 else 0))"

lemma live_nonneg [simp]: "0 \<le> live a c"
  by (simp add: live_def)

lemma live_simps [simp]:
  "live a (c\<lparr>c_heap := h\<rparr>) = live a c" "live a (c\<lparr>c_evicted := e\<rparr>) = live a c"
  "live a (c\<lparr>c_inner := l\<rparr>) = live a c"
  by (simp_all add: live_def)

lemma live_arith [simp]:
  "1 + live a c \<noteq> 0" "2 + live a c \<noteq> 0" "\<not> live a c < 0" "live a c \<le> 0 \<longleftrightarrow> live a c = 0"
  using live_nonneg [of a c] by linarith+

lemma live_pos: "h < length (c_dones c) \<Longrightarrow> c_dones c ! h = (a, False) \<Longrightarrow> 1 \<le> live a c"
  by (simp add: live_def Suc_le_eq) (metis (mono_tags, lifting) filter_empty_conv length_greater_0_conv nth_mem)

lemma live_zero_iff: "live a c = 0 \<longleftrightarrow> (\<forall>h < length (c_dones c). c_dones c ! h \<noteq> (a, False))"
  by (auto simp: live_def filter_empty_conv in_set_conv_nth)

lemma live_use:
  assumes "h < length (c_dones c)" and "c_dones c ! h = (a, False)"
  shows "live b (c\<lparr>c_dones := (c_dones c)[h := (a, True)]\<rparr>) = live b c - (if b = a then 1 else 0)"
proof -
  show ?thesis
    using length_filter_update [OF assms(1), of "\<lambda>d. d = (b, False)" "(a, True)"] assms(2) by (auto simp: live_def)
qed

lemma lru_invD:
  assumes "lru_inv E c"
  shows "(k, a) \<in> E \<Longrightarrow> a < length (c_heap c) \<and> \<not> rc_finalized (c_heap c ! a) \<and> rc_key (c_heap c ! a) = k"
    and "a < length (c_heap c) \<Longrightarrow> \<not> rc_finalized (c_heap c ! a) \<Longrightarrow> (rc_key (c_heap c ! a), a) \<in> E"
    and "a < length (c_heap c) \<Longrightarrow>
       rc_refCounts (c_heap c ! a) = (if rc_finalized (c_heap c ! a) then 0 else 1) + live a c"
    and "d \<in> set (c_dones c) \<Longrightarrow> fst d < length (c_heap c)"
    and "count_list (c_evicted c) a =
       (if a < length (c_heap c) \<and> rc_refCounts (c_heap c ! a) = 0 then 1 else 0)"
  using assms unfolding lru_inv_def by blast+

lemma lru_invI:
  assumes "\<And>k a. (k, a) \<in> E \<Longrightarrow>
      a < length (c_heap c) \<and> \<not> rc_finalized (c_heap c ! a) \<and> rc_key (c_heap c ! a) = k"
    and "\<And>a. a < length (c_heap c) \<Longrightarrow> \<not> rc_finalized (c_heap c ! a) \<Longrightarrow> (rc_key (c_heap c ! a), a) \<in> E"
    and "\<And>a. a < length (c_heap c) \<Longrightarrow>
       rc_refCounts (c_heap c ! a) = (if rc_finalized (c_heap c ! a) then 0 else 1) + live a c"
    and "\<And>d. d \<in> set (c_dones c) \<Longrightarrow> fst d < length (c_heap c)"
    and "\<And>a. count_list (c_evicted c) a =
       (if a < length (c_heap c) \<and> rc_refCounts (c_heap c ! a) = 0 then 1 else 0)"
  shows "lru_inv E c"
  unfolding lru_inv_def
proof (intro conjI, goal_cases)
  case 1
  show ?case using assms(1) by blast
next
  case 2
  show ?case using assms(2) by simp
next
  case 3
  show ?case using assms(3) by simp
next
  case 4
  show ?case using assms(4) by simp
next
  case 5
  show ?case using assms(5) by simp
qed

lemma rc_finalize_dones: "c_dones (rc_finalize a c) = c_dones c"
  and rc_finalize_inner: "c_inner (rc_finalize a c) = c_inner c"
  and rc_finalize_upd: "rc_finalize a (c\<lparr>c_dones := ds\<rparr>) = (rc_finalize a c)\<lparr>c_dones := ds\<rparr>"
  by (simp_all add: rc_finalize_def rc_dec_def Let_def)

text \<open>An operation changes one object; the counters of the others do not move.\<close>

lemma inv_update:
  assumes inv: "lru_inv E c" and a: "a < length (c_heap c)"
    and heap: "c_heap c' = (c_heap c)[a := r]" and key: "rc_key r = rc_key (c_heap c ! a)"
    and fin: "rc_finalized (c_heap c ! a) \<Longrightarrow> rc_finalized r"
    and E: "E' = (if rc_finalized r then E - {(rc_key r, a)} else E)"
    and live: "\<And>b. b \<noteq> a \<Longrightarrow> live b c' = live b c"
    and refs: "rc_refCounts r = (if rc_finalized r then 0 else 1) + live a c'"
    and dones: "\<And>d. d \<in> set (c_dones c') \<Longrightarrow> fst d < length (c_heap c)"
    and alive: "rc_refCounts (c_heap c ! a) \<noteq> 0"
    and ev: "c_evicted c' = (if rc_refCounts r = 0 then c_evicted c @ [a] else c_evicted c)"
  shows "lru_inv E' c'"
proof -
  note D = lru_invD [OF inv]
  have len: "length (c_heap c') = length (c_heap c)" using heap by simp
  have at: "c_heap c' ! a = r" using heap a by simp
  have oth: "c_heap c' ! b = c_heap c ! b" if "b \<noteq> a" for b using heap that by simp
  have "b < length (c_heap c') \<and> \<not> rc_finalized (c_heap c' ! b) \<and> rc_key (c_heap c' ! b) = k"
    if "(k, b) \<in> E'" for k b
    using that D(1) [of k b] E key at oth [of b] len by (cases "b = a") (auto split: if_splits)
  moreover have "(rc_key (c_heap c' ! b), b) \<in> E'"
    if "b < length (c_heap c')" "\<not> rc_finalized (c_heap c' ! b)" for b
    using that D(2) [of b] E key at oth [of b] len fin by (cases "b = a") auto
  moreover have "rc_refCounts (c_heap c' ! b) = (if rc_finalized (c_heap c' ! b) then 0 else 1) + live b c'"
    if "b < length (c_heap c')" for b
    using that D(3) [of b] refs at oth [of b] len live [of b] by (cases "b = a") auto
  moreover have "count_list (c_evicted c') b =
      (if b < length (c_heap c') \<and> rc_refCounts (c_heap c' ! b) = 0 then 1 else 0)" for b
    using D(5) [of b] a alive ev at oth [of b] len by (cases "b = a") simp_all
  moreover have "fst d < length (c_heap c')" if "d \<in> set (c_dones c')" for d
    using dones [OF that] len by simp
  ultimately show ?thesis by (intro lru_invI) simp_all
qed

lemma inv_finalize:
  assumes "lru_inv E c" and "(k, a) \<in> E"
  shows "lru_inv (E - {(k, a)}) (rc_finalize a c)"
proof -
  note D = lru_invD [OF assms(1)]
  let ?n = "rc_refCounts (c_heap c ! a)"
  let ?r = "(c_heap c ! a)\<lparr>rc_finalized := True, rc_refCounts := ?n - 1\<rparr>"
  have a: "a < length (c_heap c)" "\<not> rc_finalized (c_heap c ! a)" "rc_key (c_heap c ! a) = k"
    using D(1) [OF assms(2)] by auto
  then have n: "?n = 1 + live a c" using D(3) by simp
  have live: "live b (rc_finalize a c) = live b c" for b
    by (simp add: rc_finalize_def rc_dec_def Let_def)
  show ?thesis
    by (rule inv_update [OF assms(1) a(1), where r = ?r])
       (use a n D(4) in \<open>simp_all add: live rc_finalize_dones,
          simp_all add: rc_finalize_def rc_dec_def Let_def\<close>)
qed

lemma inv_finalize_all:
  assumes "lru_inv E c" and "distinct es" and "set es \<subseteq> E"
  shows "lru_inv (E - set es) (finalize_all es c)"
  using assms
proof (induction es arbitrary: E c)
  case Nil
  then show ?case by (simp add: finalize_all_def)
next
  case (Cons e es)
  have "lru_inv (E - {(fst e, snd e)}) (rc_finalize (snd e) c)"
    using Cons.prems by (intro inv_finalize) auto
  then have "lru_inv (E - {e} - set es) (finalize_all es (rc_finalize (snd e) c))"
    using Cons.prems by (intro Cons.IH) auto
  then show ?case by (simp add: finalize_all_def set_diff_eq Diff_insert2 [symmetric])
qed

lemma inv_hold:
  assumes "lru_inv E c" and "(k, a) \<in> E"
  shows "lru_inv E (fst (decreaseOnceFunc a (rc_inc a c)))"
proof -
  note D = lru_invD [OF assms(1)]
  let ?r = "(c_heap c ! a)\<lparr>rc_refCounts := rc_refCounts (c_heap c ! a) + 1\<rparr>"
  have a: "a < length (c_heap c)" "\<not> rc_finalized (c_heap c ! a)"
    using D(1) [OF assms(2)] by auto
  then have n: "rc_refCounts (c_heap c ! a) = 1 + live a c" using D(3) by simp
  have live: "live b (fst (decreaseOnceFunc a (rc_inc a c))) = live b c + (if b = a then 1 else 0)" for b
    by (simp add: decreaseOnceFunc_def rc_inc_def live_def)
  have ds: "c_dones (fst (decreaseOnceFunc a (rc_inc a c))) = c_dones c @ [(a, False)]"
    by (simp add: decreaseOnceFunc_def rc_inc_def)
  show ?thesis
    by (rule inv_update [OF assms(1) a(1), where r = ?r])
       (use a n D(4) live_nonneg [of a c] in \<open>auto simp add: live ds,
        simp_all add: decreaseOnceFunc_def rc_inc_def\<close>)
qed

lemma inv_done:
  assumes "lru_inv E c" and "h < length (c_dones c)"
  shows "lru_inv E (call_done h c)"
proof (cases "snd (c_dones c ! h)")
  case True
  then show ?thesis using assms(1) by (cases "c_dones c ! h") (simp add: call_done_def)
next
  case False
  note D = lru_invD [OF assms(1)]
  let ?a = "fst (c_dones c ! h)"
  let ?n = "rc_refCounts (c_heap c ! ?a)"
  let ?r = "(c_heap c ! ?a)\<lparr>rc_refCounts := ?n - 1\<rparr>"
  have h: "c_dones c ! h = (?a, False)" using False by (cases "c_dones c ! h") auto
  have a: "?a < length (c_heap c)" using D(4) assms(2) by simp
  have eq: "call_done h c = rc_dec ?a (c\<lparr>c_dones := (c_dones c)[h := (?a, True)]\<rparr>)"
    using h by (cases "c_dones c ! h") (simp add: call_done_def)
  have ds: "c_dones (call_done h c) = (c_dones c)[h := (?a, True)]"
    unfolding eq by (simp add: rc_dec_def Let_def)
  have live: "live b (call_done h c) = live b c - (if b = ?a then 1 else 0)" for b
    using live_use [OF assms(2) h] ds by (simp add: live_def)
  have "1 \<le> live ?a c" using live_pos [OF assms(2) h] .
  moreover have "d \<in> set (c_dones (call_done h c)) \<Longrightarrow> fst d < length (c_heap c)" for d
    unfolding ds using a D(4) set_update_subset_insert by fastforce
  moreover have "\<not> rc_finalized (c_heap c ! ?a) \<or> E = E - {(rc_key (c_heap c ! ?a), ?a)}"
    using D(1) by blast
  ultimately show ?thesis
    using a D(3) [OF a]
    by (intro inv_update [OF assms(1) a, where r = ?r])
       (simp_all add: live, auto simp add: eq rc_dec_def Let_def)
qed

text \<open>Making the client's handle and finalizing the evicted entries commute.\<close>

lemma finalize_all_dones:
  "finalize_all es (c\<lparr>c_dones := ds\<rparr>) = (finalize_all es c)\<lparr>c_dones := ds\<rparr>"
  unfolding finalize_all_def by (induction es arbitrary: c) (simp_all add: rc_finalize_upd)

lemma inner_finalize_all [simp]: "c_inner (finalize_all es c) = c_inner c"
  unfolding finalize_all_def by (induction es arbitrary: c) (simp_all add: rc_finalize_inner)

lemma dones_finalize_all [simp]: "c_dones (finalize_all es c) = c_dones c"
  unfolding finalize_all_def by (induction es arbitrary: c) (simp_all add: rc_finalize_dones)

lemma inv_fresh:
  assumes "lru_inv E c" and "\<forall>b. (k, b) \<notin> E"
  shows "lru_inv (insert (k, length (c_heap c)) E)
    (c\<lparr>c_heap := c_heap c @ [\<lparr>rc_key = k, rc_v = v, rc_refCounts = 2, rc_finalized = False\<rparr>],
       c_inner := l, c_dones := c_dones c @ [(length (c_heap c), False)]\<rparr>)" (is "lru_inv _ ?c")
proof -
  note D = lru_invD [OF assms(1)]
  have none: "live (length (c_heap c)) c = 0"
    using D(4) by (auto simp: live_zero_iff) (metis fst_conv nat_neq_iff nth_mem)
  have live: "live b ?c = live b c + (if b = length (c_heap c) then 1 else 0)" for b
    by (simp add: live_def)
  show ?thesis
    unfolding lru_inv_def live
    using D none by (auto simp: nth_append less_Suc_eq)
qed

lemma lru_inv_inner [simp]: "lru_inv E (c\<lparr>c_inner := l\<rparr>) = lru_inv E c"
  by (simp add: lru_inv_def live_def)

section \<open>The contract of the inner cache\<close>

text \<open>
  A lookup returns the entry and keeps all of them. Adding a key that is not present makes the
  new entry, and some entries leave: exactly those reported evicted, each once. Removing a key
  takes its entry out and reports it.
\<close>

locale inner_lru =
  fixes ops :: "'l lru_ops" and ok :: "'l \<Rightarrow> bool" and entries :: "'l \<Rightarrow> (string \<times> addr) set"
  assumes keys: "ok l \<Longrightarrow> (k, a) \<in> entries l \<Longrightarrow> (k, b) \<in> entries l \<Longrightarrow> a = b"
    and get_entries: "ok l \<Longrightarrow> l_get ops l k = (l', r) \<Longrightarrow> ok l' \<and> entries l' = entries l"
    and get_Some: "ok l \<Longrightarrow> l_get ops l k = (l', Some a) \<Longrightarrow> (k, a) \<in> entries l"
    and get_None: "ok l \<Longrightarrow> l_get ops l k = (l', None) \<Longrightarrow> (k, a) \<notin> entries l"
    and add_ok: "ok l \<Longrightarrow> \<forall>b. (k, b) \<notin> entries l \<Longrightarrow> l_add ops l k a = (l', es) \<Longrightarrow>
       ok l' \<and> entries l' = insert (k, a) (entries l) - set es \<and> distinct es \<and>
       set es \<subseteq> insert (k, a) (entries l)"
    and remove_ok: "ok l \<Longrightarrow> l_remove ops l k = (l', es) \<Longrightarrow>
       ok l' \<and> entries l' = entries l - set es \<and> distinct es \<and> set es \<subseteq> entries l \<and>
       (\<forall>b. (k, b) \<notin> entries l')"
begin

lemma inv_Get:
  assumes "ok (c_inner c)" and "lru_inv (entries (c_inner c)) c"
  shows "ok (c_inner (fst (lru_Get ops key c)))"
    and "lru_inv (entries (c_inner (fst (lru_Get ops key c)))) (fst (lru_Get ops key c))"
proof -
  obtain l r where g: "l_get ops (c_inner c) key = (l, r)" by (cases "l_get ops (c_inner c) key")
  note e = get_entries [OF assms(1) g]
  have "ok (c_inner (fst (lru_Get ops key c))) \<and>
      lru_inv (entries (c_inner (fst (lru_Get ops key c)))) (fst (lru_Get ops key c))"
  proof (cases r)
    case None
    then show ?thesis using g e assms(2) by (simp add: lru_Get_def)
  next
    case (Some a)
    then have m: "(key, a) \<in> entries (c_inner c)" using get_Some [OF assms(1)] g by blast
    show ?thesis
      using g e Some inv_hold [of "entries (c_inner c)" "c\<lparr>c_inner := l\<rparr>", OF _ m] assms(2)
      by (simp add: lru_Get_def decreaseOnceFunc_def rc_inc_def)
  qed
  then show "ok (c_inner (fst (lru_Get ops key c)))"
    and "lru_inv (entries (c_inner (fst (lru_Get ops key c)))) (fst (lru_Get ops key c))" by auto
qed

lemma inv_Add:
  assumes "ok (c_inner c)" and "lru_inv (entries (c_inner c)) c"
  shows "ok (c_inner (fst (lru_Add ops key v c))) \<and>
    lru_inv (entries (c_inner (fst (lru_Add ops key v c)))) (fst (lru_Add ops key v c))"
proof -
  obtain l r where g: "l_get ops (c_inner c) key = (l, r)" by (cases "l_get ops (c_inner c) key")
  note e = get_entries [OF assms(1) g]
  show ?thesis
  proof (cases r)
    case (Some a)
    then have "fst (lru_Add ops key v c) = fst (lru_Get ops key c)"
      using g by (simp add: lru_Add_def lru_Get_def decreaseOnceFunc_def)
    then show ?thesis using inv_Get [OF assms] by simp
  next
    case None
    let ?a = "length (c_heap c)"
    obtain l' es where d: "l_add ops l key ?a = (l', es)" by (cases "l_add ops l key ?a")
    have nk: "\<forall>b. (key, b) \<notin> entries (c_inner c)" using get_None [OF assms(1)] g None by blast
    note d' = add_ok [OF conjunct1 [OF e] _ d]
    let ?c = "c\<lparr>c_heap := c_heap c @ [\<lparr>rc_key = key, rc_v = v, rc_refCounts = 2, rc_finalized = False\<rparr>],
       c_inner := l', c_dones := c_dones c @ [(?a, False)]\<rparr>"
    have "lru_inv (insert (key, ?a) (entries (c_inner c)) - set es) (finalize_all es ?c)"
      using inv_finalize_all [OF inv_fresh [OF assms(2) nk, where v = v and l = l']] d' e nk by simp
    moreover have "fst (lru_Add ops key v c) = finalize_all es ?c"
      using g d None finalize_all_dones [where es = es and c = "c\<lparr>c_heap := c_heap c @ [\<lparr>rc_key = key, rc_v = v,
          rc_refCounts = 2, rc_finalized = False\<rparr>], c_inner := l'\<rparr>"]
      by (simp add: lru_Add_def decreaseOnceFunc_def Let_def rc_inc_def)
    ultimately show ?thesis using d' e nk by simp
  qed
qed

lemma inv_Remove:
  assumes "ok (c_inner c)" and "lru_inv (entries (c_inner c)) c"
  shows "ok (c_inner (lru_Remove ops key c)) \<and>
    lru_inv (entries (c_inner (lru_Remove ops key c))) (lru_Remove ops key c)"
proof -
  obtain l es where r: "l_remove ops (c_inner c) key = (l, es)" by (cases "l_remove ops (c_inner c) key")
  then show ?thesis
    using remove_ok [OF assms(1) r] inv_finalize_all [of "entries (c_inner c)" "c\<lparr>c_inner := l\<rparr>" es] assms(2)
    by (simp add: lru_Remove_def)
qed

lemma inv_step:
  "lru_step ops c c' \<Longrightarrow> ok (c_inner c) \<and> lru_inv (entries (c_inner c)) c \<Longrightarrow>
   ok (c_inner c') \<and> lru_inv (entries (c_inner c')) c'"
proof (induction rule: lru_step.induct)
  case (step_done h c)
  have "c_inner (call_done h c) = c_inner c"
    by (simp add: call_done_def rc_dec_def Let_def split: prod.split)
  then show ?case using step_done inv_done by metis
qed (auto simp: inv_Get inv_Add inv_Remove)

lemma inv_reachable:
  assumes "(lru_step ops)\<^sup>*\<^sup>* (New inner) c" and "ok inner" and "entries inner = {}"
  shows "ok (c_inner c) \<and> lru_inv (entries (c_inner c)) c"
  using assms(1)
proof (induction rule: rtranclp_induct)
  case base
  show ?case using assms(2,3) by (simp add: New_def lru_inv_def live_def)
qed (use inv_step in blast)

end

text \<open>Reference counting does not touch the values.\<close>

lemma rc_v_done [simp]: "rc_v (c_heap (call_done h c) ! a) = rc_v (c_heap c ! a)"
  by (simp add: call_done_def rc_dec_def Let_def nth_upd split: prod.split)

lemma c_inner_done [simp]: "c_inner (call_done h c) = c_inner c"
  by (simp add: call_done_def rc_dec_def Let_def split: prod.split)

section \<open>An LRU list\<close>

text \<open>
  The documented behaviour of groupcache/lru as a function: a list with the most recently used
  entry first, and a maximum (0 for none) above which the last entry is evicted.
\<close>

definition list_get :: "nat \<times> (string \<times> addr) list \<Rightarrow> string \<Rightarrow> (nat \<times> (string \<times> addr) list) \<times> addr option" where
  "list_get l k = (case map_of (snd l) k of None \<Rightarrow> (l, None)
     | Some a \<Rightarrow> ((fst l, (k, a) # filter (\<lambda>e. fst e \<noteq> k) (snd l)), Some a))"

definition list_add :: "nat \<times> (string \<times> addr) list \<Rightarrow> string \<Rightarrow> addr \<Rightarrow> (nat \<times> (string \<times> addr) list) \<times> (string \<times> addr) list" where
  "list_add l k a =
     (let es = (k, a) # snd l in
      if fst l \<noteq> 0 \<and> fst l < length es then ((fst l, butlast es), [last es]) else ((fst l, es), []))"

definition list_remove :: "nat \<times> (string \<times> addr) list \<Rightarrow> string \<Rightarrow> (nat \<times> (string \<times> addr) list) \<times> (string \<times> addr) list" where
  "list_remove l k = ((fst l, filter (\<lambda>e. fst e \<noteq> k) (snd l)), filter (\<lambda>e. fst e = k) (snd l))"

definition list_lru :: "(nat \<times> (string \<times> addr) list) lru_ops" where
  "list_lru = \<lparr>l_get = list_get, l_add = list_add, l_remove = list_remove\<rparr>"

definition list_ok :: "nat \<times> (string \<times> addr) list \<Rightarrow> bool" where
  "list_ok l \<longleftrightarrow> distinct (map fst (snd l))"

lemma butlast_last_split:
  "xs \<noteq> [] \<Longrightarrow> distinct xs \<Longrightarrow> set (butlast xs) = set xs - {last xs}"
  by (induction xs rule: rev_induct) auto

interpretation lru_list: inner_lru list_lru list_ok "\<lambda>l. set (snd l)"
proof (unfold_locales, goal_cases)
  case (1 l k a b)
  then show ?case by (auto simp: list_ok_def dest: eq_key_imp_eq_value)
next
  case (2 l k l' r)
  have "distinct (map fst (filter (\<lambda>e. fst e \<noteq> k) (snd l)))"
    using 2(1) by (simp add: list_ok_def distinct_map_filter)
  moreover have "set (filter (\<lambda>e. fst e \<noteq> k) (snd l)) \<union> {(k, a)} = set (snd l)" if "map_of (snd l) k = Some a" for a
    using that 2(1) by (auto simp: list_ok_def dest: map_of_SomeD) (metis map_of_eq_Some_iff option.inject)+
  ultimately show ?case
    using 2 by (auto simp: list_lru_def list_get_def list_ok_def split: option.splits)
next
  case (3 l k l' a)
  then show ?case by (auto simp: list_lru_def list_get_def dest: map_of_SomeD split: option.splits)
next
  case (4 l k l' a)
  then show ?case by (auto simp: list_lru_def list_get_def map_of_eq_None_iff rev_image_eqI split: option.splits)
next
  case (5 l k a l' es)
  let ?es = "(k, a) # snd l"
  have d: "distinct (map fst ?es)" using 5(1,2) by (auto simp: list_ok_def)
  then have "distinct ?es" by (simp only: distinct_map)
  moreover have "distinct (map fst (butlast ?es))"
    unfolding map_butlast by (rule distinct_butlast [OF d])
  ultimately show ?case
    using 5(3) d butlast_last_split [of ?es] last_in_set [of ?es]
    by (auto simp: list_lru_def list_add_def list_ok_def Let_def simp del: butlast.simps last.simps split: if_splits)
next
  case (6 l k l' es)
  then have "distinct (snd l)" by (simp add: list_ok_def distinct_map)
  then show ?case using 6 by (auto simp: list_lru_def list_remove_def list_ok_def distinct_map_filter)
qed

section \<open>Property\<close>

text \<open>
  C11: whatever clients do, \<^verbatim>\<open>OnEvicted\<close> has run on a value exactly once if the value has
  left the cache and every handle to it is released, and has not run on it before that.
\<close>

theorem evicted_exactly_once:
  assumes "inner_lru ops ok entries" and "ok inner" and "entries inner = {}"
    and "(lru_step ops)\<^sup>*\<^sup>* (New inner) c" and "a < length (c_heap c)"
  shows "count_list (c_evicted c) a =
    (if (\<exists>k. (k, a) \<in> entries (c_inner c)) \<or>
        (\<exists>h < length (c_dones c). c_dones c ! h = (a, False)) then 0 else 1)"
proof -
  have inv: "lru_inv (entries (c_inner c)) c"
    using inner_lru.inv_reachable [OF assms(1,4,2,3)] by simp
  note D = lru_invD [OF inv]
  have "(\<exists>k. (k, a) \<in> entries (c_inner c)) \<longleftrightarrow> \<not> rc_finalized (c_heap c ! a)"
    using D(1) [of _ a] D(2) [OF assms(5)] by blast
  moreover have "(\<exists>h < length (c_dones c). c_dones c ! h = (a, False)) \<longleftrightarrow> live a c \<noteq> 0"
    using live_zero_iff [of a c] by blast
  ultimately show ?thesis using D(3) [OF assms(5)] D(5) [of a] assms(5) by simp
qed

text \<open>One entry fits: adding a second value evicts the first, which a client still holds.\<close>

definition held_and_evicted :: "(nat \<times> (string \<times> addr) list, nat) lcache" where
  "held_and_evicted = fst (lru_Add list_lru ''b'' 8 (fst (lru_Add list_lru ''a'' 7 (New (1, [])))))"

theorem evicted_exactly_once_witness:
  "0 < length (c_heap held_and_evicted) \<and> (\<forall>k. (k, 0) \<notin> set (snd (c_inner held_and_evicted))) \<and>
   count_list (c_evicted held_and_evicted) 0 = 0"
proof -
  have r: "(lru_step list_lru)\<^sup>*\<^sup>* (New (1, [])) held_and_evicted"
    unfolding held_and_evicted_def
    by (rule rtranclp.rtrancl_into_rtrancl [OF rtranclp.rtrancl_into_rtrancl [OF rtranclp.rtrancl_refl]])
       (rule step_add)+
  have c: "held_and_evicted = \<lparr>c_inner = (1, [(''b'', 1)]),
      c_heap = [\<lparr>rc_key = ''a'', rc_v = 7, rc_refCounts = 1, rc_finalized = True\<rparr>,
                \<lparr>rc_key = ''b'', rc_v = 8, rc_refCounts = 2, rc_finalized = False\<rparr>],
      c_dones = [(0, False), (1, False)], c_evicted = []\<rparr>"
    by (simp add: held_and_evicted_def lru_Add_def list_lru_def list_get_def list_add_def New_def
        rc_inc_def finalize_all_def rc_finalize_def rc_dec_def decreaseOnceFunc_def Let_def)
  show ?thesis
    using evicted_exactly_once [OF lru_list.inner_lru_axioms _ _ r, of 0]
    by (simp add: c list_ok_def)
qed

end
