(* ===== verification/Blob_Cache.thy ===== *)
theory Blob_Cache
  imports Lru_Cache
begin

text \<open>
  The caches of byte data, \<^verbatim>\<open>cache/cache.go\<close>: \<^verbatim>\<open>directoryCache\<close> with its in-memory LRU caches of
  data and of open files in front of a directory, and \<^verbatim>\<open>MemoryCache\<close>. Files are inodes, so
  that an open file keeps its contents when another file is renamed over its name; the buffers
  of the data cache are values, which \<^verbatim>\<open>evicted_exactly_once\<close> of \<^verbatim>\<open>Lru_Cache\<close> justifies: a
  buffer goes back to the pool only when nobody refers to it. Each operation takes the
  outcomes of the system calls it makes.
\<close>

section \<open>Types\<close>

datatype cache_error =
    CacheClosed
  | OpenFailed string
  | CreateTempFailed
  | WriteFailed
  | MkdirFailed
  | RenameFailed
  | MissedCache string

record os_outcome =
  os_create :: bool
  os_write :: bool
  os_mkdir :: bool
  os_rename :: bool
  os_open :: bool

definition os_good :: os_outcome where
  "os_good = \<lparr>os_create = True, os_write = True, os_mkdir = True, os_rename = True, os_open = True\<rparr>"

type_synonym inode = nat

record 'l directoryCache =
  dc_cache :: "('l, bytes) lcache"
  dc_fileCache :: "('l, inode) lcache"
  dc_names :: "string \<rightharpoonup> inode"
  dc_inodes :: "bytes list"
  dc_syncAdd :: bool
  dc_direct :: bool
  dc_closed :: bool

text \<open>A reader, with the handle or file its \<^verbatim>\<open>closeFunc\<close> releases.\<close>

datatype reader =
    MemReader nat bytes
  | FdReader nat inode
  | FileReader string inode bool

text \<open>A writer: of a work-in-progress file, or of a buffer in front of one.\<close>

datatype writer =
    FileWriter string inode
  | MemWriter string inode bytes

section \<open>The directory cache\<close>

definition NewDirectoryCache :: "'l \<Rightarrow> 'l \<Rightarrow> bool \<Rightarrow> bool \<Rightarrow> 'l directoryCache" where
  "NewDirectoryCache l1 l2 syncAdd direct =
     \<lparr>dc_cache = New l1, dc_fileCache = New l2, dc_names = Map.empty, dc_inodes = [],
      dc_syncAdd = syncAdd, dc_direct = direct, dc_closed = False\<rparr>"

definition dc_open :: "os_outcome \<Rightarrow> string \<Rightarrow> 'l directoryCache \<Rightarrow> inode option" where
  "dc_open os key dc = (if os_open os then dc_names dc key else None)"

definition dc_Get ::
    "'l lru_ops \<Rightarrow> os_outcome \<Rightarrow> bool \<Rightarrow> string \<Rightarrow> 'l directoryCache \<Rightarrow>
     'l directoryCache \<times> (cache_error + reader)" where
  "dc_Get ops os direct key dc =
     (if dc_closed dc then (dc, Inl CacheClosed)
      else if dc_direct dc \<or> direct
      then (case dc_open os key dc of
              None \<Rightarrow> (dc, Inl (OpenFailed key))
            | Some file \<Rightarrow> (dc, Inr (FileReader key file True)))
      else (case lru_Get ops key (dc_cache dc) of
          (m, Some (b, h)) \<Rightarrow> (dc\<lparr>dc_cache := m\<rparr>, Inr (MemReader h b))
        | (m, None) \<Rightarrow>
            (case lru_Get ops key (dc_fileCache dc) of
               (fc, Some (f, h)) \<Rightarrow> (dc\<lparr>dc_cache := m, dc_fileCache := fc\<rparr>, Inr (FdReader h f))
             | (fc, None) \<Rightarrow>
                 (case dc_open os key dc of
                    None \<Rightarrow> (dc\<lparr>dc_cache := m, dc_fileCache := fc\<rparr>, Inl (OpenFailed key))
                  | Some file \<Rightarrow>
                      (dc\<lparr>dc_cache := m, dc_fileCache := fc\<rparr>, Inr (FileReader key file False))))))"

fun reader_bytes :: "'l directoryCache \<Rightarrow> reader \<Rightarrow> bytes" where
  "reader_bytes dc (MemReader h b) = b"
| "reader_bytes dc (FdReader h f) = dc_inodes dc ! f"
| "reader_bytes dc (FileReader key file d) = dc_inodes dc ! file"

fun reader_Close :: "'l lru_ops \<Rightarrow> reader \<Rightarrow> 'l directoryCache \<Rightarrow> 'l directoryCache" where
  "reader_Close ops (MemReader h b) dc = dc\<lparr>dc_cache := call_done h (dc_cache dc)\<rparr>"
| "reader_Close ops (FdReader h f) dc = dc\<lparr>dc_fileCache := call_done h (dc_fileCache dc)\<rparr>"
| "reader_Close ops (FileReader key file d) dc =
     (if d then dc
      else (case lru_Add ops key file (dc_fileCache dc) of
              (fc, _, h, added) \<Rightarrow> dc\<lparr>dc_fileCache := call_done h fc\<rparr>))"

definition dc_Add ::
    "os_outcome \<Rightarrow> bool \<Rightarrow> string \<Rightarrow> 'l directoryCache \<Rightarrow> 'l directoryCache \<times> (cache_error + writer)" where
  "dc_Add os direct key dc =
     (if dc_closed dc then (dc, Inl CacheClosed)
      else if \<not> os_create os then (dc, Inl CreateTempFailed)
      else (let wip = length (dc_inodes dc); dc' = dc\<lparr>dc_inodes := dc_inodes dc @ [[]]\<rparr>
            in (dc', Inr (if dc_direct dc \<or> direct then FileWriter key wip else MemWriter key wip []))))"

definition append_inode :: "inode \<Rightarrow> bytes \<Rightarrow> 'l directoryCache \<Rightarrow> 'l directoryCache" where
  "append_inode wip p dc = dc\<lparr>dc_inodes := (dc_inodes dc)[wip := dc_inodes dc ! wip @ p]\<rparr>"

fun w_Write ::
    "os_outcome \<Rightarrow> writer \<Rightarrow> bytes \<Rightarrow> 'l directoryCache \<Rightarrow> 'l directoryCache \<times> writer \<times> cache_error option" where
  "w_Write os (FileWriter key wip) p dc =
     (if os_write os then (append_inode wip p dc, FileWriter key wip, None)
      else (dc, FileWriter key wip, Some WriteFailed))"
| "w_Write os (MemWriter key wip b) p dc = (dc, MemWriter key wip (b @ p), None)"

definition file_commit ::
    "os_outcome \<Rightarrow> string \<Rightarrow> inode \<Rightarrow> 'l directoryCache \<Rightarrow> 'l directoryCache \<times> cache_error option" where
  "file_commit os key wip dc =
     (if dc_closed dc then (dc, Some CacheClosed)
      else if \<not> os_mkdir os then (dc, Some MkdirFailed)
      else if \<not> os_rename os then (dc, Some RenameFailed)
      else (dc\<lparr>dc_names := (dc_names dc)(key \<mapsto> wip)\<rparr>, None))"

text \<open>
  The closure \<^verbatim>\<open>commit\<close> of a buffered writer, which runs at once with \<^verbatim>\<open>syncAdd\<close> and in a
  goroutine of its own otherwise.
\<close>

record commit_job =
  job_key :: string
  job_wip :: inode
  job_done :: nat
  job_cached :: bytes

definition run_commit ::
    "os_outcome \<Rightarrow> commit_job \<Rightarrow> 'l directoryCache \<Rightarrow> 'l directoryCache \<times> cache_error option" where
  "run_commit os j dc =
     (case (if os_write os
            then file_commit os (job_key j) (job_wip j) (append_inode (job_wip j) (job_cached j) dc)
            else (dc, Some WriteFailed)) of
        (dc', e) \<Rightarrow> (dc'\<lparr>dc_cache := call_done (job_done j) (dc_cache dc')\<rparr>, e))"

fun w_Commit ::
    "'l lru_ops \<Rightarrow> os_outcome \<Rightarrow> writer \<Rightarrow> 'l directoryCache \<Rightarrow>
     'l directoryCache \<times> cache_error option \<times> commit_job option" where
  "w_Commit ops os (FileWriter key wip) dc =
     (case file_commit os key wip dc of (dc', e) \<Rightarrow> (dc', e, None))"
| "w_Commit ops os (MemWriter key wip b) dc =
     (if dc_closed dc then (dc, Some CacheClosed, None)
      else (case lru_Add ops key b (dc_cache dc) of
          (m, cached, h, added) \<Rightarrow>
            (let j = \<lparr>job_key = key, job_wip = wip, job_done = h, job_cached = cached\<rparr>;
                 dc' = dc\<lparr>dc_cache := m\<rparr>
             in if dc_syncAdd dc
                then (case run_commit os j dc' of (dc'', e) \<Rightarrow> (dc'', e, None))
                else (dc', None, Some j))))"

text \<open>\<^verbatim>\<open>Abort\<close> removes the work-in-progress file, which has no name in the cache directory.\<close>

definition w_Abort :: "writer \<Rightarrow> 'l directoryCache \<Rightarrow> 'l directoryCache" where
  "w_Abort w dc = dc"

definition dc_Close :: "'l directoryCache \<Rightarrow> 'l directoryCache" where
  "dc_Close dc = (if dc_closed dc then dc else dc\<lparr>dc_closed := True, dc_names := Map.empty\<rparr>)"

section \<open>The memory cache\<close>

record memoryCache =
  Membuf :: "string \<rightharpoonup> bytes"

definition NewMemoryCache :: memoryCache where
  "NewMemoryCache = \<lparr>Membuf = Map.empty\<rparr>"

definition mc_Get :: "string \<Rightarrow> memoryCache \<Rightarrow> cache_error + bytes" where
  "mc_Get key mc = (case Membuf mc key of None \<Rightarrow> Inl (MissedCache key) | Some b \<Rightarrow> Inr b)"

text \<open>The writer is the key and the buffer written so far.\<close>

definition mc_Add :: "string \<Rightarrow> memoryCache \<Rightarrow> cache_error + (string \<times> bytes)" where
  "mc_Add key mc = Inr (key, [])"

definition mc_Write :: "string \<times> bytes \<Rightarrow> bytes \<Rightarrow> string \<times> bytes" where
  "mc_Write w p = (fst w, snd w @ p)"

definition mc_Commit :: "string \<times> bytes \<Rightarrow> memoryCache \<Rightarrow> memoryCache" where
  "mc_Commit w mc = mc\<lparr>Membuf := (Membuf mc)(fst w \<mapsto> snd w)\<rparr>"

section \<open>The interface\<close>

text \<open>
  \<^verbatim>\<open>BlobCache\<close> and its \<^verbatim>\<open>Writer\<close>, as the methods of an implementation with state \<open>'c\<close> and
  writers \<open>'w\<close>; \<open>co_Get\<close> returns what the reader reads.
\<close>

record ('c, 'w) cache_ops =
  co_Add :: "string \<Rightarrow> 'c \<Rightarrow> 'c \<times> (cache_error + 'w)"
  co_Write :: "'w \<Rightarrow> bytes \<Rightarrow> 'c \<Rightarrow> 'c \<times> 'w \<times> cache_error option"
  co_Commit :: "'w \<Rightarrow> 'c \<Rightarrow> 'c \<times> cache_error option"
  co_Abort :: "'w \<Rightarrow> 'c \<Rightarrow> 'c"
  co_Get :: "string \<Rightarrow> 'c \<Rightarrow> 'c \<times> (cache_error + bytes)"

definition mem_ops :: "(memoryCache, string \<times> bytes) cache_ops" where
  "mem_ops = \<lparr>co_Add = \<lambda>k c. (c, mc_Add k c), co_Write = \<lambda>w p c. (c, mc_Write w p, None),
     co_Commit = \<lambda>w c. (mc_Commit w c, None), co_Abort = \<lambda>w c. c, co_Get = \<lambda>k c. (c, mc_Get k c)\<rparr>"

text \<open>A directory cache used with the option \<^verbatim>\<open>Direct\<close> or not; its jobs run at once.\<close>

definition dir_ops :: "'l lru_ops \<Rightarrow> os_outcome \<Rightarrow> bool \<Rightarrow> ('l directoryCache, writer) cache_ops" where
  "dir_ops ops os direct =
     \<lparr>co_Add = dc_Add os direct,
      co_Write = w_Write os,
      co_Commit = (\<lambda>w dc. case w_Commit ops os w dc of
         (dc', e, None) \<Rightarrow> (dc', e) | (dc', e, Some j) \<Rightarrow> (fst (run_commit os j dc'), e)),
      co_Abort = w_Abort,
      co_Get = (\<lambda>k dc. case dc_Get ops os direct k dc of
         (dc', Inl e) \<Rightarrow> (dc', Inl e)
       | (dc', Inr r) \<Rightarrow> (reader_Close ops r dc', Inr (reader_bytes dc' r)))\<rparr>"

text \<open>
  What clients rely on: a committed write is what a lookup returns from then on, and nothing
  else changes the contents. \<open>contents\<close> is the abstract state, a map from keys to data.
\<close>

locale blob_cache =
  fixes ops :: "('c, 'w) cache_ops" and ok :: "'c \<Rightarrow> bool" and contents :: "'c \<Rightarrow> string \<rightharpoonup> bytes"
  assumes add_fails: "ok c \<Longrightarrow> co_Add ops k c = (c1, Inl e) \<Longrightarrow> ok c1 \<and> contents c1 = contents c"
    and write_fails: "ok c \<Longrightarrow> co_Add ops k c = (c1, Inr w) \<Longrightarrow> co_Write ops w p c1 = (c2, w', Some e) \<Longrightarrow>
        ok (co_Abort ops w' c2) \<and> contents (co_Abort ops w' c2) = contents c"
    and commits: "ok c \<Longrightarrow> co_Add ops k c = (c1, Inr w) \<Longrightarrow> co_Write ops w p c1 = (c2, w', None) \<Longrightarrow>
        \<exists>c3. co_Commit ops w' c2 = (c3, None) \<and> ok c3 \<and> contents c3 = (contents c)(k \<mapsto> p)"
    and get_keeps: "ok c \<Longrightarrow> co_Get ops k c = (c', r) \<Longrightarrow> ok c' \<and> contents c' = contents c"
    and get_sound: "ok c \<Longrightarrow> co_Get ops k c = (c', Inr b) \<Longrightarrow> contents c k = Some b"

text \<open>A cache whose backing store does not fail also finds what it holds.\<close>

locale live_blob_cache = blob_cache +
  assumes add_works: "ok c \<Longrightarrow> \<exists>c1 w c2 w'. co_Add ops k c = (c1, Inr w) \<and> co_Write ops w p c1 = (c2, w', None)"
    and get_complete: "ok c \<Longrightarrow> contents c k = Some b \<Longrightarrow> \<exists>c'. co_Get ops k c = (c', Inr b)"

interpretation mem_cache: live_blob_cache mem_ops "\<lambda>c. True" Membuf
  by unfold_locales
     (auto simp: mem_ops_def mc_Add_def mc_Write_def mc_Commit_def mc_Get_def split: option.splits)

definition dir_ok :: "'l directoryCache \<Rightarrow> bool" where
  "dir_ok dc \<longleftrightarrow> \<not> dc_closed dc \<and> (\<forall>k i. dc_names dc k = Some i \<longrightarrow> i < length (dc_inodes dc))"

definition dir_contents :: "'l directoryCache \<Rightarrow> string \<rightharpoonup> bytes" where
  "dir_contents dc = (\<lambda>k. map_option (\<lambda>i. dc_inodes dc ! i) (dc_names dc k))"

lemma dir_contents_append:
  "dir_ok dc \<Longrightarrow> dir_contents (dc\<lparr>dc_inodes := dc_inodes dc @ [x]\<rparr>) = dir_contents dc"
  by (rule ext) (auto simp: dir_contents_def dir_ok_def nth_append map_option_case split: option.splits)

lemma direct_store:
  assumes "dir_ok dc"
  shows "dir_contents (dc\<lparr>dc_inodes := dc_inodes dc @ [p],
      dc_names := (dc_names dc)(k \<mapsto> length (dc_inodes dc))\<rparr>) = (dir_contents dc)(k \<mapsto> p)"
  using assms
  by (intro ext)
     (auto simp: dir_contents_def dir_ok_def nth_append list_update_append map_option_case split: option.splits)

lemma dir_ok_append: "dir_ok dc \<Longrightarrow> dir_ok (dc\<lparr>dc_inodes := dc_inodes dc @ [x]\<rparr>)"
  by (auto simp: dir_ok_def less_SucI)

text \<open>The directory cache in direct mode keeps the contract if files can be renamed into place.\<close>

interpretation dir_faulty:
  blob_cache "dir_ops ops (os\<lparr>os_mkdir := True, os_rename := True\<rparr>) True" dir_ok dir_contents for ops os
proof (unfold_locales, goal_cases)
  case (1 c k c1 e)
  then show ?case by (auto simp: dir_ops_def dc_Add_def Let_def split: if_splits)
next
  case (2 c k c1 w p c2 w' e)
  then show ?case
    by (auto simp: dir_ops_def dc_Add_def Let_def w_Abort_def dir_ok_append dir_contents_append split: if_splits)
next
  case (3 c k c1 w p c2 w')
  then show ?case
    using direct_store [OF 3(1), where p = p and k = k]
    by (auto simp: dir_ops_def dc_Add_def dir_ok_def Let_def append_inode_def file_commit_def
        less_SucI split: if_splits)
next
  case (4 c k c' r)
  then show ?case
    by (auto simp: dir_ops_def dc_Get_def dir_ok_def split: option.splits if_splits)
next
  case (5 c k c' b)
  then show ?case
    by (auto simp: dir_ops_def dc_Get_def dir_contents_def dc_open_def split: option.splits if_splits)
qed

lemma os_good_commits: "os_good = os_good\<lparr>os_mkdir := True, os_rename := True\<rparr>"
  by (simp add: os_good_def)

interpretation dir_direct: live_blob_cache "dir_ops ops os_good True" dir_ok dir_contents for ops
proof (intro live_blob_cache.intro live_blob_cache_axioms.intro, goal_cases)
  case 1
  show ?case by (subst os_good_commits) (rule dir_faulty.blob_cache_axioms)
next
  case (2 c k p)
  then show ?case by (auto simp: dir_ops_def dc_Add_def dir_ok_def os_good_def Let_def)
next
  case (3 c k b)
  then show ?case
    by (auto simp: dir_ops_def dc_Get_def dir_ok_def dir_contents_def dc_open_def os_good_def)
qed

section \<open>Properties\<close>

text \<open>
  C19: in direct mode, writing data for a key, also one that is already present, makes a later
  lookup of the key return exactly that data, and lookups of all other keys what they returned
  before.
\<close>

theorem direct_add_get:
  assumes "dir_ok dc"
  shows "\<exists>dc1 w dc2 w' dc3. dc_Add os_good True key dc = (dc1, Inr w) \<and>
    w_Write os_good w p dc1 = (dc2, w', None) \<and> w_Commit ops os_good w' dc2 = (dc3, None, None) \<and>
    dir_ok dc3 \<and> (\<exists>r. dc_Get ops os_good True key dc3 = (dc3, Inr r) \<and> reader_bytes dc3 r = p) \<and>
    (\<forall>k r. k \<noteq> key \<and> dc_Get ops os_good True k dc = (dc, Inr r) \<longrightarrow>
       dc_Get ops os_good True k dc3 = (dc3, Inr r) \<and> reader_bytes dc3 r = reader_bytes dc r)"
proof -
  let ?n = "length (dc_inodes dc)"
  let ?dc3 = "dc\<lparr>dc_inodes := dc_inodes dc @ [p], dc_names := (dc_names dc)(key \<mapsto> ?n)\<rparr>"
  have ok: "\<not> dc_closed dc" "dc_names dc k = Some i \<Longrightarrow> i < ?n" for k i
    using assms by (auto simp: dir_ok_def)
  have "dc_Add os_good True key dc = (dc\<lparr>dc_inodes := dc_inodes dc @ [[]]\<rparr>, Inr (FileWriter key ?n))"
    using ok(1) by (simp add: dc_Add_def os_good_def)
  moreover have "w_Write os_good (FileWriter key ?n) p (dc\<lparr>dc_inodes := dc_inodes dc @ [[]]\<rparr>) =
      (dc\<lparr>dc_inodes := dc_inodes dc @ [p]\<rparr>, FileWriter key ?n, None)"
    by (simp add: os_good_def append_inode_def)
  moreover have "w_Commit ops os_good (FileWriter key ?n) (dc\<lparr>dc_inodes := dc_inodes dc @ [p]\<rparr>) =
      (?dc3, None, None)"
    using ok(1) by (simp add: file_commit_def os_good_def)
  moreover have "dir_ok ?dc3" using ok by (auto simp: dir_ok_def less_SucI)
  moreover have "dc_Get ops os_good True key ?dc3 = (?dc3, Inr (FileReader key ?n True))"
    using ok(1) by (simp add: dc_Get_def dc_open_def os_good_def)
  moreover have "dc_Get ops os_good True k ?dc3 = (?dc3, Inr r) \<and> reader_bytes ?dc3 r = reader_bytes dc r"
    if "k \<noteq> key" "dc_Get ops os_good True k dc = (dc, Inr r)" for k r
    using that ok by (auto simp: dc_Get_def dc_open_def os_good_def nth_append split: option.splits)
  ultimately show ?thesis by fastforce
qed

definition one_file :: "(nat \<times> (string \<times> addr) list) directoryCache" where
  "one_file = \<lparr>dc_cache = New (10, []), dc_fileCache = New (10, []), dc_names = [''0'' \<mapsto> 0],
     dc_inodes = [[1, 2]], dc_syncAdd = False, dc_direct = False, dc_closed = False\<rparr>"

theorem direct_add_get_witness:
  "dir_ok one_file \<and>
   (\<exists>dc3 r. dc_Get list_lru os_good True ''0'' dc3 = (dc3, Inr r) \<and> reader_bytes dc3 r = [3])"
proof -
  have "dir_ok one_file" by (simp add: dir_ok_def one_file_def)
  then show ?thesis using direct_add_get [of one_file "''0''" "[3]" list_lru] by blast
qed

text \<open>
  Without the direct mode, data written for a key that the in-memory cache still holds is
  lost: the writer reports success, but the old data is written to the file and is what a
  lookup returns.
\<close>

theorem buffered_readd_keeps_old:
  assumes "inner_lru ops ok entries" and "ok (c_inner (dc_cache dc))" and "dir_ok dc"
    and "\<not> dc_direct dc" and "dc_syncAdd dc" and "(key, a) \<in> entries (c_inner (dc_cache dc))"
  defines "old \<equiv> rc_v (c_heap (dc_cache dc) ! a)"
  shows "\<exists>dc1 w dc2 w' dc3 dc4 h. dc_Add os_good False key dc = (dc1, Inr w) \<and>
    w_Write os_good w p dc1 = (dc2, w', None) \<and> w_Commit ops os_good w' dc2 = (dc3, None, None) \<and>
    dir_contents dc3 key = Some old \<and> dc_Get ops os_good False key dc3 = (dc4, Inr (MemReader h old))"
proof -
  let ?n = "length (dc_inodes dc)"
  let ?c = "dc_cache dc"
  let ?h = "length (c_dones ?c)"
  have g: "\<exists>l'. l_get ops l key = (l', Some a) \<and> ok l' \<and> entries l' = entries (c_inner ?c)"
    if "ok l" "entries l = entries (c_inner ?c)" for l
  proof -
    obtain l' r where lr: "l_get ops l key = (l', r)" by (cases "l_get ops l key")
    have "r \<noteq> None"
      using inner_lru.get_None [OF assms(1) that(1), of key l' a] lr assms(6) that(2) by auto
    then obtain b where b: "r = Some b" by blast
    then have "b = a"
      using inner_lru.keys [OF assms(1) that(1)] inner_lru.get_Some [OF assms(1) that(1)] lr assms(6) that(2)
      by metis
    then show ?thesis using inner_lru.get_entries [OF assms(1) that(1) lr] lr b that(2) by simp
  qed
  obtain l1 where l1: "l_get ops (c_inner ?c) key = (l1, Some a)" "ok l1" "entries l1 = entries (c_inner ?c)"
    using g [OF assms(2)] by blast
  obtain l2 where l2: "l_get ops l1 key = (l2, Some a)" using g [OF l1(2,3)] by blast
  let ?m = "fst (decreaseOnceFunc a (rc_inc a (?c\<lparr>c_inner := l1\<rparr>)))"
  let ?dc3 = "dc\<lparr>dc_inodes := dc_inodes dc @ [old], dc_cache := call_done ?h ?m,
      dc_names := (dc_names dc)(key \<mapsto> ?n)\<rparr>"
  have v: "rc_v (c_heap (call_done ?h ?m) ! a) = old"
    by (simp add: old_def decreaseOnceFunc_def rc_inc_def nth_upd)
  have c: "\<not> dc_closed dc" using assms(3) by (simp add: dir_ok_def)
  have "dc_Add os_good False key dc = (dc\<lparr>dc_inodes := dc_inodes dc @ [[]]\<rparr>, Inr (MemWriter key ?n []))"
    using c assms(4) by (simp add: dc_Add_def os_good_def)
  moreover have "lru_Add ops key p ?c = (?m, old, ?h, False)"
    using l1(1) by (simp add: lru_Add_def decreaseOnceFunc_def old_def rc_inc_def)
  then have "w_Commit ops os_good (MemWriter key ?n p) (dc\<lparr>dc_inodes := dc_inodes dc @ [[]]\<rparr>) = (?dc3, None, None)"
    using c assms(5)
    by (simp add: run_commit_def os_good_def append_inode_def file_commit_def)
  moreover have "dir_contents ?dc3 key = Some old" by (simp add: dir_contents_def)
  moreover have "c_inner (call_done ?h ?m) = l1"
    by (simp add: decreaseOnceFunc_def rc_inc_def)
  then have "\<exists>dc4 h. dc_Get ops os_good False key ?dc3 = (dc4, Inr (MemReader h old))"
    using c assms(4) l2 v by (simp add: dc_Get_def lru_Get_def decreaseOnceFunc_def)
  ultimately show ?thesis by fastforce
qed

definition one_cached :: "(nat \<times> (string \<times> addr) list) directoryCache" where
  "one_cached = one_file\<lparr>dc_cache := fst (lru_Add list_lru ''0'' [1, 2] (New (10, []))), dc_syncAdd := True\<rparr>"

theorem buffered_readd_keeps_old_witness:
  "dir_ok one_cached \<and> rc_v (c_heap (dc_cache one_cached) ! 0) = [1, 2] \<and>
   (\<exists>dc3 dc4 h. dir_contents dc3 ''0'' = Some [1, 2] \<and>
      dc_Get list_lru os_good False ''0'' dc3 = (dc4, Inr (MemReader h [1, 2])))"
proof -
  have m: "lru_Add list_lru ''0'' [1, 2] (New (10, [])) =
      (\<lparr>c_inner = (10, [(''0'', 0)]),
        c_heap = [\<lparr>rc_key = ''0'', rc_v = [1, 2], rc_refCounts = 2, rc_finalized = False\<rparr>],
        c_dones = [(0, False)], c_evicted = []\<rparr>, [1, 2], 0, True)"
    by (simp add: lru_Add_def list_lru_def list_get_def list_add_def New_def rc_inc_def
        finalize_all_def decreaseOnceFunc_def)
  have d: "dir_ok one_cached" "rc_v (c_heap (dc_cache one_cached) ! 0) = [1, 2]"
    by (simp_all add: dir_ok_def one_cached_def one_file_def m)
  then show ?thesis
    using buffered_readd_keeps_old [OF lru_list.inner_lru_axioms _ d(1), of "''0''" 0 "[3]"]
    by (auto simp: one_cached_def one_file_def m list_ok_def)
qed

end
