(* ===== verification/Span_Manager.thy ===== *)
theory Span_Manager
  imports Ztoc_Toc Blob_Cache
begin

text \<open>
  The manager of the spans of a layer, \<^verbatim>\<open>fs/span-manager/span_manager.go\<close> and \<^verbatim>\<open>span.go\<close>: it fetches
  spans from the registry, verifies and caches them, uncompresses them and answers reads. The
  operations on one span hold its mutex, so each is a step on the manager's state; the
  goroutines of \<^verbatim>\<open>GetContents\<close> run in the order of a schedule. The layer's reader, the cache,
  the digest function and zlib are the environment.
\<close>

section \<open>Spans\<close>

datatype spanState = unrequested | requested | fetched | uncompressed

record span =
  sp_id :: span_id
  sp_startComp :: offset
  sp_endComp :: offset
  sp_startUncomp :: offset
  sp_endUncomp :: offset
  sp_state :: spanState

datatype sm_error =
    SpanNotAvailable cache_error
  | IncorrectSpanDigest string string
  | ExceedMaxSpan
  | NonMonotonicCheckpoints
  | IncorrectMaxSpanID int int
  | SmZinfoError zinfo_error
  | InvalidSpanStateTransition spanState spanState
  | UnexpectedSpanSize int int
  | SpanReadError
  | SpanCacheError cache_error
  | HeaderReadError
  | HeaderVerifyError
  | SmPanic

fun stateTransitionMap :: "spanState \<Rightarrow> spanState list" where
  "stateTransitionMap unrequested = [requested]"
| "stateTransitionMap requested = [unrequested, fetched, uncompressed]"
| "stateTransitionMap fetched = [uncompressed]"
| "stateTransitionMap uncompressed = []"

definition checkState :: "span \<Rightarrow> spanState \<Rightarrow> bool" where
  "checkState s expected \<longleftrightarrow> sp_state s = expected"

definition validateStateTransition :: "span \<Rightarrow> spanState \<Rightarrow> sm_error option" where
  "validateStateTransition s newState =
     (if newState \<in> set (stateTransitionMap (sp_state s)) then None
      else Some (InvalidSpanStateTransition (sp_state s) newState))"

definition setState :: "span \<Rightarrow> spanState \<Rightarrow> sm_error + span" where
  "setState s st =
     (case validateStateTransition s st of
        Some e \<Rightarrow> Inl e | None \<Rightarrow> Inr (s\<lparr>sp_state := st\<rparr>))"

section \<open>The manager\<close>

datatype read_status = ReadOK | ReadEOF | ReadFailedWith

text \<open>
  \<open>se_readAt r off n\<close> reads at most \<open>n\<close> bytes at \<open>off\<close> from a reader in state \<open>r\<close>;
  \<open>se_header_ok\<close> is what \<^verbatim>\<open>gzip.NewReader\<close> says of the header.
\<close>

record ('c, 'w, 'r) sm_env =
  se_cache :: "('c, 'w) cache_ops"
  se_cacheClose :: "'c \<Rightarrow> 'c"
  se_readAt :: "'r \<Rightarrow> offset \<Rightarrow> int \<Rightarrow> 'r \<times> bytes \<times> read_status"
  se_inflate :: inflate_fun
  se_digest :: "bytes \<Rightarrow> string"
  se_header_ok :: "bytes \<Rightarrow> bool"
  se_t2z :: "bytes \<Rightarrow> tarZinfo option"

record ('c, 'r) spanManager =
  sm_cache :: 'c
  sm_zinfo :: zinfo
  sm_r :: 'r
  sm_spans :: "span list"
  sm_ztoc :: ztoc
  sm_retries :: int
  sm_closed :: bool

definition get_span :: "('c, 'r) spanManager \<Rightarrow> span_id \<Rightarrow> span option" where
  "get_span m i = (if 0 \<le> i \<and> i < int (length (sm_spans m)) then Some (sm_spans m ! nat i) else None)"

definition put_state :: "span_id \<Rightarrow> spanState \<Rightarrow> ('c, 'r) spanManager \<Rightarrow> ('c, 'r) spanManager" where
  "put_state i st m = m\<lparr>sm_spans := (sm_spans m)[nat i := (sm_spans m ! nat i)\<lparr>sp_state := st\<rparr>]\<rparr>"

subsection \<open>Creation\<close>

definition defaultSpanVerificationFailureRetries :: int where
  "defaultSpanVerificationFailureRetries = 3"

definition zt_MaxSpanID :: "ztoc \<Rightarrow> span_id" where
  "zt_MaxSpanID zt = ci_MaxSpanID (zt_CompressionInfo zt)"

definition zt_SpanDigests :: "ztoc \<Rightarrow> string list" where
  "zt_SpanDigests zt = ci_SpanDigests (zt_CompressionInfo zt)"

text \<open>The loop over the span IDs \<open>i\<close>, \<open>i + 1\<close>, \<open>...\<close>, \<open>n\<close> of them.\<close>

fun build_spans :: "zinfo \<Rightarrow> ztoc \<Rightarrow> nat \<Rightarrow> span_id \<Rightarrow> sm_error + span list" where
  "build_spans z zt 0 i = Inr []"
| "build_spans z zt (Suc n) i =
     (case (StartCompressedOffset z i, EndCompressedOffset z i (zt_CompressedArchiveSize zt),
            StartUncompressedOffset z i, EndUncompressedOffset z i (zt_UncompressedArchiveSize zt)) of
        (Some sc, Some ec, Some su, Some eu) \<Rightarrow>
          (if i < zt_MaxSpanID zt \<and> (sc \<ge> ec \<or> su \<ge> eu) then Inl NonMonotonicCheckpoints
           else bind_res (build_spans z zt n (i + 1)) (\<lambda>ss.
             Inr (\<lparr>sp_id = i, sp_startComp = sc, sp_endComp = ec, sp_startUncomp = su,
                   sp_endUncomp = eu, sp_state = unrequested\<rparr> # ss)))
      | _ \<Rightarrow> Inl SmPanic)"

definition buildAllSpans :: "('c, 'r) spanManager \<Rightarrow> sm_error + ('c, 'r) spanManager" where
  "buildAllSpans m =
     bind_res (build_spans (sm_zinfo m) (sm_ztoc m) (nat (zt_MaxSpanID (sm_ztoc m) + 1)) 0)
       (\<lambda>ss. Inr (m\<lparr>sm_spans := ss\<rparr>))"

fun VerifyHeader :: "('c, 'w, 'r) sm_env \<Rightarrow> zinfo \<Rightarrow> bytes \<Rightarrow> bool" where
  "VerifyHeader env (TarZ z) b = True"
| "VerifyHeader env (GzipZ z) b = se_header_ok env b"

text \<open>When a span cannot be built \<^verbatim>\<open>New\<close> also closes the cache; the manager is not returned then, and its state is dropped.\<close>

definition sm_New ::
    "('c, 'w, 'r) sm_env \<Rightarrow> ztoc \<Rightarrow> 'r \<Rightarrow> 'c \<Rightarrow> int \<Rightarrow> sm_error + ('c, 'r) spanManager" where
  "sm_New env zt r cache retries =
     (case Ztoc_Zinfo (se_t2z env) zt of
        Inl e \<Rightarrow> Inl (SmZinfoError e)
      | Inr index \<Rightarrow>
          (let zt' = zt\<lparr>zt_CompressionInfo := (zt_CompressionInfo zt)\<lparr>ci_Checkpoints := []\<rparr>\<rparr> in
           case MaxSpanID index of None \<Rightarrow> Inl SmPanic
           | Some maxSpanID \<Rightarrow>
             if zt_MaxSpanID zt \<noteq> maxSpanID then Inl (IncorrectMaxSpanID (zt_MaxSpanID zt) maxSpanID)
             else if wrap32 (int (length (zt_SpanDigests zt))) \<noteq> wrap32 (maxSpanID + 1)
               then Inl (IncorrectMaxSpanID (int (length (zt_SpanDigests zt))) (maxSpanID + 1))
             else case StartCompressedOffset index 0 of None \<Rightarrow> Inl SmPanic
             | Some n \<Rightarrow>
               if n < 0 then Inl SmPanic
               else case se_readAt env r 0 n of (r', b, st) \<Rightarrow>
                 if st \<noteq> ReadOK then Inl HeaderReadError
                 else if \<not> VerifyHeader env index (take (nat n) (b @ replicate (nat n) 0)) then Inl HeaderVerifyError
                 else if wrap32 (zt_MaxSpanID zt + 1) < 0 then Inl SmPanic
                 else buildAllSpans
                   \<lparr>sm_cache = cache, sm_zinfo = index, sm_r = r', sm_spans = [], sm_ztoc = zt',
                    sm_retries = (if retries < 0 then defaultSpanVerificationFailureRetries else retries),
                    sm_closed = False\<rparr>))"

definition sm_Close :: "('c, 'w, 'r) sm_env \<Rightarrow> ('c, 'r) spanManager \<Rightarrow> ('c, 'r) spanManager" where
  "sm_Close env m =
     (if sm_closed m then m else m\<lparr>sm_cache := se_cacheClose env (sm_cache m), sm_closed := True\<rparr>)"

subsection \<open>Fetching a span\<close>

definition verifySpanContents ::
    "('c, 'w, 'r) sm_env \<Rightarrow> ('c, 'r) spanManager \<Rightarrow> bytes \<Rightarrow> span_id \<Rightarrow> sm_error option" where
  "verifySpanContents env m compressedData spanID =
     (if spanID \<ge> wrap32 (int (length (zt_SpanDigests (sm_ztoc m)))) then Some ExceedMaxSpan
      else if spanID < 0 then Some SmPanic
      else (let actual = se_digest env compressedData;
                expected = zt_SpanDigests (sm_ztoc m) ! nat spanID
            in if actual \<noteq> expected then Some (IncorrectSpanDigest expected actual) else None))"

text \<open>The loop of \<^verbatim>\<open>fetchSpanWithRetries\<close> with \<open>n\<close> rounds left and the last error.\<close>

fun fetch_loop ::
    "('c, 'w, 'r) sm_env \<Rightarrow> span_id \<Rightarrow> offset \<Rightarrow> int \<Rightarrow> nat \<Rightarrow> sm_error option \<Rightarrow> ('c, 'r) spanManager \<Rightarrow>
     ('c, 'r) spanManager \<times> (sm_error + bytes)" where
  "fetch_loop env spanID off sz 0 err m =
     (m, case err of None \<Rightarrow> Inr [] | Some e \<Rightarrow> Inl e)"
| "fetch_loop env spanID off sz (Suc n) err m =
     (case se_readAt env (sm_r m) off sz of (r, b, st) \<Rightarrow>
        (let m' = m\<lparr>sm_r := r\<rparr> in
         if st = ReadFailedWith then (m', Inl SpanReadError)
         else if int (length b) \<noteq> sz then (m', Inl (UnexpectedSpanSize (int (length b)) sz))
         else (case verifySpanContents env m' b spanID of
                 None \<Rightarrow> (m', Inr b)
               | Some e \<Rightarrow> fetch_loop env spanID off sz n (Some e) m')))"

definition fetchSpanWithRetries ::
    "('c, 'w, 'r) sm_env \<Rightarrow> span_id \<Rightarrow> ('c, 'r) spanManager \<Rightarrow> ('c, 'r) spanManager \<times> (sm_error + bytes)" where
  "fetchSpanWithRetries env spanID m =
     (case get_span m spanID of None \<Rightarrow> (m, Inl SmPanic)
      | Some s \<Rightarrow>
          (let compressedSize = wrap64 (sp_endComp s - sp_startComp s) in
           if compressedSize < 0 then (m, Inl SmPanic)
           else fetch_loop env spanID (sp_startComp s) compressedSize (nat (wrap64 (sm_retries m + 1))) None m))"

definition uncompressSpan ::
    "('c, 'w, 'r) sm_env \<Rightarrow> ('c, 'r) spanManager \<Rightarrow> span \<Rightarrow> bytes \<Rightarrow> sm_error + bytes" where
  "uncompressSpan env m s compressedBuf =
     (let uncompSize = wrap64 (sp_endUncomp s - sp_startUncomp s) in
      if uncompSize = 0 then Inr []
      else map_sum SmZinfoError id
        (ExtractDataFromBuffer (se_inflate env) (sm_zinfo m) compressedBuf uncompSize (sp_startUncomp s) (sp_id s)))"

text \<open>The result of \<^verbatim>\<open>Commit\<close> is not looked at.\<close>

definition addSpanToCache ::
    "('c, 'w, 'r) sm_env \<Rightarrow> span_id \<Rightarrow> bytes \<Rightarrow> ('c, 'r) spanManager \<Rightarrow> ('c, 'r) spanManager \<times> sm_error option" where
  "addSpanToCache env spanID contents m =
     (let ops = se_cache env in
      case co_Add ops (itoa spanID) (sm_cache m) of
        (c1, Inl e) \<Rightarrow> (m\<lparr>sm_cache := c1\<rparr>, Some (SpanCacheError e))
      | (c1, Inr w) \<Rightarrow>
          (case co_Write ops w contents c1 of
             (c2, w', Some e) \<Rightarrow> (m\<lparr>sm_cache := co_Abort ops w' c2\<rparr>, Some (SpanCacheError e))
           | (c2, w', None) \<Rightarrow> (m\<lparr>sm_cache := fst (co_Commit ops w' c2)\<rparr>, None)))"

definition getSpanFromCache ::
    "('c, 'w, 'r) sm_env \<Rightarrow> span_id \<Rightarrow> offset \<Rightarrow> offset \<Rightarrow> ('c, 'r) spanManager \<Rightarrow>
     ('c, 'r) spanManager \<times> (sm_error + bytes)" where
  "getSpanFromCache env spanID off sz m =
     (case co_Get (se_cache env) (itoa spanID) (sm_cache m) of
        (c, Inl e) \<Rightarrow> (m\<lparr>sm_cache := c\<rparr>, Inl (SpanNotAvailable e))
      | (c, Inr b) \<Rightarrow> (m\<lparr>sm_cache := c\<rparr>, Inr (sub b off (off + sz))))"

text \<open>
  The body of \<^verbatim>\<open>fetchAndCacheSpan\<close> after the span is marked as requested, and the whole with the
  deferred reset.
\<close>

definition fetch_and_cache ::
    "('c, 'w, 'r) sm_env \<Rightarrow> span_id \<Rightarrow> bool \<Rightarrow> ('c, 'r) spanManager \<Rightarrow> ('c, 'r) spanManager \<times> (sm_error + bytes)" where
  "fetch_and_cache env spanID uncompress m =
     (case fetchSpanWithRetries env spanID m of
        (m1, Inl e) \<Rightarrow> (m1, Inl e)
      | (m1, Inr compressedBuf) \<Rightarrow>
          (case get_span m1 spanID of None \<Rightarrow> (m1, Inl SmPanic)
           | Some s \<Rightarrow>
             (case (if uncompress then uncompressSpan env m1 s compressedBuf else Inr compressedBuf) of
                Inl e \<Rightarrow> (m1, Inl e)
              | Inr buf \<Rightarrow>
                (case addSpanToCache env spanID buf m1 of
                   (m2, Some e) \<Rightarrow> (m2, Inl e)
                 | (m2, None) \<Rightarrow>
                     (case setState s (if uncompress then uncompressed else fetched) of
                        Inl e \<Rightarrow> (m2, Inl e)
                      | Inr s' \<Rightarrow> (put_state spanID (sp_state s') m2, Inr buf))))))"

definition fetchAndCacheSpan ::
    "('c, 'w, 'r) sm_env \<Rightarrow> span_id \<Rightarrow> bool \<Rightarrow> ('c, 'r) spanManager \<Rightarrow> ('c, 'r) spanManager \<times> (sm_error + bytes)" where
  "fetchAndCacheSpan env spanID uncompress m =
     (case get_span m spanID of None \<Rightarrow> (m, Inl SmPanic)
      | Some s \<Rightarrow>
          (case setState s requested of Inl e \<Rightarrow> (m, Inl e)
           | Inr s' \<Rightarrow>
             (case fetch_and_cache env spanID uncompress (put_state spanID (sp_state s') m) of
                (m', Inl e) \<Rightarrow>
                  (case get_span m' spanID of
                     Some s'' \<Rightarrow> (if checkState s'' requested then put_state spanID unrequested m' else m', Inl e)
                   | None \<Rightarrow> (m', Inl e))
              | (m', Inr b) \<Rightarrow> (m', Inr b))))"

definition FetchSingleSpan ::
    "('c, 'w, 'r) sm_env \<Rightarrow> span_id \<Rightarrow> ('c, 'r) spanManager \<Rightarrow> ('c, 'r) spanManager \<times> sm_error option" where
  "FetchSingleSpan env spanID m =
     (if spanID > zt_MaxSpanID (sm_ztoc m) then (m, Some ExceedMaxSpan)
      else case get_span m spanID of None \<Rightarrow> (m, Some SmPanic)
      | Some s \<Rightarrow>
          if \<not> checkState s unrequested then (m, None)
          else (case fetchAndCacheSpan env spanID False m of
                  (m', Inl e) \<Rightarrow> (m', Some e) | (m', Inr _) \<Rightarrow> (m', None)))"

definition ResolveSpan ::
    "('c, 'w, 'r) sm_env \<Rightarrow> span_id \<Rightarrow> ('c, 'r) spanManager \<Rightarrow> ('c, 'r) spanManager \<times> sm_error option" where
  "ResolveSpan env spanID m =
     (if spanID > zt_MaxSpanID (sm_ztoc m) then (m, Some ExceedMaxSpan)
      else case get_span m spanID of None \<Rightarrow> (m, Some SmPanic)
      | Some s \<Rightarrow>
          if checkState s uncompressed then (m, None)
          else (case fetchAndCacheSpan env spanID True m of
                  (m', Inl e) \<Rightarrow> (m', Some e) | (m', Inr _) \<Rightarrow> (m', None)))"

subsection \<open>Reading\<close>

record spanInfo =
  si_spanStart :: span_id
  si_spanEnd :: span_id
  si_startOffInSpan :: "offset list"
  si_endOffInSpan :: "offset list"
  si_spanIndexInBuf :: "offset list"

text \<open>The loop over the spans \<open>i\<close>, \<open>i + 1\<close>, \<open>...\<close>, \<open>n\<close> of them, with the size of the buffer so far.\<close>

fun span_info_loop ::
    "('c, 'r) spanManager \<Rightarrow> offset \<Rightarrow> offset \<Rightarrow> nat \<Rightarrow> span_id \<Rightarrow> offset \<Rightarrow>
     (offset list \<times> offset list \<times> offset list) option" where
  "span_info_loop m offsetStart offsetEnd 0 i bufSize = Some ([], [], [])"
| "span_info_loop m offsetStart offsetEnd (Suc n) i bufSize =
     (case get_span m i of None \<Rightarrow> None
      | Some s \<Rightarrow>
          (let st = (if offsetStart > sp_startUncomp s then wrap64 (offsetStart - sp_startUncomp s) else 0);
               en = (if offsetEnd < sp_endUncomp s then wrap64 (offsetEnd - sp_startUncomp s)
                     else wrap64 (sp_endUncomp s - sp_startUncomp s))
           in case span_info_loop m offsetStart offsetEnd n (i + 1) (wrap64 (bufSize + (en - st))) of
                None \<Rightarrow> None
              | Some (sts, ens, idx) \<Rightarrow> Some (st # sts, en # ens, bufSize # idx)))"

definition getSpanInfo :: "('c, 'r) spanManager \<Rightarrow> offset \<Rightarrow> offset \<Rightarrow> spanInfo option" where
  "getSpanInfo m offsetStart offsetEnd =
     (case (UncompressedOffsetToSpanID (sm_zinfo m) offsetStart, UncompressedOffsetToSpanID (sm_zinfo m) offsetEnd) of
        (Some spanStart, Some spanEnd) \<Rightarrow>
          (let numSpans = wrap32 (spanEnd - spanStart + 1) in
           if numSpans < 0 then None
           else case span_info_loop m offsetStart offsetEnd (nat (spanEnd - spanStart + 1)) spanStart 0 of
             None \<Rightarrow> None
           | Some (sts, ens, idx) \<Rightarrow>
               Some \<lparr>si_spanStart = spanStart, si_spanEnd = spanEnd, si_startOffInSpan = sts,
                     si_endOffInSpan = ens, si_spanIndexInBuf = idx\<rparr>)
      | _ \<Rightarrow> None)"

definition slice_result :: "bytes \<Rightarrow> offset \<Rightarrow> offset \<Rightarrow> sm_error + bytes" where
  "slice_result b lo hi = (case slice b lo hi of None \<Rightarrow> Inl SmPanic | Some c \<Rightarrow> Inr c)"

definition getSpanContent ::
    "('c, 'w, 'r) sm_env \<Rightarrow> span_id \<Rightarrow> offset \<Rightarrow> offset \<Rightarrow> ('c, 'r) spanManager \<Rightarrow>
     ('c, 'r) spanManager \<times> (sm_error + bytes)" where
  "getSpanContent env spanID offsetStart offsetEnd m =
     (case get_span m spanID of None \<Rightarrow> (m, Inl SmPanic)
      | Some s \<Rightarrow>
        (let sz = wrap64 (offsetEnd - offsetStart) in
         if checkState s uncompressed then getSpanFromCache env (sp_id s) offsetStart sz m
         else if checkState s fetched
         then (let compressedSize = wrap64 (sp_endComp s - sp_startComp s) in
               case getSpanFromCache env (sp_id s) 0 compressedSize m of
                 (m1, Inl e) \<Rightarrow> (m1, Inl e)
               | (m1, Inr compressedBuf) \<Rightarrow>
                   (case uncompressSpan env m1 s compressedBuf of
                      Inl e \<Rightarrow> (m1, Inl e)
                    | Inr uncompSpanBuf \<Rightarrow>
                        (case addSpanToCache env (sp_id s) uncompSpanBuf m1 of
                           (m2, Some e) \<Rightarrow> (m2, Inl e)
                         | (m2, None) \<Rightarrow>
                             (case setState s uncompressed of
                                Inl e \<Rightarrow> (m2, Inl e)
                              | Inr s' \<Rightarrow>
                                  (put_state spanID (sp_state s') m2,
                                   slice_result uncompSpanBuf offsetStart (wrap64 (offsetStart + sz)))))))
         else (case fetchAndCacheSpan env (sp_id s) True m of
                 (m1, Inl e) \<Rightarrow> (m1, Inl e)
               | (m1, Inr uncompBuf) \<Rightarrow>
                   (m1, slice_result uncompBuf offsetStart (wrap64 (offsetStart + sz))))))"

definition resolveSpan ::
    "('c, 'w, 'r) sm_env \<Rightarrow> span_id \<Rightarrow> ('c, 'r) spanManager \<Rightarrow> ('c, 'r) spanManager \<times> sm_error option" where
  "resolveSpan env spanID m =
     (if spanID > zt_MaxSpanID (sm_ztoc m) then (m, Some ExceedMaxSpan)
      else case get_span m spanID of None \<Rightarrow> (m, Some SmPanic)
      | Some s \<Rightarrow> (case getSpanContent env spanID 0 (sp_endUncomp s) m of
                     (m', Inl e) \<Rightarrow> (m', Some e) | (m', Inr _) \<Rightarrow> (m', None)))"

text \<open>
  The goroutines of \<^verbatim>\<open>GetContents\<close> in the order they get to run: the first error, if any, and
  the reader of each span.
\<close>

fun run_tasks ::
    "('c, 'w, 'r) sm_env \<Rightarrow> spanInfo \<Rightarrow> nat list \<Rightarrow> ('c, 'r) spanManager \<Rightarrow>
     ('c, 'r) spanManager \<times> sm_error option \<times> (nat \<rightharpoonup> bytes)" where
  "run_tasks env si [] m = (m, None, Map.empty)"
| "run_tasks env si (j # js) m =
     (case getSpanContent env (int j + si_spanStart si) (si_startOffInSpan si ! j) (si_endOffInSpan si ! j) m of
        (m', r) \<Rightarrow>
          (case run_tasks env si js m' of
             (m'', err, rs) \<Rightarrow>
               (case r of Inl e \<Rightarrow> (m'', Some e, rs) | Inr b \<Rightarrow> (m'', err, rs(j \<mapsto> b)))))"

definition GetContents ::
    "('c, 'w, 'r) sm_env \<Rightarrow> (nat \<Rightarrow> nat list) \<Rightarrow> offset \<Rightarrow> offset \<Rightarrow> ('c, 'r) spanManager \<Rightarrow>
     ('c, 'r) spanManager \<times> (sm_error + bytes)" where
  "GetContents env sched startUncompOffset endUncompOffset m =
     (case getSpanInfo m startUncompOffset endUncompOffset of None \<Rightarrow> (m, Inl SmPanic)
      | Some si \<Rightarrow>
          (let n = length (si_startOffInSpan si) in
           case run_tasks env si (sched n) m of
             (m', Some e, rs) \<Rightarrow> (m', Inl e)
           | (m', None, rs) \<Rightarrow> (m', Inr (concat (map (\<lambda>j. the (rs j)) [0..<n])))))"

section \<open>The invariant\<close>

definition cbytes :: "bytes \<Rightarrow> span \<Rightarrow> bytes" where
  "cbytes cdata s = sub cdata (sp_startComp s) (sp_endComp s)"

definition ubytes :: "bytes \<Rightarrow> span \<Rightarrow> bytes" where
  "ubytes udata s = sub udata (sp_startUncomp s) (sp_endUncomp s)"

definition span_ok :: "zinfo \<Rightarrow> offset \<Rightarrow> offset \<Rightarrow> nat \<Rightarrow> span \<Rightarrow> bool" where
  "span_ok z cs us i s \<longleftrightarrow> sp_id s = int i \<and> StartCompressedOffset z (int i) = Some (sp_startComp s) \<and>
     EndCompressedOffset z (int i) cs = Some (sp_endComp s) \<and>
     StartUncompressedOffset z (int i) = Some (sp_startUncomp s) \<and>
     EndUncompressedOffset z (int i) us = Some (sp_endUncomp s)"

text \<open>
  What does not change: the index describes the layer, the spans are those of the index, and a
  span's digest is that of its compressed bytes and of no others, the property of the digest
  function that the verification relies on.
\<close>

definition sm_static :: "('c, 'w, 'r) sm_env \<Rightarrow> bytes \<Rightarrow> bytes \<Rightarrow> ('c, 'r) spanManager \<Rightarrow> bool" where
  "sm_static env cdata udata m \<longleftrightarrow>
     layer_ok (se_inflate env) (sm_zinfo m) cdata udata \<and>
     MaxSpanID (sm_zinfo m) = Some (int (length (sm_spans m)) - 1) \<and>
     zt_MaxSpanID (sm_ztoc m) = int (length (sm_spans m)) - 1 \<and>
     (\<forall>i < length (sm_spans m). span_ok (sm_zinfo m) (int (length cdata)) (int (length udata)) i (sm_spans m ! i)) \<and>
     length (zt_SpanDigests (sm_ztoc m)) = length (sm_spans m) \<and>
     (\<forall>i < length (sm_spans m). \<forall>b.
        se_digest env b = zt_SpanDigests (sm_ztoc m) ! i \<longleftrightarrow> b = cbytes cdata (sm_spans m ! i)) \<and>
     0 \<le> sm_retries m \<and> sm_retries m < max_int64"

text \<open>What the cache holds for a span in a state; no span is left in the state requested.\<close>

fun cached_ok :: "bytes \<Rightarrow> bytes \<Rightarrow> bytes option \<Rightarrow> span \<Rightarrow> spanState \<Rightarrow> bool" where
  "cached_ok cdata udata c s unrequested = True"
| "cached_ok cdata udata c s requested = False"
| "cached_ok cdata udata c s fetched \<longleftrightarrow> c = Some (cbytes cdata s)"
| "cached_ok cdata udata c s uncompressed \<longleftrightarrow> c = Some (ubytes udata s)"

definition sm_cached ::
    "(string \<rightharpoonup> bytes) \<Rightarrow> bytes \<Rightarrow> bytes \<Rightarrow> nat set \<Rightarrow> ('c, 'r) spanManager \<Rightarrow> bool" where
  "sm_cached cont cdata udata X m \<longleftrightarrow> (\<forall>i < length (sm_spans m). i \<notin> X \<longrightarrow>
     cached_ok cdata udata (cont (itoa (int i))) (sm_spans m ! i) (sp_state (sm_spans m ! i)))"

lemma length_put_state [simp]: "length (sm_spans (put_state i st m)) = length (sm_spans m)"
  by (simp add: put_state_def)

lemma put_state_fields [simp]:
  "sm_cache (put_state i st m) = sm_cache m" "sm_zinfo (put_state i st m) = sm_zinfo m"
  "sm_r (put_state i st m) = sm_r m" "sm_ztoc (put_state i st m) = sm_ztoc m"
  "sm_retries (put_state i st m) = sm_retries m"
  by (simp_all add: put_state_def)

lemma nth_put_state:
  "sm_spans (put_state (int i) st m) ! j =
     (if i = j \<and> i < length (sm_spans m) then (sm_spans m ! j)\<lparr>sp_state := st\<rparr> else sm_spans m ! j)"
  by (simp add: put_state_def nth_upd)

lemma bytes_state [simp]:
  "cbytes cdata (s\<lparr>sp_state := st\<rparr>) = cbytes cdata s" "ubytes udata (s\<lparr>sp_state := st\<rparr>) = ubytes udata s"
  "span_ok z cs us i (s\<lparr>sp_state := st\<rparr>) = span_ok z cs us i s"
  by (simp_all add: cbytes_def ubytes_def span_ok_def)

lemma cached_ok_state [simp]: "cached_ok cdata udata c (s\<lparr>sp_state := st'\<rparr>) st = cached_ok cdata udata c s st"
  by (cases st) simp_all

lemma static_put_state [simp]:
  "sm_static env cdata udata (put_state (int i) st m) = sm_static env cdata udata m"
proof -
  have "span_ok z cs us j (sm_spans (put_state (int i) st m) ! j) = span_ok z cs us j (sm_spans m ! j)"
    "cbytes cdata (sm_spans (put_state (int i) st m) ! j) = cbytes cdata (sm_spans m ! j)" for z cs us j
    by (simp_all add: nth_put_state)
  then show ?thesis by (simp add: sm_static_def)
qed

lemma static_upd [simp]:
  "sm_static env cdata udata (m\<lparr>sm_r := r\<rparr>) = sm_static env cdata udata m"
  "sm_static env cdata udata (m\<lparr>sm_cache := c\<rparr>) = sm_static env cdata udata m"
  by (simp_all add: sm_static_def)

lemma cached_upd [simp]:
  "sm_cached cont cdata udata X (m\<lparr>sm_r := r\<rparr>) = sm_cached cont cdata udata X m"
  "sm_cached cont cdata udata X (m\<lparr>sm_cache := c\<rparr>) = sm_cached cont cdata udata X m"
  by (simp_all add: sm_cached_def)

lemma cached_put_state:
  "sm_cached cont cdata udata (insert i X) m \<Longrightarrow> sm_cached cont cdata udata (insert i X) (put_state (int i) st m)"
  by (auto simp: sm_cached_def nth_put_state)

lemma cached_set:
  assumes "sm_cached cont cdata udata {i} m" and "i < length (sm_spans m)"
    and "cached_ok cdata udata (cont (itoa (int i))) (sm_spans m ! i) st"
  shows "sm_cached cont cdata udata {} (put_state (int i) st m)"
  using assms by (auto simp: sm_cached_def nth_put_state)

lemma cached_weaken: "sm_cached cont cdata udata {} m \<Longrightarrow> sm_cached cont cdata udata {i} m"
  by (simp add: sm_cached_def)

text \<open>Writing the entry of one span does not touch those of the others.\<close>

lemma cached_store:
  assumes "sm_cached cont cdata udata {i} m"
  shows "sm_cached (cont(itoa (int i) \<mapsto> b)) cdata udata {i} m"
  using assms by (auto simp: sm_cached_def itoa_inject)

lemma staticD:
  assumes "sm_static env cdata udata m" and "i < length (sm_spans m)"
  shows "layer_ok (se_inflate env) (sm_zinfo m) cdata udata"
    and "MaxSpanID (sm_zinfo m) = Some (int (length (sm_spans m)) - 1)"
    and "span_ok (sm_zinfo m) (int (length cdata)) (int (length udata)) i (sm_spans m ! i)"
    and "get_span m (int i) = Some (sm_spans m ! i)"
  using assms by (simp_all add: sm_static_def get_span_def)

lemma get_span_SomeE:
  assumes "get_span m i = Some s"
  obtains k where "i = int k" and "k < length (sm_spans m)" and "s = sm_spans m ! k"
  using assms by (auto simp: get_span_def nat_less_iff intro!: that [of "nat i"] split: if_splits)

lemma span_offsets:
  assumes "sm_static env cdata udata m" and "i < length (sm_spans m)"
  defines "s \<equiv> sm_spans m ! i"
  shows "0 \<le> sp_startComp s" and "sp_startComp s < sp_endComp s" and "sp_endComp s \<le> int (length cdata)"
    and "0 \<le> sp_startUncomp s" and "sp_startUncomp s \<le> sp_endUncomp s" and "sp_endUncomp s \<le> int (length udata)"
    and "int (length cdata) \<le> max_int64" and "int (length udata) \<le> max_int64" and "sp_id s = int i"
proof -
  note D = staticD [OF assms(1,2)] and L = layer_okD [OF staticD(1) [OF assms(1,2)]]
  have i: "0 \<le> int i" "int i \<le> int (length (sm_spans m)) - 1" using assms(2) by auto
  have ok: "span_ok (sm_zinfo m) (int (length cdata)) (int (length udata)) i s" using D(3) by (simp add: s_def)
  obtain a b where "StartCompressedOffset (sm_zinfo m) (int i) = Some a"
      "EndCompressedOffset (sm_zinfo m) (int i) (int (length cdata)) = Some b" "0 \<le> a" "a < b" "b \<le> int (length cdata)"
    using comp_layoutD [OF L(3) D(2) i] by blast
  then show "0 \<le> sp_startComp s" "sp_startComp s < sp_endComp s" "sp_endComp s \<le> int (length cdata)"
    using ok by (auto simp: span_ok_def)
  show "0 \<le> sp_startUncomp s" "sp_endUncomp s \<le> int (length udata)"
    using zinfo.start_Some [OF L(1) D(2) i] zinfo.end_Some [OF L(1) D(2) i] ok by (auto simp: span_ok_def)
  show "sp_startUncomp s \<le> sp_endUncomp s"
    using zinfo.start_le_end [OF L(1) D(2) i] ok by (auto simp: span_ok_def)
  show "int (length cdata) \<le> max_int64" "int (length udata) \<le> max_int64" "sp_id s = int i"
    using L(2) zinfo.us_range [OF L(1)] ok by (auto simp: span_ok_def)
qed

lemma span_sizes:
  assumes "sm_static env cdata udata m" and "i < length (sm_spans m)"
  defines "s \<equiv> sm_spans m ! i"
  shows "wrap64 (sp_endComp s - sp_startComp s) = sp_endComp s - sp_startComp s"
    and "wrap64 (sp_endUncomp s - sp_startUncomp s) = sp_endUncomp s - sp_startUncomp s"
    and "int (length (cbytes cdata s)) = sp_endComp s - sp_startComp s"
    and "int (length (ubytes udata s)) = sp_endUncomp s - sp_startUncomp s"
  using span_offsets [OF assms(1,2)] unfolding s_def [symmetric]
  by (simp_all add: wrap64_id cbytes_def ubytes_def length_sub)

section \<open>Fetching\<close>

lemma verify_iff:
  assumes "sm_static env cdata udata m" and "i < length (sm_spans m)"
  shows "verifySpanContents env m b (int i) = None \<longleftrightarrow> b = cbytes cdata (sm_spans m ! i)"
proof -
  have "int (length (sm_spans m)) \<le> max_int32"
    using zinfo.max_Some [OF layer_okD(1) [OF staticD(1) [OF assms]]] staticD(2) [OF assms] by simp
  then have "wrap32 (int (length (sm_spans m))) = int (length (sm_spans m))" by (intro wrap32_id) auto
  then show ?thesis
    using assms by (simp add: verifySpanContents_def Let_def sm_static_def)
qed

text \<open>Whatever the reader returns, only the span's bytes pass.\<close>

lemma fetch_loop_sound:
  assumes "sm_static env cdata udata m" and "i < length (sm_spans m)" and "0 < n \<or> err \<noteq> None"
    and "fetch_loop env (int i) off sz n err m = (m', r)"
  shows "(\<exists>r'. m' = m\<lparr>sm_r := r'\<rparr>) \<and> (\<forall>b. r = Inr b \<longrightarrow> b = cbytes cdata (sm_spans m ! i))"
  using assms
proof (induction n arbitrary: err m)
  case 0
  then show ?case by (auto intro: exI [of _ "sm_r m"])
next
  case (Suc n)
  obtain r1 b st where rd: "se_readAt env (sm_r m) off sz = (r1, b, st)" by (cases "se_readAt env (sm_r m) off sz")
  let ?m = "m\<lparr>sm_r := r1\<rparr>"
  consider (err) "st = ReadFailedWith \<or> int (length b) \<noteq> sz"
    | (ok) "st \<noteq> ReadFailedWith" "int (length b) = sz" "verifySpanContents env ?m b (int i) = None"
    | (retry) e where "st \<noteq> ReadFailedWith" "int (length b) = sz" "verifySpanContents env ?m b (int i) = Some e"
    by (cases "verifySpanContents env ?m b (int i)") auto
  then show ?case
  proof cases
    case err
    then show ?thesis using Suc.prems(4) rd by (auto simp: Let_def split: if_splits)
  next
    case ok
    then show ?thesis
      using Suc.prems(4) rd verify_iff [of env cdata udata ?m i b] Suc.prems(1,2) by (auto simp: Let_def)
  next
    case retry
    then have "fetch_loop env (int i) off sz n (Some e) ?m = (m', r)" using Suc.prems(4) rd by (simp add: Let_def)
    then show ?thesis using Suc.IH [of ?m "Some e"] Suc.prems(1,2) by auto
  qed
qed

lemma fetch_sound:
  assumes "sm_static env cdata udata m" and "i < length (sm_spans m)"
    and "fetchSpanWithRetries env (int i) m = (m', r)"
  shows "(\<exists>r'. m' = m\<lparr>sm_r := r'\<rparr>) \<and> (\<forall>b. r = Inr b \<longrightarrow> b = cbytes cdata (sm_spans m ! i))"
proof -
  have n: "0 < nat (wrap64 (sm_retries m + 1))" using assms(1) by (simp add: sm_static_def wrap64_id)
  have "fetch_loop env (int i) (sp_startComp (sm_spans m ! i)) (sp_endComp (sm_spans m ! i) - sp_startComp (sm_spans m ! i))
      (nat (wrap64 (sm_retries m + 1))) None m = (m', r)"
    using assms(3) staticD(4) [OF assms(1,2)] span_sizes(1) [OF assms(1,2)] span_offsets(2) [OF assms(1,2)]
    by (simp add: fetchSpanWithRetries_def Let_def)
  then show ?thesis using fetch_loop_sound [OF assms(1,2)] n by blast
qed

text \<open>A reader that serves the layer is enough to succeed in the first round.\<close>

definition serves :: "('c, 'w, 'r) sm_env \<Rightarrow> bytes \<Rightarrow> bool" where
  "serves env cdata \<longleftrightarrow> (\<forall>r s n. 0 \<le> s \<and> 0 \<le> n \<and> s + n \<le> int (length cdata) \<longrightarrow>
     (\<exists>r' st. se_readAt env r s n = (r', sub cdata s (s + n), st) \<and> st \<noteq> ReadFailedWith))"

lemma fetch_works:
  assumes "sm_static env cdata udata m" and "i < length (sm_spans m)" and "serves env cdata"
  shows "\<exists>r'. fetchSpanWithRetries env (int i) m = (m\<lparr>sm_r := r'\<rparr>, Inr (cbytes cdata (sm_spans m ! i)))"
proof -
  let ?s = "sm_spans m ! i"
  note o' = span_offsets [OF assms(1,2)] and z = span_sizes [OF assms(1,2)]
  have "0 < nat (wrap64 (sm_retries m + 1))" using assms(1) by (simp add: sm_static_def wrap64_id)
  then obtain k where k: "nat (wrap64 (sm_retries m + 1)) = Suc k" using gr0_conv_Suc by blast
  obtain r' st where r: "se_readAt env (sm_r m) (sp_startComp ?s) (sp_endComp ?s - sp_startComp ?s) =
      (r', cbytes cdata ?s, st)" "st \<noteq> ReadFailedWith"
    using assms(3) o' unfolding serves_def cbytes_def by (metis add.commute diff_add_cancel diff_ge_0_iff_ge less_imp_le)
  have "verifySpanContents env (m\<lparr>sm_r := r'\<rparr>) (cbytes cdata ?s) (int i) = None"
    using verify_iff [of env cdata udata "m\<lparr>sm_r := r'\<rparr>" i] assms(1,2) by simp
  then show ?thesis
    using staticD(4) [OF assms(1,2)] z(1,3) o'(2) r k
    by (intro exI [of _ r']) (simp add: fetchSpanWithRetries_def Let_def)
qed

lemma uncompress_ok:
  assumes "sm_static env cdata udata m" and "i < length (sm_spans m)"
  shows "uncompressSpan env m (sm_spans m ! i) (cbytes cdata (sm_spans m ! i)) = Inr (ubytes udata (sm_spans m ! i))"
proof -
  let ?s = "sm_spans m ! i"
  note o' = span_offsets [OF assms] and z = span_sizes [OF assms] and D = staticD [OF assms]
  show ?thesis
  proof (cases "sp_startUncomp ?s = sp_endUncomp ?s")
    case True
    then show ?thesis by (simp add: uncompressSpan_def ubytes_def wrap64_def)
  next
    case False
    have "ExtractDataFromBuffer (se_inflate env) (sm_zinfo m) (cbytes cdata ?s) (sp_endUncomp ?s - sp_startUncomp ?s)
        (sp_startUncomp ?s) (int i) = Inr (sub udata (sp_startUncomp ?s) (sp_startUncomp ?s + (sp_endUncomp ?s - sp_startUncomp ?s)))"
      unfolding cbytes_def
      using D(3) o' False assms(2)
      by (intro extractsD [OF layer_okD(4) [OF D(1)] D(2), where j = "int i" and si = "sp_startUncomp ?s"
            and ej = "sp_endUncomp ?s"]) (auto simp: span_ok_def)
    then show ?thesis using o' z(2) False by (simp add: uncompressSpan_def ubytes_def Let_def)
  qed
qed

section \<open>The cache\<close>

definition sm_inv ::
    "('c \<Rightarrow> bool) \<Rightarrow> ('c \<Rightarrow> string \<rightharpoonup> bytes) \<Rightarrow> ('c, 'w, 'r) sm_env \<Rightarrow> bytes \<Rightarrow> bytes \<Rightarrow> ('c, 'r) spanManager \<Rightarrow> bool" where
  "sm_inv ok cont env cdata udata m \<longleftrightarrow> sm_static env cdata udata m \<and> ok (sm_cache m) \<and>
     sm_cached (cont (sm_cache m)) cdata udata {} m"

lemma sm_invD:
  assumes "sm_inv ok cont env cdata udata m"
  shows "sm_static env cdata udata m" "ok (sm_cache m)" "sm_cached (cont (sm_cache m)) cdata udata {} m"
  using assms by (simp_all add: sm_inv_def)

lemma inv_state:
  assumes "sm_inv ok cont env cdata udata m" and "i < length (sm_spans m)"
  shows "cached_ok cdata udata (cont (sm_cache m) (itoa (int i))) (sm_spans m ! i) (sp_state (sm_spans m ! i))"
  using assms by (simp add: sm_inv_def sm_cached_def)

context blob_cache
begin

lemma add_span:
  assumes "se_cache env = ops" and "ok (sm_cache m)" and "addSpanToCache env (int i) b m = (m', e)"
  shows "\<exists>c. m' = m\<lparr>sm_cache := c\<rparr> \<and> ok c \<and>
    contents c = (if e = None then (contents (sm_cache m))(itoa (int i) \<mapsto> b) else contents (sm_cache m))"
proof -
  obtain c1 a where a: "co_Add ops (itoa (int i)) (sm_cache m) = (c1, a)"
    by (cases "co_Add ops (itoa (int i)) (sm_cache m)")
  show ?thesis
  proof (cases a)
    case (Inl x)
    then show ?thesis using assms a add_fails [OF assms(2)] by (auto simp: addSpanToCache_def)
  next
    case (Inr w)
    obtain c2 w' x where x: "co_Write ops w b c1 = (c2, w', x)" by (cases "co_Write ops w b c1")
    show ?thesis
    proof (cases x)
      case None
      then show ?thesis
        using assms a x Inr commits [OF assms(2), of "itoa (int i)" c1 w b c2 w'] by (auto simp: addSpanToCache_def)
    next
      case (Some y)
      then show ?thesis
        using assms a x Inr write_fails [OF assms(2), of "itoa (int i)" c1 w b c2 w' y] by (auto simp: addSpanToCache_def)
    qed
  qed
qed

lemma get_span_cached:
  assumes "se_cache env = ops" and "ok (sm_cache m)" and "getSpanFromCache env (int i) off sz m = (m', r)"
  shows "\<exists>c. m' = m\<lparr>sm_cache := c\<rparr> \<and> ok c \<and> contents c = contents (sm_cache m) \<and>
    (\<forall>b. r = Inr b \<longrightarrow> (\<exists>d. contents (sm_cache m) (itoa (int i)) = Some d \<and> b = sub d off (off + sz)))"
proof -
  obtain c g where g: "co_Get ops (itoa (int i)) (sm_cache m) = (c, g)" by (cases "co_Get ops (itoa (int i)) (sm_cache m)")
  then show ?thesis
    using assms get_keeps [OF assms(2) g] get_sound [OF assms(2), of "itoa (int i)" c]
    by (cases g) (auto simp: getSpanFromCache_def)
qed

text \<open>
  The fetch of one span: the invariant holds afterwards whether it fails or not, the result is
  the span's content, and the span is then in the new state.
\<close>

lemma fetch_and_cache_ok:
  assumes "se_cache env = ops" and "sm_static env cdata udata m" and "ok (sm_cache m)"
    and "sm_cached (contents (sm_cache m)) cdata udata {i} m" and "i < length (sm_spans m)"
    and "sp_state (sm_spans m ! i) = requested" and "fetch_and_cache env (int i) u m = (m', r)"
  shows "case r of
      Inl e \<Rightarrow> sm_static env cdata udata m' \<and> ok (sm_cache m') \<and> sm_cached (contents (sm_cache m')) cdata udata {i} m' \<and>
        sm_spans m' = sm_spans m
    | Inr b \<Rightarrow> sm_inv ok contents env cdata udata m' \<and> length (sm_spans m') = length (sm_spans m) \<and>
        sp_state (sm_spans m' ! i) = (if u then uncompressed else fetched) \<and>
        b = (if u then ubytes udata (sm_spans m ! i) else cbytes cdata (sm_spans m ! i))"
proof -
  let ?s = "sm_spans m ! i"
  obtain m1 r1 where f: "fetchSpanWithRetries env (int i) m = (m1, r1)" by (cases "fetchSpanWithRetries env (int i) m")
  obtain r' where m1: "m1 = m\<lparr>sm_r := r'\<rparr>" and b1: "\<And>b. r1 = Inr b \<Longrightarrow> b = cbytes cdata ?s"
    using fetch_sound [OF assms(2,5) f] by blast
  show ?thesis
  proof (cases r1)
    case (Inl e)
    then show ?thesis using assms(2-7) f m1 by (auto simp: fetch_and_cache_def)
  next
    case (Inr c)
    let ?b = "if u then ubytes udata ?s else cbytes cdata ?s"
    have st1: "sm_static env cdata udata m1" "i < length (sm_spans m1)" "sm_spans m1 ! i = ?s"
      using assms(2,5) m1 by simp_all
    have b: "(if u then uncompressSpan env m1 ?s c else Inr c) = Inr ?b"
      using b1 [OF Inr] uncompress_ok [OF st1(1,2)] st1(3) by simp
    obtain m2 e where a: "addSpanToCache env (int i) ?b m1 = (m2, e)" by (cases "addSpanToCache env (int i) ?b m1")
    obtain c2 where m2: "m2 = m1\<lparr>sm_cache := c2\<rparr>" "ok c2"
        "contents c2 = (if e = None then (contents (sm_cache m))(itoa (int i) \<mapsto> ?b) else contents (sm_cache m))"
      using add_span [OF assms(1) _ a] assms(3) m1 by auto
    have g: "get_span m1 (int i) = Some ?s" using staticD(4) [OF st1(1,2)] st1(3) by simp
    have set: "setState ?s (if u then uncompressed else fetched) = Inr (?s\<lparr>sp_state := (if u then uncompressed else fetched)\<rparr>)"
      using assms(6) by (simp add: setState_def validateStateTransition_def)
    show ?thesis
    proof (cases e)
      case (Some x)
      then have "m' = m2 \<and> r = Inl x" using assms(7) f Inr g b a by (auto simp: fetch_and_cache_def)
      then show ?thesis using m2 Some assms(2,4) m1 by simp
    next
      case None
      then have eq: "m' = put_state (int i) (if u then uncompressed else fetched) m2 \<and> r = Inr ?b"
        using assms(7) f Inr g b a set by (auto simp: fetch_and_cache_def)
      have "sm_cached (contents c2) cdata udata {i} m2"
        using cached_store [OF assms(4), of ?b] m2 None m1 by simp
      moreover have "cached_ok cdata udata (contents c2 (itoa (int i))) (sm_spans m2 ! i) (if u then uncompressed else fetched)"
        using m2 None m1 by simp
      ultimately have "sm_cached (contents c2) cdata udata {} m'"
        using cached_set [of "contents c2" cdata udata i m2] eq m2(1) m1 assms(5) by simp
      then show ?thesis
        using eq m2 m1 assms(2,5) by (simp add: sm_inv_def nth_put_state)
    qed
  qed
qed

lemma fetchAndCacheSpan_ok:
  assumes "se_cache env = ops" and "sm_inv ok contents env cdata udata m" and "i < length (sm_spans m)"
    and "sp_state (sm_spans m ! i) = unrequested" and "fetchAndCacheSpan env (int i) u m = (m', r)"
  shows "sm_inv ok contents env cdata udata m' \<and> length (sm_spans m') = length (sm_spans m) \<and>
    (\<forall>b. r = Inr b \<longrightarrow> b = (if u then ubytes udata (sm_spans m ! i) else cbytes cdata (sm_spans m ! i)) \<and>
       sp_state (sm_spans m' ! i) = (if u then uncompressed else fetched))"
proof -
  note I = sm_invD [OF assms(2)]
  let ?m = "put_state (int i) requested m"
  have st: "setState (sm_spans m ! i) requested = Inr ((sm_spans m ! i)\<lparr>sp_state := requested\<rparr>)"
    using assms(4) by (simp add: setState_def validateStateTransition_def)
  obtain m1 r1 where f: "fetch_and_cache env (int i) u ?m = (m1, r1)" by (cases "fetch_and_cache env (int i) u ?m")
  have c: "sm_cached (contents (sm_cache ?m)) cdata udata {i} ?m"
    using cached_put_state [of _ cdata udata i "{}" m] cached_weaken [OF I(3)] by simp
  have s: "sm_spans ?m ! i = (sm_spans m ! i)\<lparr>sp_state := requested\<rparr>" using assms(3) by (simp add: nth_put_state)
  note F = fetch_and_cache_ok [OF assms(1) _ _ c _ _ f]
  show ?thesis
  proof (cases r1)
    case (Inr b)
    then have "m' = m1" "r = Inr b" using assms(5) staticD(4) [OF I(1) assms(3)] st f by (simp_all add: fetchAndCacheSpan_def)
    then show ?thesis using F I assms(3) s Inr by simp
  next
    case (Inl e)
    then have F': "sm_static env cdata udata m1" "ok (sm_cache m1)" "sm_cached (contents (sm_cache m1)) cdata udata {i} m1"
        "sm_spans m1 = sm_spans ?m"
      using F I assms(3) s by simp_all
    then have "get_span m1 (int i) = Some ((sm_spans m ! i)\<lparr>sp_state := requested\<rparr>)"
      using staticD(4) [OF F'(1)] assms(3) s by simp
    then have m': "m' = put_state (int i) unrequested m1" "r = Inl e"
      using assms(5) staticD(4) [OF I(1) assms(3)] st f Inl by (simp_all add: fetchAndCacheSpan_def checkState_def)
    have "sm_cached (contents (sm_cache m1)) cdata udata {} m'"
      unfolding m' by (rule cached_set [OF F'(3)]) (use F' assms(3) in simp_all)
    then show ?thesis using F' m' by (simp add: sm_inv_def)
  qed
qed

lemma getSpanContent_ok:
  assumes "se_cache env = ops" and "sm_inv ok contents env cdata udata m" and "i < length (sm_spans m)"
    and "0 \<le> a" and "a \<le> b" and "b \<le> sp_endUncomp (sm_spans m ! i) - sp_startUncomp (sm_spans m ! i)"
    and "getSpanContent env (int i) a b m = (m', r)"
  shows "sm_inv ok contents env cdata udata m' \<and> length (sm_spans m') = length (sm_spans m) \<and>
    (\<forall>d. r = Inr d \<longrightarrow> d = sub udata (sp_startUncomp (sm_spans m ! i) + a) (sp_startUncomp (sm_spans m ! i) + b))"
proof -
  let ?s = "sm_spans m ! i"
  note I = sm_invD [OF assms(2)]
  note g = staticD(4) [OF I(1) assms(3)] and o' = span_offsets [OF I(1) assms(3)] and z = span_sizes [OF I(1) assms(3)]
  have w: "wrap64 (b - a) = b - a" "wrap64 (a + (b - a)) = b" using assms(4-6) o' by (auto simp: wrap64_id)
  have part: "sub (ubytes udata ?s) a b = sub udata (sp_startUncomp ?s + a) (sp_startUncomp ?s + b)"
    unfolding ubytes_def using assms(4-6) o' by (intro sub_sub) auto
  have sl: "slice_result (ubytes udata ?s) a b = Inr (sub udata (sp_startUncomp ?s + a) (sp_startUncomp ?s + b))"
    using assms(4-6) z(4) part by (simp add: slice_result_def slice_eq)
  consider "sp_state ?s = uncompressed" | "sp_state ?s = fetched" | "sp_state ?s = unrequested"
    using inv_state [OF assms(2,3)] by (cases "sp_state ?s") auto
  then show ?thesis
  proof cases
    case 1
    then have "getSpanFromCache env (int i) a (b - a) m = (m', r)"
      using assms(7) g o'(9) w by (simp add: getSpanContent_def checkState_def Let_def)
    from get_span_cached [OF assms(1) I(2) this] show ?thesis
      using inv_state [OF assms(2,3)] 1 part I by (auto simp: sm_inv_def)
  next
    case 2
    have in_cache: "contents (sm_cache m) (itoa (int i)) = Some (cbytes cdata ?s)"
      using inv_state [OF assms(2,3)] 2 by simp
    obtain m1 r1 where f: "getSpanFromCache env (int i) 0 (sp_endComp ?s - sp_startComp ?s) m = (m1, r1)"
      by (cases "getSpanFromCache env (int i) 0 (sp_endComp ?s - sp_startComp ?s) m")
    obtain c1 where m1: "m1 = m\<lparr>sm_cache := c1\<rparr>" "ok c1" "contents c1 = contents (sm_cache m)"
        "\<And>d. r1 = Inr d \<Longrightarrow> d = sub (cbytes cdata ?s) 0 (sp_endComp ?s - sp_startComp ?s)"
      using get_span_cached [OF assms(1) I(2) f] in_cache by auto
    show ?thesis
    proof (cases r1)
      case (Inl e)
      then have "m' = m1" "r = Inl e"
        using assms(7) g o'(9) z(1) w f 2 by (simp_all add: getSpanContent_def checkState_def Let_def)
      then show ?thesis using m1 I by (simp add: sm_inv_def)
    next
      case (Inr d)
      then have d: "d = cbytes cdata ?s" using m1(4) z(3) by (metis sub_all)
      have u: "uncompressSpan env m1 ?s d = Inr (ubytes udata ?s)"
        using uncompress_ok [of env cdata udata m1 i] m1(1) I(1) assms(3) d by simp
      obtain m2 e where a: "addSpanToCache env (int i) (ubytes udata ?s) m1 = (m2, e)"
        by (cases "addSpanToCache env (int i) (ubytes udata ?s) m1")
      obtain c2 where m2: "m2 = m1\<lparr>sm_cache := c2\<rparr>" "ok c2"
          "contents c2 = (if e = None then (contents (sm_cache m))(itoa (int i) \<mapsto> ubytes udata ?s) else contents (sm_cache m))"
        using add_span [OF assms(1) _ a] m1 by auto
      have st: "setState ?s uncompressed = Inr (?s\<lparr>sp_state := uncompressed\<rparr>)"
        using 2 by (simp add: setState_def validateStateTransition_def)
      show ?thesis
      proof (cases e)
        case (Some x)
        then have "m' = m2" "r = Inl x"
          using assms(7) g o'(9) z(1) w f 2 Inr u a by (simp_all add: getSpanContent_def checkState_def Let_def)
        then show ?thesis using Some m2 m1 I by (simp add: sm_inv_def)
      next
        case None
        have eq: "m' = put_state (int i) uncompressed m2" "r = slice_result (ubytes udata ?s) a b"
          using assms(7) g o'(9) z(1) w f 2 Inr u a None st
          by (simp_all add: getSpanContent_def checkState_def Let_def)
        have "sm_cached (contents c2) cdata udata {} m'"
          unfolding eq
          by (rule cached_set)
             (use cached_store [OF cached_weaken [OF I(3)], of i "ubytes udata ?s"] m2 m1 None assms(3) in simp_all)
        then show ?thesis using eq sl m2 m1 I by (simp add: sm_inv_def)
      qed
    qed
  next
    case 3
    obtain m1 r1 where f: "fetchAndCacheSpan env (int i) True m = (m1, r1)" by (cases "fetchAndCacheSpan env (int i) True m")
    show ?thesis
      using fetchAndCacheSpan_ok [OF assms(1-3) 3 f] assms(7) g o'(9) w 3 f sl
      by (cases r1) (auto simp: getSpanContent_def checkState_def Let_def)
  qed
qed

end

section \<open>Several spans\<close>

text \<open>No operation changes the index or the descriptor.\<close>

lemma zinfo_fetch_loop: "fetch_loop env i off sz n err m = (m', r) \<Longrightarrow> sm_zinfo m' = sm_zinfo m"
proof (induction n arbitrary: sz err m)
  case (Suc n)
  from Suc.prems show ?case
    by (auto simp: Let_def split: prod.splits if_splits option.splits dest!: Suc.IH)
qed simp

lemma zinfo_addSpan: "addSpanToCache env i b m = (m', e) \<Longrightarrow> sm_zinfo m' = sm_zinfo m"
  by (auto simp: addSpanToCache_def Let_def split: prod.splits sum.splits option.splits)

lemma zinfo_fetch: "fetchSpanWithRetries env i m = (m', r) \<Longrightarrow> sm_zinfo m' = sm_zinfo m"
  by (auto simp: fetchSpanWithRetries_def Let_def dest: zinfo_fetch_loop split: option.splits if_splits)

lemma zinfo_fetch_and_cache: "fetch_and_cache env i u m = (m', r) \<Longrightarrow> sm_zinfo m' = sm_zinfo m"
  by (auto simp: fetch_and_cache_def dest!: zinfo_fetch zinfo_addSpan split: prod.splits sum.splits option.splits)

lemma zinfo_fetchAndCache: "fetchAndCacheSpan env i u m = (m', r) \<Longrightarrow> sm_zinfo m' = sm_zinfo m"
  by (auto simp: fetchAndCacheSpan_def dest!: zinfo_fetch_and_cache
      split: prod.splits sum.splits option.splits if_splits)

lemma zinfo_getSpanFromCache: "getSpanFromCache env i off sz m = (m', r) \<Longrightarrow> sm_zinfo m' = sm_zinfo m"
  by (auto simp: getSpanFromCache_def split: prod.splits sum.splits)

lemma zinfo_getSpanContent: "getSpanContent env i a b m = (m', r) \<Longrightarrow> sm_zinfo m' = sm_zinfo m"
  by (auto simp: getSpanContent_def Let_def
      dest!: zinfo_fetchAndCache zinfo_addSpan zinfo_getSpanFromCache
      split: prod.splits sum.splits option.splits if_splits)

lemma same_offsets:
  assumes "sm_static env cdata udata m" and "sm_static env cdata udata m'" and "sm_zinfo m' = sm_zinfo m"
    and "length (sm_spans m') = length (sm_spans m)" and "i < length (sm_spans m)"
  shows "sp_startUncomp (sm_spans m' ! i) = sp_startUncomp (sm_spans m ! i)"
    and "sp_endUncomp (sm_spans m' ! i) = sp_endUncomp (sm_spans m ! i)"
  using staticD(3) [OF assms(1,5)] staticD(3) [OF assms(2), of i] assms(3-5) by (auto simp: span_ok_def)

definition st_in_span :: "offset \<Rightarrow> span \<Rightarrow> offset" where
  "st_in_span a s = (if a > sp_startUncomp s then a - sp_startUncomp s else 0)"

definition en_in_span :: "offset \<Rightarrow> span \<Rightarrow> offset" where
  "en_in_span b s = (if b < sp_endUncomp s then b - sp_startUncomp s else sp_endUncomp s - sp_startUncomp s)"

lemma span_info_loop_ok:
  assumes "sm_static env cdata udata m" and "0 \<le> a" and "a \<le> int (length udata)" and "0 \<le> b"
    and "i + n \<le> length (sm_spans m)"
  shows "\<exists>idx. span_info_loop m a b n (int i) buf =
    Some (map (\<lambda>k. st_in_span a (sm_spans m ! (i + k))) [0..<n], map (\<lambda>k. en_in_span b (sm_spans m ! (i + k))) [0..<n], idx)"
  using assms(5)
proof (induction n arbitrary: i buf)
  case (Suc n)
  let ?s = "sm_spans m ! i"
  have i: "i < length (sm_spans m)" using Suc.prems by simp
  note o' = span_offsets [OF assms(1) i] and z = span_sizes(2) [OF assms(1) i]
  have "a \<le> max_int64" using assms(3) o'(8) by simp
  then have st: "(if a > sp_startUncomp ?s then wrap64 (a - sp_startUncomp ?s) else 0) = st_in_span a ?s"
    using assms(2) o'(4) by (simp add: st_in_span_def wrap64_id)
  have en: "(if b < sp_endUncomp ?s then wrap64 (b - sp_startUncomp ?s) else wrap64 (sp_endUncomp ?s - sp_startUncomp ?s)) =
      en_in_span b ?s"
    using assms(4) o' z by (simp add: en_in_span_def wrap64_id)
  have sh: "map (\<lambda>k. f (sm_spans m ! (i + k))) [0..<Suc n] = f ?s # map (\<lambda>k. f (sm_spans m ! (Suc i + k))) [0..<n]"
    for f :: "span \<Rightarrow> offset"
    by (simp add: upt_conv_Cons map_Suc_upt [symmetric] del: upt_Suc)
  obtain idx where "span_info_loop m a b n (int (Suc i)) (wrap64 (buf + (en_in_span b ?s - st_in_span a ?s))) =
      Some (map (\<lambda>k. st_in_span a (sm_spans m ! (Suc i + k))) [0..<n], map (\<lambda>k. en_in_span b (sm_spans m ! (Suc i + k))) [0..<n], idx)"
    using Suc.IH [of "Suc i"] Suc.prems by auto
  then show ?case
    using staticD(4) [OF assms(1) i] unfolding sh
    by (simp add: st en Let_def add.commute del: upt_Suc)
qed simp

text \<open>The spans of a range, and the part of the range in each of them.\<close>

lemma range_spans:
  assumes "sm_static env cdata udata m" and "0 \<le> a" and "a \<le> b" and "b \<le> int (length udata)"
    and "UncompressedOffsetToSpanID (sm_zinfo m) b = Some j" and "j < int (length (sm_spans m))"
  obtains i n where "UncompressedOffsetToSpanID (sm_zinfo m) a = Some (int i)" and "j = int (i + n)"
    and "i + n < length (sm_spans m)"
    and "\<And>k. k \<le> n \<Longrightarrow> 0 \<le> st_in_span a (sm_spans m ! (i + k)) \<and>
       st_in_span a (sm_spans m ! (i + k)) \<le> en_in_span b (sm_spans m ! (i + k)) \<and>
       en_in_span b (sm_spans m ! (i + k)) \<le> sp_endUncomp (sm_spans m ! (i + k)) - sp_startUncomp (sm_spans m ! (i + k)) \<and>
       sp_startUncomp (sm_spans m ! (i + k)) + st_in_span a (sm_spans m ! (i + k)) = max a (sp_startUncomp (sm_spans m ! (i + k))) \<and>
       sp_startUncomp (sm_spans m ! (i + k)) + en_in_span b (sm_spans m ! (i + k)) = min b (sp_endUncomp (sm_spans m ! (i + k)))"
    and "\<And>k. k < n \<Longrightarrow> min b (sp_endUncomp (sm_spans m ! (i + k))) = max a (sp_startUncomp (sm_spans m ! (i + Suc k)))"
    and "max a (sp_startUncomp (sm_spans m ! i)) = a" and "min b (sp_endUncomp (sm_spans m ! (i + n))) = b"
proof -
  let ?us = "int (length udata)" and ?z = "sm_zinfo m" and ?S = "\<lambda>k. sm_spans m ! k"
  let ?M = "int (length (sm_spans m)) - 1"
  have len: "0 < length (sm_spans m)"
    using assms(5,6) zinfo.id_Some [of ?z ?us ?M b] assms(1-4) by (auto simp: sm_static_def layer_ok_def)
  have L: "zinfo_wf ?z ?us" and m: "MaxSpanID ?z = Some ?M"
    using layer_okD(1) [OF staticD(1) [OF assms(1) len]] staticD(2) [OF assms(1) len] by auto
  have j: "0 \<le> j" "j \<le> ?M" using zinfo.id_Some [OF L m, of b] assms(2-6) by auto
  have ok: "StartUncompressedOffset ?z (int k) = Some (sp_startUncomp (?S k))"
      "EndUncompressedOffset ?z (int k) ?us = Some (sp_endUncomp (?S k))"
      "sp_startUncomp (?S k) \<le> sp_endUncomp (?S k)" if "k < length (sm_spans m)" for k
    using staticD(3) [OF assms(1) that] span_offsets(5) [OF assms(1) that] by (auto simp: span_ok_def)
  obtain i' where i': "UncompressedOffsetToSpanID ?z a = Some i'" "0 \<le> i'" "i' \<le> ?M"
  proof (cases "a = b")
    case True
    then show ?thesis using that assms(5) j by simp
  next
    case False
    then show ?thesis using that zinfo.id_Some [OF L m assms(2)] assms(3,4) by auto
  qed
  have le: "i' \<le> j" using zinfo.id_mono [OF L m assms(2,3,4) i'(1) assms(5) i'(3)] .
  define i n where "i = nat i'" and "n = nat (j - i')"
  have i: "i' = int i" "j = int (i + n)" "i + n < length (sm_spans m)" using i' le j by (auto simp: i_def n_def)
  have mono: "sp_startUncomp (?S k) \<le> sp_startUncomp (?S l)" if "k \<le> l" "l < length (sm_spans m)" for k l
    using zinfo.start_mono_le [OF L m, of "int k" "int l"] ok that by auto
  have nxt: "sp_endUncomp (?S k) = sp_startUncomp (?S (Suc k))" if "Suc k < length (sm_spans m)" for k
    using zinfo.end_next [OF L m, of "int k"] ok [of k] ok [of "Suc k"] that by (auto simp: add.commute)
  have a: "sp_startUncomp (?S i) \<le> a"
    using zinfo.id_start [OF L m assms(2) _ i'(1,3)] ok(1) [of i] i assms(3,4) by auto
  have a': "a < sp_startUncomp (?S k)" if "i < k" "k < length (sm_spans m)" for k
  proof -
    have "a < sp_startUncomp (?S (Suc i))"
      using zinfo.id_end [OF L m assms(2) _ i'(1), of "sp_startUncomp (?S (Suc i))"] ok(1) [of "Suc i"] i that assms(3,4)
      by (auto simp: add.commute)
    then show ?thesis using mono [of "Suc i" k] that by simp
  qed
  have b: "sp_startUncomp (?S (i + n)) \<le> b"
    using zinfo.id_start [OF L m _ assms(4,5) j(2)] ok(1) [of "i + n"] i assms(2,3) by auto
  have b': "b \<le> sp_endUncomp (?S (i + n))"
    using zinfo.id_end_le [OF L m _ assms(4,5) j(2)] ok(2) [of "i + n"] i assms(2,3) by auto
  have bk: "sp_startUncomp (?S (i + k)) \<le> b" if "k \<le> n" for k
    using mono [of "i + k" "i + n"] b that i(3) by simp
  have ak: "a \<le> sp_endUncomp (?S (i + k))" if "k \<le> n" for k
  proof (cases "k = n")
    case True
    then show ?thesis using b' assms(3) by simp
  next
    case False
    then show ?thesis using nxt [of "i + k"] a' [of "Suc (i + k)"] that i(3) by simp
  qed
  show ?thesis
  proof (rule that [of i n])
    show "UncompressedOffsetToSpanID ?z a = Some (int i)" using i' i by simp
    show "j = int (i + n)" "i + n < length (sm_spans m)" using i by auto
    show "max a (sp_startUncomp (?S i)) = a" "min b (sp_endUncomp (?S (i + n))) = b" using a b' by auto
    show "min b (sp_endUncomp (?S (i + k))) = max a (sp_startUncomp (?S (i + Suc k)))" if "k < n" for k
      using nxt [of "i + k"] bk [of "Suc k"] a' [of "i + Suc k"] that i(3) by simp
    show "0 \<le> st_in_span a (?S (i + k)) \<and> st_in_span a (?S (i + k)) \<le> en_in_span b (?S (i + k)) \<and>
       en_in_span b (?S (i + k)) \<le> sp_endUncomp (?S (i + k)) - sp_startUncomp (?S (i + k)) \<and>
       sp_startUncomp (?S (i + k)) + st_in_span a (?S (i + k)) = max a (sp_startUncomp (?S (i + k))) \<and>
       sp_startUncomp (?S (i + k)) + en_in_span b (?S (i + k)) = min b (sp_endUncomp (?S (i + k)))" if "k \<le> n" for k
      using ok(3) [of "i + k"] bk [OF that] ak [OF that] assms(3) i(3) that
      by (auto simp: st_in_span_def en_in_span_def)
  qed
qed

definition task_ok :: "('c, 'r) spanManager \<Rightarrow> spanInfo \<Rightarrow> nat \<Rightarrow> bool" where
  "task_ok m si k \<longleftrightarrow> (let i = nat (si_spanStart si) + k; s = sm_spans m ! i in
     0 \<le> si_spanStart si \<and> i < length (sm_spans m) \<and> 0 \<le> si_startOffInSpan si ! k \<and>
     si_startOffInSpan si ! k \<le> si_endOffInSpan si ! k \<and> si_endOffInSpan si ! k \<le> sp_endUncomp s - sp_startUncomp s)"

definition task_bytes :: "bytes \<Rightarrow> ('c, 'r) spanManager \<Rightarrow> spanInfo \<Rightarrow> nat \<Rightarrow> bytes" where
  "task_bytes udata m si k = (let s = sm_spans m ! (nat (si_spanStart si) + k) in
     sub udata (sp_startUncomp s + si_startOffInSpan si ! k) (sp_startUncomp s + si_endOffInSpan si ! k))"

lemma task_same:
  assumes "sm_static env cdata udata m" and "sm_static env cdata udata m'" and "sm_zinfo m' = sm_zinfo m"
    and "length (sm_spans m') = length (sm_spans m)" and "task_ok m si k"
  shows "task_ok m' si k" and "task_bytes udata m' si k = task_bytes udata m si k"
  using same_offsets [OF assms(1-4), of "nat (si_spanStart si) + k"] assms(4,5)
  by (simp_all add: task_ok_def task_bytes_def Let_def)

lemma getSpanInfo_range:
  assumes "sm_static env cdata udata m" and "0 \<le> a" and "a \<le> b" and "b \<le> int (length udata)"
    and "UncompressedOffsetToSpanID (sm_zinfo m) b = Some j" and "j \<le> zt_MaxSpanID (sm_ztoc m)"
  shows "\<exists>si n. getSpanInfo m a b = Some si \<and> length (si_startOffInSpan si) = n \<and> (\<forall>k < n. task_ok m si k) \<and>
    concat (map (task_bytes udata m si) [0..<n]) = sub udata a b"
proof -
  have "j < int (length (sm_spans m))" using assms(1,6) by (simp add: sm_static_def)
  from range_spans [OF assms(1-5) this] obtain i n where
    i: "UncompressedOffsetToSpanID (sm_zinfo m) a = Some (int i)" "j = int (i + n)" "i + n < length (sm_spans m)"
    and P: "\<And>k. k \<le> n \<Longrightarrow> 0 \<le> st_in_span a (sm_spans m ! (i + k)) \<and>
       st_in_span a (sm_spans m ! (i + k)) \<le> en_in_span b (sm_spans m ! (i + k)) \<and>
       en_in_span b (sm_spans m ! (i + k)) \<le> sp_endUncomp (sm_spans m ! (i + k)) - sp_startUncomp (sm_spans m ! (i + k)) \<and>
       sp_startUncomp (sm_spans m ! (i + k)) + st_in_span a (sm_spans m ! (i + k)) = max a (sp_startUncomp (sm_spans m ! (i + k))) \<and>
       sp_startUncomp (sm_spans m ! (i + k)) + en_in_span b (sm_spans m ! (i + k)) = min b (sp_endUncomp (sm_spans m ! (i + k)))"
    and N: "\<And>k. k < n \<Longrightarrow> min b (sp_endUncomp (sm_spans m ! (i + k))) = max a (sp_startUncomp (sm_spans m ! (i + Suc k)))"
    and E: "max a (sp_startUncomp (sm_spans m ! i)) = a" "min b (sp_endUncomp (sm_spans m ! (i + n))) = b"
    by blast
  obtain idx where loop: "span_info_loop m a b (Suc n) (int i) 0 =
      Some (map (\<lambda>k. st_in_span a (sm_spans m ! (i + k))) [0..<Suc n], map (\<lambda>k. en_in_span b (sm_spans m ! (i + k))) [0..<Suc n], idx)"
    using span_info_loop_ok [OF assms(1,2), of b i "Suc n" 0] assms(2-4) i(3) by auto
  have "int (length (sm_spans m)) \<le> max_int32"
    using zinfo.max_Some [OF layer_okD(1) [OF staticD(1) [OF assms(1) i(3)]]] staticD(2) [OF assms(1) i(3)] by simp
  then have w: "wrap32 (int (Suc n)) = int (Suc n)" using i(3) by (intro wrap32_id) auto
  define si where "si = \<lparr>si_spanStart = int i, si_spanEnd = j,
      si_startOffInSpan = map (\<lambda>k. st_in_span a (sm_spans m ! (i + k))) [0..<Suc n],
      si_endOffInSpan = map (\<lambda>k. en_in_span b (sm_spans m ! (i + k))) [0..<Suc n], si_spanIndexInBuf = idx\<rparr>"
  have num: "j - int i + 1 = int (Suc n)" "nat (j - int i + 1) = Suc n" using i(2) by auto
  have info: "getSpanInfo m a b = Some si"
    using i(1) assms(5) loop w by (simp add: getSpanInfo_def num si_def Let_def del: upt_Suc of_nat_Suc)
  have nth: "si_startOffInSpan si ! k = st_in_span a (sm_spans m ! (i + k))"
      "si_endOffInSpan si ! k = en_in_span b (sm_spans m ! (i + k))" "si_spanStart si = int i" if "k \<le> n" for k
    using that by (simp_all add: si_def nth_map_upt del: upt_Suc)
  have tasks: "task_ok m si k" if "k < Suc n" for k
    using P [of k] nth [of k] i(3) that by (simp add: task_ok_def Let_def)
  have tb: "task_bytes udata m si k = sub udata (max a (sp_startUncomp (sm_spans m ! (i + k)))) (min b (sp_endUncomp (sm_spans m ! (i + k))))"
    if "k \<le> n" for k
    using P [OF that] nth [OF that] by (simp add: task_bytes_def Let_def)
  have "concat (map (task_bytes udata m si) [0..<Suc n]) =
      concat (map (\<lambda>k. sub udata (max a (sp_startUncomp (sm_spans m ! (i + k)))) (min b (sp_endUncomp (sm_spans m ! (i + k))))) [0..<Suc n])"
    using tb by (intro arg_cong [where f = concat] map_cong) auto
  also have "\<dots> = sub udata (max a (sp_startUncomp (sm_spans m ! (i + 0)))) (min b (sp_endUncomp (sm_spans m ! (i + (Suc n - 1)))))"
  proof (rule conjunct1 [OF concat_subs])
    show "\<forall>k < Suc n. max a (sp_startUncomp (sm_spans m ! (i + k))) \<le> min b (sp_endUncomp (sm_spans m ! (i + k)))"
      using P by (metis add_left_mono less_Suc_eq_le)
  qed (use N assms(2) in auto)
  finally have "concat (map (task_bytes udata m si) [0..<Suc n]) = sub udata a b" using E by simp
  moreover have "length (si_startOffInSpan si) = Suc n" by (simp add: si_def)
  ultimately show ?thesis using info tasks by blast
qed

context blob_cache
begin

lemma run_tasks_ok:
  assumes "se_cache env = ops" and "sm_inv ok contents env cdata udata m"
    and "\<forall>k \<in> set js. task_ok m si k" and "run_tasks env si js m = (m', err, rs)"
  shows "sm_inv ok contents env cdata udata m' \<and>
    (err = None \<longrightarrow> (\<forall>k \<in> set js. rs k = Some (task_bytes udata m si k)))"
  using assms(2-4)
proof (induction js arbitrary: m m' err rs)
  case (Cons j js)
  obtain m1 r where g: "getSpanContent env (int j + si_spanStart si) (si_startOffInSpan si ! j) (si_endOffInSpan si ! j) m = (m1, r)"
    by (cases "getSpanContent env (int j + si_spanStart si) (si_startOffInSpan si ! j) (si_endOffInSpan si ! j) m")
  obtain m2 err' rs' where t': "run_tasks env si js m1 = (m2, err', rs')" by (cases "run_tasks env si js m1")
  then have "m2 = m'" using Cons.prems(3) g by (auto split: sum.splits)
  with t' have t: "run_tasks env si js m1 = (m', err', rs')" by simp
  have e: "err' = None" "rs = rs'(j \<mapsto> projr r)" "\<exists>b. r = Inr b" if "err = None"
    using Cons.prems(3) g t that by (auto split: sum.splits)
  let ?i = "nat (si_spanStart si) + j"
  have j: "task_ok m si j" using Cons.prems(2) by simp
  then have i: "int j + si_spanStart si = int ?i" by (simp add: task_ok_def Let_def)
  have G: "sm_inv ok contents env cdata udata m1" "length (sm_spans m1) = length (sm_spans m)"
      "\<And>d. r = Inr d \<Longrightarrow> d = task_bytes udata m si j"
    using getSpanContent_ok [OF assms(1) Cons.prems(1) _ _ _ _ g [unfolded i]] j
    by (simp_all add: task_ok_def task_bytes_def Let_def)
  note S = task_same [OF sm_invD(1) [OF Cons.prems(1)] sm_invD(1) [OF G(1)] zinfo_getSpanContent [OF g] G(2)]
  have "sm_inv ok contents env cdata udata m' \<and>
      (err' = None \<longrightarrow> (\<forall>k \<in> set js. rs' k = Some (task_bytes udata m1 si k)))"
    using Cons.IH [OF G(1) _ t] S(1) Cons.prems(2) by simp
  then show ?case using e G(3) S(2) Cons.prems(2) by auto
qed auto

lemma GetContents_sound:
  assumes "se_cache env = ops" and "sm_inv ok contents env cdata udata m"
    and "0 \<le> a" and "a \<le> b" and "b \<le> int (length udata)"
    and "UncompressedOffsetToSpanID (sm_zinfo m) b = Some j" and "j \<le> zt_MaxSpanID (sm_ztoc m)"
    and "\<forall>n. set (sched n) = {0..<n}" and "GetContents env sched a b m = (m', r)"
  shows "sm_inv ok contents env cdata udata m' \<and> (\<forall>d. r = Inr d \<longrightarrow> d = sub udata a b)"
proof -
  obtain si n where si: "getSpanInfo m a b = Some si" "length (si_startOffInSpan si) = n"
      "\<forall>k < n. task_ok m si k" "concat (map (task_bytes udata m si) [0..<n]) = sub udata a b"
    using getSpanInfo_range [OF sm_invD(1) [OF assms(2)] assms(3-7)] by blast
  obtain m1 err rs where run: "run_tasks env si (sched n) m = (m1, err, rs)" by (cases "run_tasks env si (sched n) m")
  have R: "sm_inv ok contents env cdata udata m1"
      "err = None \<Longrightarrow> \<forall>k \<in> set (sched n). rs k = Some (task_bytes udata m si k)"
    using run_tasks_ok [OF assms(1,2) _ run] si(3) assms(8) by auto
  show ?thesis
  proof (cases err)
    case None
    then have "map (\<lambda>k. the (rs k)) [0..<n] = map (task_bytes udata m si) [0..<n]"
      using R(2) assms(8) by (intro map_cong) auto
    then have "concat (map (\<lambda>k. the (rs k)) [0..<n]) = sub udata a b" using si(4) by (simp only:)
    then have "m' = m1" "r = Inr (sub udata a b)"
      using assms(9) si(1,2) run None by (simp_all add: GetContents_def Let_def)
    then show ?thesis using R by simp
  next
    case (Some e)
    then show ?thesis using assms(9) si run R by (auto simp: GetContents_def Let_def)
  qed
qed

end

context live_blob_cache
begin

lemma add_span_works:
  assumes "se_cache env = ops" and "ok (sm_cache m)"
  shows "\<exists>m'. addSpanToCache env i b m = (m', None)"
proof -
  obtain c1 w c2 w' where "co_Add ops (itoa i) (sm_cache m) = (c1, Inr w)" "co_Write ops w b c1 = (c2, w', None)"
    using add_works [OF assms(2)] by blast
  then show ?thesis using assms(1) by (simp add: addSpanToCache_def Let_def)
qed

lemma get_cached_works:
  assumes "se_cache env = ops" and "ok (sm_cache m)" and "contents (sm_cache m) (itoa i) = Some d"
  shows "\<exists>c. getSpanFromCache env i off sz m = (m\<lparr>sm_cache := c\<rparr>, Inr (sub d off (off + sz)))"
  using get_complete [OF assms(2,3)] assms(1) by (auto simp: getSpanFromCache_def)

lemma fetchAndCacheSpan_works:
  assumes "se_cache env = ops" and "sm_inv ok contents env cdata udata m" and "i < length (sm_spans m)"
    and "sp_state (sm_spans m ! i) = unrequested" and "serves env cdata"
  shows "\<exists>m' b. fetchAndCacheSpan env (int i) u m = (m', Inr b)"
proof -
  note I = sm_invD [OF assms(2)]
  let ?m = "put_state (int i) requested m"
  have s: "sm_spans ?m ! i = (sm_spans m ! i)\<lparr>sp_state := requested\<rparr>" using assms(3) by (simp add: nth_put_state)
  have st: "setState (sm_spans m ! i) requested = Inr ((sm_spans m ! i)\<lparr>sp_state := requested\<rparr>)"
    using assms(4) by (simp add: setState_def validateStateTransition_def)
  have S: "sm_static env cdata udata ?m" "i < length (sm_spans ?m)" using I(1) assms(3) by simp_all
  obtain r' where f: "fetchSpanWithRetries env (int i) ?m = (?m\<lparr>sm_r := r'\<rparr>, Inr (cbytes cdata (sm_spans ?m ! i)))"
    using fetch_works [OF S assms(5)] by blast
  let ?m1 = "?m\<lparr>sm_r := r'\<rparr>"
  have u: "uncompressSpan env ?m1 (sm_spans ?m ! i) (cbytes cdata (sm_spans ?m ! i)) = Inr (ubytes udata (sm_spans ?m ! i))"
    using uncompress_ok [of env cdata udata ?m1 i] S by simp
  have g: "get_span ?m1 (int i) = Some (sm_spans ?m ! i)" using staticD(4) [of env cdata udata ?m1 i] S by simp
  let ?b = "if u then ubytes udata (sm_spans ?m ! i) else cbytes cdata (sm_spans ?m ! i)"
  obtain m2 where a: "addSpanToCache env (int i) ?b ?m1 = (m2, None)"
    using add_span_works [OF assms(1), of ?m1] I(2) by auto
  have "setState (sm_spans ?m ! i) (if u then uncompressed else fetched) =
      Inr ((sm_spans ?m ! i)\<lparr>sp_state := (if u then uncompressed else fetched)\<rparr>)"
    by (simp add: s setState_def validateStateTransition_def)
  then have "\<exists>m' b. fetch_and_cache env (int i) u ?m = (m', Inr b)"
    using f g u a by (cases u) (simp_all add: fetch_and_cache_def)
  then show ?thesis using staticD(4) [OF I(1) assms(3)] st by (auto simp: fetchAndCacheSpan_def)
qed

lemma getSpanContent_works:
  assumes "se_cache env = ops" and "sm_inv ok contents env cdata udata m" and "i < length (sm_spans m)"
    and "0 \<le> a" and "a \<le> b" and "b \<le> sp_endUncomp (sm_spans m ! i) - sp_startUncomp (sm_spans m ! i)"
    and "serves env cdata"
  shows "\<exists>m' d. getSpanContent env (int i) a b m = (m', Inr d)"
proof -
  let ?s = "sm_spans m ! i"
  note I = sm_invD [OF assms(2)]
  note g = staticD(4) [OF I(1) assms(3)] and o' = span_offsets [OF I(1) assms(3)] and z = span_sizes [OF I(1) assms(3)]
  have w: "wrap64 (b - a) = b - a" "wrap64 (a + (b - a)) = b" using assms(4-6) o' by (auto simp: wrap64_id)
  have sl: "\<exists>d. slice_result (ubytes udata ?s) a b = Inr d"
    using assms(4-6) z(4) by (simp add: slice_result_def slice_eq)
  consider "sp_state ?s = uncompressed" | "sp_state ?s = fetched" | "sp_state ?s = unrequested"
    using inv_state [OF assms(2,3)] by (cases "sp_state ?s") auto
  then show ?thesis
  proof cases
    case 1
    then show ?thesis
      using get_cached_works [OF assms(1) I(2), of "int i" "ubytes udata ?s" a "b - a"] inv_state [OF assms(2,3)] g o'(9) w
      by (auto simp: getSpanContent_def checkState_def Let_def)
  next
    case 2
    have in_cache: "contents (sm_cache m) (itoa (int i)) = Some (cbytes cdata ?s)"
      using inv_state [OF assms(2,3)] 2 by simp
    obtain c where c: "getSpanFromCache env (int i) 0 (sp_endComp ?s - sp_startComp ?s) m =
        (m\<lparr>sm_cache := c\<rparr>, Inr (cbytes cdata ?s))"
      using get_cached_works [OF assms(1) I(2) in_cache, of 0 "sp_endComp ?s - sp_startComp ?s"] z(3)
      by (metis add_0 sub_all)
    have ok: "ok c" using get_span_cached [OF assms(1) I(2) c] by (metis spanManager.select_convs(1) spanManager.surjective spanManager.update_convs(1))
    have u: "uncompressSpan env (m\<lparr>sm_cache := c\<rparr>) ?s (cbytes cdata ?s) = Inr (ubytes udata ?s)"
      using uncompress_ok [of env cdata udata "m\<lparr>sm_cache := c\<rparr>" i] I(1) assms(3) by simp
    obtain m2 where "addSpanToCache env (int i) (ubytes udata ?s) (m\<lparr>sm_cache := c\<rparr>) = (m2, None)"
      using add_span_works [OF assms(1), of "m\<lparr>sm_cache := c\<rparr>"] ok by auto
    moreover have "setState ?s uncompressed = Inr (?s\<lparr>sp_state := uncompressed\<rparr>)"
      using 2 by (simp add: setState_def validateStateTransition_def)
    ultimately show ?thesis
      using 2 g o'(9) z(1) w c u sl by (simp add: getSpanContent_def checkState_def Let_def)
  next
    case 3
    obtain m1 d where f: "fetchAndCacheSpan env (int i) True m = (m1, Inr d)"
      using fetchAndCacheSpan_works [OF assms(1-3) 3 assms(7)] by blast
    then have "d = ubytes udata ?s" using fetchAndCacheSpan_ok [OF assms(1-3) 3 f] by simp
    then show ?thesis using 3 g o'(9) w f sl by (simp add: getSpanContent_def checkState_def Let_def)
  qed
qed

lemma run_tasks_works:
  assumes "se_cache env = ops" and "sm_inv ok contents env cdata udata m"
    and "\<forall>k \<in> set js. task_ok m si k" and "serves env cdata"
  shows "\<exists>m' rs. run_tasks env si js m = (m', None, rs)"
  using assms(2,3)
proof (induction js arbitrary: m)
  case (Cons j js)
  let ?i = "nat (si_spanStart si) + j"
  have j: "task_ok m si j" using Cons.prems(2) by simp
  then have i: "int j + si_spanStart si = int ?i" by (simp add: task_ok_def Let_def)
  obtain m1 d where g: "getSpanContent env (int ?i) (si_startOffInSpan si ! j) (si_endOffInSpan si ! j) m = (m1, Inr d)"
    using getSpanContent_works [OF assms(1) Cons.prems(1) _ _ _ _ assms(4), of ?i "si_startOffInSpan si ! j" "si_endOffInSpan si ! j"] j
    unfolding task_ok_def Let_def by blast
  have G: "sm_inv ok contents env cdata udata m1" "length (sm_spans m1) = length (sm_spans m)"
    using getSpanContent_ok [OF assms(1) Cons.prems(1) _ _ _ _ g] j by (simp_all add: task_ok_def Let_def)
  note S = task_same [OF sm_invD(1) [OF Cons.prems(1)] sm_invD(1) [OF G(1)] zinfo_getSpanContent [OF g] G(2)]
  obtain m2 rs where "run_tasks env si js m1 = (m2, None, rs)" using Cons.IH [OF G(1)] S(1) Cons.prems(2) by auto
  then show ?case using g [folded i] by simp
qed simp

lemma GetContents_works:
  assumes "se_cache env = ops" and "sm_inv ok contents env cdata udata m"
    and "0 \<le> a" and "a \<le> b" and "b \<le> int (length udata)"
    and "UncompressedOffsetToSpanID (sm_zinfo m) b = Some j" and "j \<le> zt_MaxSpanID (sm_ztoc m)"
    and "\<forall>n. set (sched n) = {0..<n}" and "serves env cdata"
  shows "\<exists>m'. GetContents env sched a b m = (m', Inr (sub udata a b)) \<and> sm_inv ok contents env cdata udata m'"
proof -
  obtain si n where si: "getSpanInfo m a b = Some si" "length (si_startOffInSpan si) = n" "\<forall>k < n. task_ok m si k"
    using getSpanInfo_range [OF sm_invD(1) [OF assms(2)] assms(3-7)] by blast
  then obtain m' rs where "run_tasks env si (sched n) m = (m', None, rs)"
    using run_tasks_works [OF assms(1,2) _ assms(9), of "sched n" si] assms(8) by auto
  then obtain r where r: "GetContents env sched a b m = (m', Inr r)"
    using si by (simp add: GetContents_def Let_def)
  then show ?thesis using GetContents_sound [OF assms(1-8) r] by blast
qed

end

section \<open>A new manager\<close>

lemma build_spans_ok:
  assumes "layer_ok inflate z cdata udata" and "MaxSpanID z = Some m" and "zt_MaxSpanID zt = m"
    and "zt_CompressedArchiveSize zt = int (length cdata)" and "zt_UncompressedArchiveSize zt = int (length udata)"
    and "0 \<le> i" and "i + int n = m + 1"
  shows "\<exists>ss. build_spans z zt n i = Inr ss \<and> length ss = n \<and>
    (\<forall>k < n. span_ok z (int (length cdata)) (int (length udata)) (nat i + k) (ss ! k) \<and> sp_state (ss ! k) = unrequested)"
  using assms(6,7)
proof (induction n arbitrary: i)
  case (Suc n)
  note L = layer_okD [OF assms(1)]
  have i: "0 \<le> i" "i \<le> m" using Suc.prems by auto
  obtain sc ec where c: "StartCompressedOffset z i = Some sc" "EndCompressedOffset z i (int (length cdata)) = Some ec" "sc < ec"
    using comp_layoutD [OF L(3) assms(2) i] by metis
  obtain su eu where u: "StartUncompressedOffset z i = Some su" "EndUncompressedOffset z i (int (length udata)) = Some eu"
    using zinfo.start_Some [OF L(1) assms(2) i] zinfo.end_Some [OF L(1) assms(2) i] by blast
  have lt: "su < eu" if "i < m"
    using zinfo.end_next [OF L(1) assms(2) i(1) that] zinfo.start_mono [OF L(1) assms(2) i(1) that u(1)] u(2) by simp
  obtain ss where ss: "build_spans z zt n (i + 1) = Inr ss" "length ss = n"
      "\<forall>k < n. span_ok z (int (length cdata)) (int (length udata)) (nat (i + 1) + k) (ss ! k) \<and> sp_state (ss ! k) = unrequested"
    using Suc.IH [of "i + 1"] Suc.prems by auto
  let ?s = "\<lparr>sp_id = i, sp_startComp = sc, sp_endComp = ec, sp_startUncomp = su, sp_endUncomp = eu, sp_state = unrequested\<rparr>"
  have suc: "nat (i + 1) + k = nat i + Suc k" for k using i by simp
  have "span_ok z (int (length cdata)) (int (length udata)) (nat i) ?s" using c u i by (simp add: span_ok_def)
  then have "span_ok z (int (length cdata)) (int (length udata)) (nat i + k) ((?s # ss) ! k) \<and>
      sp_state ((?s # ss) ! k) = unrequested" if "k < Suc n" for k
    using ss(3) that unfolding suc by (cases k) simp_all
  moreover have "build_spans z zt (Suc n) i = Inr (?s # ss)" using lt ss(1) c u assms(3-5) by auto
  ultimately show ?case using ss(2) by auto
qed simp

lemma zinfo_upd_checkpoints [simp]:
  "zt_MaxSpanID (zt\<lparr>zt_CompressionInfo := (zt_CompressionInfo zt)\<lparr>ci_Checkpoints := c\<rparr>\<rparr>) = zt_MaxSpanID zt"
  "zt_SpanDigests (zt\<lparr>zt_CompressionInfo := (zt_CompressionInfo zt)\<lparr>ci_Checkpoints := c\<rparr>\<rparr>) = zt_SpanDigests zt"
  by (simp_all add: zt_MaxSpanID_def zt_SpanDigests_def)

text \<open>A descriptor that describes the layer, with the digests of the compressed spans.\<close>

definition ztoc_of :: "('c, 'w, 'r) sm_env \<Rightarrow> ztoc \<Rightarrow> zinfo \<Rightarrow> bytes \<Rightarrow> bytes \<Rightarrow> bool" where
  "ztoc_of env zt z cdata udata \<longleftrightarrow> Ztoc_Zinfo (se_t2z env) zt = Inr z \<and>
     layer_ok (se_inflate env) z cdata udata \<and> MaxSpanID z = Some (zt_MaxSpanID zt) \<and>
     zt_CompressedArchiveSize zt = int (length cdata) \<and> zt_UncompressedArchiveSize zt = int (length udata) \<and>
     int (length (zt_SpanDigests zt)) = zt_MaxSpanID zt + 1 \<and>
     (\<forall>i s e b. i < length (zt_SpanDigests zt) \<and> StartCompressedOffset z (int i) = Some s \<and>
        EndCompressedOffset z (int i) (int (length cdata)) = Some e \<longrightarrow>
        (se_digest env b = zt_SpanDigests zt ! i \<longleftrightarrow> b = sub cdata s e))"

lemma sm_New_spans:
  assumes "ztoc_of env zt z cdata udata"
  defines "zt' \<equiv> zt\<lparr>zt_CompressionInfo := (zt_CompressionInfo zt)\<lparr>ci_Checkpoints := []\<rparr>\<rparr>"
  obtains ss where "build_spans z zt' (nat (zt_MaxSpanID zt + 1)) 0 = Inr ss" and "length ss = nat (zt_MaxSpanID zt + 1)"
    and "\<forall>k < nat (zt_MaxSpanID zt + 1). span_ok z (int (length cdata)) (int (length udata)) k (ss ! k) \<and>
           sp_state (ss ! k) = unrequested"
proof -
  have Z: "layer_ok (se_inflate env) z cdata udata" "MaxSpanID z = Some (zt_MaxSpanID zt)"
      "zt_CompressedArchiveSize zt = int (length cdata)" "zt_UncompressedArchiveSize zt = int (length udata)"
    using assms(1) by (auto simp: ztoc_of_def)
  have "0 \<le> zt_MaxSpanID zt" using zinfo.max_Some [OF layer_okD(1) [OF Z(1)]] Z(2) by auto
  then show ?thesis
    using build_spans_ok [OF Z(1,2), of zt' 0 "nat (zt_MaxSpanID zt + 1)"] Z(3,4) that by (auto simp: zt'_def)
qed

text \<open>Whatever the reader said about the header, a manager that is made satisfies the invariant.\<close>

lemma sm_New_inv:
  assumes "ztoc_of env zt z cdata udata" and "ok c" and "retries < max_int64"
    and "sm_New env zt r c retries = Inr m"
  shows "sm_inv ok cont env cdata udata m \<and> sm_cache m = c \<and> sm_zinfo m = z \<and>
    (\<forall>s \<in> set (sm_spans m). sp_state s = unrequested)"
proof -
  let ?M = "zt_MaxSpanID zt"
  have Z: "Ztoc_Zinfo (se_t2z env) zt = Inr z" "layer_ok (se_inflate env) z cdata udata" "MaxSpanID z = Some ?M"
      "int (length (zt_SpanDigests zt)) = ?M + 1"
    using assms(1) by (auto simp: ztoc_of_def)
  have M: "0 \<le> ?M" "?M + 1 < max_int32" using zinfo.max_Some [OF layer_okD(1) [OF Z(2)]] Z(3) by auto
  let ?zt = "zt\<lparr>zt_CompressionInfo := (zt_CompressionInfo zt)\<lparr>ci_Checkpoints := []\<rparr>\<rparr>"
  obtain ss where ss: "build_spans z ?zt (nat (?M + 1)) 0 = Inr ss" "length ss = nat (?M + 1)"
      "\<forall>k < nat (?M + 1). span_ok z (int (length cdata)) (int (length udata)) k (ss ! k) \<and> sp_state (ss ! k) = unrequested"
    using sm_New_spans [OF assms(1)] .
  have new: "\<exists>r'. m = \<lparr>sm_cache = c, sm_zinfo = z, sm_r = r', sm_spans = ss, sm_ztoc = ?zt,
      sm_retries = (if retries < 0 then defaultSpanVerificationFailureRetries else retries), sm_closed = False\<rparr>"
    using assms(4) Z(1,3) ss(1)
    by (auto simp: sm_New_def Let_def buildAllSpans_def split: if_splits option.splits prod.splits)
  have len: "length (zt_SpanDigests zt) = length ss" using Z(4) ss(2) M(1) by simp
  have dig: "se_digest env b = zt_SpanDigests zt ! i \<longleftrightarrow> b = cbytes cdata (ss ! i)" if "i < length ss" for i b
    using assms(1) ss(2,3) that len unfolding ztoc_of_def cbytes_def span_ok_def by (metis (no_types, lifting))
  have "sm_static env cdata udata m"
    using new Z ss len dig M assms(3) by (auto simp: sm_static_def defaultSpanVerificationFailureRetries_def)
  moreover have "sm_cached (cont c) cdata udata {} m" using new ss(2,3) by (auto simp: sm_cached_def)
  moreover have "\<forall>s \<in> set ss. sp_state s = unrequested" using ss(2,3) by (auto simp: in_set_conv_nth)
  ultimately show ?thesis using new assms(2) by (auto simp: sm_inv_def)
qed

lemma sm_New_works:
  assumes "ztoc_of env zt z cdata udata"
    and "StartCompressedOffset z 0 = Some n" and "se_readAt env r 0 n = (r', sub cdata 0 n, ReadOK)"
    and "VerifyHeader env z (sub cdata 0 n)"
  shows "\<exists>m. sm_New env zt r c retries = Inr m"
proof -
  let ?M = "zt_MaxSpanID zt"
  have Z: "Ztoc_Zinfo (se_t2z env) zt = Inr z" "layer_ok (se_inflate env) z cdata udata" "MaxSpanID z = Some ?M"
      "int (length (zt_SpanDigests zt)) = ?M + 1"
    using assms(1) by (auto simp: ztoc_of_def)
  have M: "0 \<le> ?M" "?M + 1 < max_int32" using zinfo.max_Some [OF layer_okD(1) [OF Z(2)]] Z(3) by auto
  obtain ec where n: "0 \<le> n" "n < ec" "ec \<le> int (length cdata)"
    using comp_layoutD [OF layer_okD(3) [OF Z(2)] Z(3), of 0] M(1) assms(2) by (metis order_refl option.inject)
  have hd: "take (nat n) (sub cdata 0 n @ replicate (nat n) 0) = sub cdata 0 n"
    using length_sub [of 0 n cdata] n by simp
  have w: "wrap32 (?M + 1) = ?M + 1" using M by (simp add: wrap32_id)
  obtain ss where "build_spans z (zt\<lparr>zt_CompressionInfo := (zt_CompressionInfo zt)\<lparr>ci_Checkpoints := []\<rparr>\<rparr>)
      (nat (?M + 1)) 0 = Inr ss"
    using sm_New_spans [OF assms(1)] .
  then show ?thesis
    using Z n w M assms(2-4) hd by (simp add: sm_New_def Let_def buildAllSpans_def)
qed
section \<open>Runs\<close>

text \<open>
  A call of a client: the background fetcher fetches a span, a prefetch resolves a span, a file
  read gets a range that ends inside the spans. What \<open>serves\<close> asks of the reader is not needed.
\<close>

inductive sm_step :: "('c, 'w, 'r) sm_env \<Rightarrow> bytes \<Rightarrow> ('c, 'r) spanManager \<Rightarrow> ('c, 'r) spanManager \<Rightarrow> bool"
  for env udata where
  step_fetch: "FetchSingleSpan env i m = (m', e) \<Longrightarrow> sm_step env udata m m'"
| step_resolve: "ResolveSpan env i m = (m', e) \<Longrightarrow> sm_step env udata m m'"
| step_contents: "0 \<le> a \<Longrightarrow> a \<le> b \<Longrightarrow> b \<le> int (length udata) \<Longrightarrow>
    UncompressedOffsetToSpanID (sm_zinfo m) b = Some j \<Longrightarrow> j \<le> zt_MaxSpanID (sm_ztoc m) \<Longrightarrow>
    \<forall>n. set (sched n) = {0..<n} \<Longrightarrow> GetContents env sched a b m = (m', r) \<Longrightarrow> sm_step env udata m m'"

inductive_cases sm_stepE: "sm_step env udata m m'"

context blob_cache
begin

lemma FetchSingleSpan_ok:
  assumes "se_cache env = ops" and "sm_inv ok contents env cdata udata m" and "FetchSingleSpan env i m = (m', e)"
  shows "sm_inv ok contents env cdata udata m'"
proof (cases "get_span m i")
  case None
  then show ?thesis using assms(2,3) by (auto simp: FetchSingleSpan_def split: if_splits)
next
  case (Some s)
  obtain k where i: "i = int k" "k < length (sm_spans m)" "s = sm_spans m ! k"
    using get_span_SomeE [OF Some] .
  obtain m1 r where f: "fetchAndCacheSpan env i False m = (m1, r)" by (cases "fetchAndCacheSpan env i False m")
  show ?thesis
    using fetchAndCacheSpan_ok [OF assms(1,2) i(2) _ f [unfolded i(1)]] assms(2,3) Some f i(3)
    by (cases r) (auto simp: FetchSingleSpan_def checkState_def split: if_splits)
qed
lemma ResolveSpan_ok:
  assumes "se_cache env = ops" and "sm_inv ok contents env cdata udata m" and "ResolveSpan env i m = (m', e)"
  shows "sm_inv ok contents env cdata udata m'"
proof (cases "get_span m i")
  case None
  then show ?thesis using assms(2,3) by (auto simp: ResolveSpan_def split: if_splits)
next
  case (Some s)
  obtain k where i: "i = int k" "k < length (sm_spans m)" "s = sm_spans m ! k"
    using get_span_SomeE [OF Some] .
  obtain m1 r where f: "fetchAndCacheSpan env i True m = (m1, r)" by (cases "fetchAndCacheSpan env i True m")
  show ?thesis
  proof (cases "sp_state s = unrequested")
    case True
    then show ?thesis
      using fetchAndCacheSpan_ok [OF assms(1,2) i(2) _ f [unfolded i(1)]] assms(2,3) Some f i(3)
      by (cases r) (auto simp: ResolveSpan_def checkState_def split: if_splits)
  next
    case False
    then have "sp_state s = uncompressed \<or> m1 = m"
      using f Some inv_state [OF assms(2) i(2)] i(3)
      by (cases "sp_state s") (auto simp: fetchAndCacheSpan_def setState_def validateStateTransition_def)
    then show ?thesis
      using assms(2,3) Some f by (cases r) (auto simp: ResolveSpan_def checkState_def split: if_splits)
  qed
qed

lemma sm_step_inv:
  assumes "se_cache env = ops" and "sm_step env udata m m'" and "sm_inv ok contents env cdata udata m"
  shows "sm_inv ok contents env cdata udata m'"
  using assms(2)
proof (cases rule: sm_step.cases)
  case (step_fetch i e)
  then show ?thesis using FetchSingleSpan_ok [OF assms(1,3)] by blast
next
  case (step_resolve i e)
  then show ?thesis using ResolveSpan_ok [OF assms(1,3)] by blast
next
  case (step_contents a b j sched r)
  then show ?thesis using GetContents_sound [OF assms(1,3)] by blast
qed

lemma sm_reachable_inv:
  assumes "se_cache env = ops" and "(sm_step env udata)\<^sup>*\<^sup>* m m'" and "sm_inv ok contents env cdata udata m"
  shows "sm_inv ok contents env cdata udata m'"
  using assms(2,3) by (induction rule: rtranclp_induct) (auto intro: sm_step_inv [OF assms(1)])

end

section \<open>A small layer\<close>

text \<open>An uncompressed layer of ten bytes in three spans, read from memory into a memory cache.\<close>

definition ten :: bytes where
  "ten = [0, 1, 2, 3, 4, 5, 6, 7, 8, 9]"

definition ten_zinfo :: tarZinfo where
  "ten_zinfo = \<lparr>tz_version = 2, tz_spanSize = 4, tz_size = 10\<rparr>"

definition byte_digest :: "bytes \<Rightarrow> string" where
  "byte_digest b = map (\<lambda>w. char_of (unat w)) b"

definition ten_ztoc :: ztoc where
  "ten_ztoc = \<lparr>zt_TOC = [], zt_CompressionInfo = \<lparr>ci_MaxSpanID = 2,
     ci_SpanDigests = map byte_digest [[0, 1, 2, 3], [4, 5, 6, 7], [8, 9]],
     ci_Checkpoints = [], ci_CompressionAlgorithm = Uncompressed\<rparr>, zt_Version = Version09,
     zt_BuildToolIdentifier = '''', zt_CompressedArchiveSize = 10, zt_UncompressedArchiveSize = 10\<rparr>"

definition ten_with :: "('r \<Rightarrow> offset \<Rightarrow> int \<Rightarrow> 'r \<times> bytes \<times> read_status) \<Rightarrow> (memoryCache, string \<times> bytes, 'r) sm_env" where
  "ten_with readAt = \<lparr>se_cache = mem_ops, se_cacheClose = id, se_readAt = readAt,
     se_inflate = \<lambda>_ _ _ _ _. (0, []), se_digest = byte_digest, se_header_ok = \<lambda>_. True,
     se_t2z = \<lambda>_. Some ten_zinfo\<rparr>"

definition ten_env :: "(memoryCache, string \<times> bytes, unit) sm_env" where
  "ten_env = ten_with (\<lambda>r s n. (r, sub ten s (s + n), ReadOK))"
lemma byte_digest_inject: "byte_digest a = byte_digest b \<longleftrightarrow> a = b"
proof -
  have "inj (\<lambda>w :: byte. (char_of (unat w) :: char))"
  proof (rule injI)
    fix v w :: byte
    assume "(char_of (unat v) :: char) = char_of (unat w)"
    then have "(of_char (char_of (unat v) :: char) :: nat) = of_char (char_of (unat w) :: char)" by (rule arg_cong)
    then have "unat v mod 256 = unat w mod 256" by simp
    moreover have "unat x < 256" for x :: byte using unsigned_less [of x, where 'a = nat] by simp
    ultimately show "v = w" by (simp add: word_unat_eq_iff)
  qed
  then show ?thesis by (simp add: byte_digest_def inj_map_eq_map)
qed

lemma ten_wf: "tar_wf ten_zinfo (int (length ten))"
  by (simp add: tar_wf_def ten_zinfo_def ten_def)

lemma ten_max: "tar_MaxSpanID ten_zinfo = Some 2"
  by (simp add: tar_MaxSpanID_wf [OF ten_wf]) (simp add: ten_zinfo_def ten_def)

lemma ten_with_ztoc_of: "ztoc_of (ten_with readAt) ten_ztoc (TarZ ten_zinfo) ten ten"
proof -
  have z: "Ztoc_Zinfo (se_t2z (ten_with readAt)) ten_ztoc = Inr (TarZ ten_zinfo)"
    by (simp add: Ztoc_Zinfo_def NewZinfo_def newTarZinfo_def ten_ztoc_def ten_with_def algo_defs)
  have "se_digest (ten_with readAt) b = zt_SpanDigests ten_ztoc ! i \<longleftrightarrow> b = sub ten s e"
    if "i < length (zt_SpanDigests ten_ztoc)" "StartCompressedOffset (TarZ ten_zinfo) (int i) = Some s"
      "EndCompressedOffset (TarZ ten_zinfo) (int i) (int (length ten)) = Some e" for i s e b
  proof -
    have "i = 0 \<or> i = 1 \<or> i = 2" using that(1) by (auto simp: zt_SpanDigests_def ten_ztoc_def)
    then have "zt_SpanDigests ten_ztoc ! i = byte_digest (sub ten s e)"
      using that(2,3) ten_max
      by (auto simp: tar_StartOffset_def tar_EndOffset_def tar_spanIDToOffset_def wrap64_def wrap32_def
          ten_zinfo_def ten_def zt_SpanDigests_def ten_ztoc_def sub_def)
    then show ?thesis by (simp add: ten_with_def byte_digest_inject)
  qed
  then show ?thesis
    using z ten_max tar_layer_ok [OF ten_wf]
    by (simp add: ztoc_of_def zt_MaxSpanID_def zt_SpanDigests_def)
       (simp add: ten_ztoc_def ten_def)
qed

lemma ten_with_New:
  assumes "readAt r 0 0 = (r', [], ReadOK)"
  obtains m where "sm_New (ten_with readAt) ten_ztoc r NewMemoryCache retries = Inr m"
  using sm_New_works [OF ten_with_ztoc_of, of 0 readAt r r' NewMemoryCache retries] assms
  by (auto simp: tar_StartOffset_def tar_spanIDToOffset_def wrap64_def ten_with_def)

lemma ten_ztoc_of: "ztoc_of ten_env ten_ztoc (TarZ ten_zinfo) ten ten"
  unfolding ten_env_def by (rule ten_with_ztoc_of)

lemma ten_cache: "se_cache ten_env = mem_ops"
  by (simp add: ten_env_def ten_with_def)

lemma ten_serves: "serves ten_env ten"
  by (simp add: serves_def ten_env_def ten_with_def)

lemma ten_New:
  obtains m where "sm_New ten_env ten_ztoc () NewMemoryCache 3 = Inr m"
  by (rule ten_with_New [of "\<lambda>r s n. (r, sub ten s (s + n), ReadOK)" "()" "()" 3]) (simp_all add: ten_env_def)
end
