(* ===== verification/Span_Reads.thy ===== *)
theory Span_Reads
  imports Span_Manager
begin

text \<open>
  What the span manager promises its clients, from its creation on: every read returns the
  bytes of the layer or an error, whatever the registry sends; a working registry and cache
  make it succeed; a registry that keeps sending wrong bytes is given up after the configured
  number of retries. Then three situations in which the manager does not do what its comments
  say.
\<close>

section \<open>A registry that sends wrong bytes\<close>

definition wrong_bytes :: "('c, 'w, nat) sm_env \<Rightarrow> ('c, nat) spanManager \<Rightarrow> nat \<Rightarrow> bool" where
  "wrong_bytes env m i \<longleftrightarrow> (let s = sm_spans m ! i; n = sp_endComp s - sp_startComp s in
     \<forall>r. \<exists>b. se_readAt env r (sp_startComp s) n = (Suc r, b, ReadOK) \<and> int (length b) = n \<and>
       se_digest env b \<noteq> zt_SpanDigests (sm_ztoc m) ! i)"

lemma wrong_round:
  assumes "sm_static env cdata udata m" and "i < length (sm_spans m)" and "wrong_bytes env m i"
  defines "s \<equiv> sm_spans m ! i"
  obtains u v where "fetch_loop env (int i) (sp_startComp s) (sp_endComp s - sp_startComp s) (Suc n) e m =
    fetch_loop env (int i) (sp_startComp s) (sp_endComp s - sp_startComp s) n (Some (IncorrectSpanDigest u v))
      (m\<lparr>sm_r := Suc (sm_r m)\<rparr>)"
proof -
  obtain b where b: "se_readAt env (sm_r m) (sp_startComp s) (sp_endComp s - sp_startComp s) = (Suc (sm_r m), b, ReadOK)"
      "int (length b) = sp_endComp s - sp_startComp s" "se_digest env b \<noteq> zt_SpanDigests (sm_ztoc m) ! i"
    using assms(3) by (auto simp: wrong_bytes_def Let_def s_def)
  let ?m = "m\<lparr>sm_r := Suc (sm_r m)\<rparr>"
  have "verifySpanContents env ?m b (int i) \<noteq> None"
    using verify_iff [of env cdata udata ?m i b] assms(1,2) b(3) by (auto simp: sm_static_def)
  moreover have "wrap32 (int (length (sm_spans m))) = int (length (sm_spans m))"
    using zinfo.max_Some [OF layer_okD(1) [OF staticD(1) [OF assms(1,2)]]] staticD(2) [OF assms(1,2)]
    by (intro wrap32_id) auto
  ultimately obtain u v where "verifySpanContents env ?m b (int i) = Some (IncorrectSpanDigest u v)"
    using assms(1,2) by (auto simp: verifySpanContents_def Let_def sm_static_def split: if_splits)
  then show ?thesis using that [of u v] b by simp
qed

lemma fetch_loop_wrong:
  assumes "sm_static env cdata udata m" and "i < length (sm_spans m)" and "wrong_bytes env m i"
  defines "s \<equiv> sm_spans m ! i"
  shows "\<exists>u v. fetch_loop env (int i) (sp_startComp s) (sp_endComp s - sp_startComp s) n (Some (IncorrectSpanDigest x y)) m =
    (m\<lparr>sm_r := sm_r m + n\<rparr>, Inl (IncorrectSpanDigest u v))"
  using assms(1-3) unfolding s_def
proof (induction n arbitrary: m x y)
  case (Suc n)
  let ?m = "m\<lparr>sm_r := Suc (sm_r m)\<rparr>"
  have "wrong_bytes env ?m i" using Suc.prems(3) by (simp add: wrong_bytes_def)
  moreover obtain u v where "fetch_loop env (int i) (sp_startComp (sm_spans m ! i))
      (sp_endComp (sm_spans m ! i) - sp_startComp (sm_spans m ! i)) (Suc n) (Some (IncorrectSpanDigest x y)) m =
      fetch_loop env (int i) (sp_startComp (sm_spans m ! i))
      (sp_endComp (sm_spans m ! i) - sp_startComp (sm_spans m ! i)) n (Some (IncorrectSpanDigest u v)) ?m"
    using wrong_round [OF Suc.prems] .
  ultimately show ?case using Suc.IH [of ?m u v] Suc.prems(1,2) by simp
qed simp

lemma fetch_wrong:
  assumes "sm_static env cdata udata m" and "i < length (sm_spans m)" and "wrong_bytes env m i"
  shows "\<exists>u v. fetchSpanWithRetries env (int i) m =
    (m\<lparr>sm_r := sm_r m + nat (sm_retries m + 1)\<rparr>, Inl (IncorrectSpanDigest u v))"
proof -
  let ?s = "sm_spans m ! i" and ?m = "m\<lparr>sm_r := Suc (sm_r m)\<rparr>"
  have w: "nat (wrap64 (sm_retries m + 1)) = Suc (nat (sm_retries m))" "nat (sm_retries m + 1) = Suc (nat (sm_retries m))"
    using assms(1) by (auto simp: sm_static_def wrap64_id)
  have "wrong_bytes env ?m i" using assms(3) by (simp add: wrong_bytes_def)
  moreover obtain u v where "fetch_loop env (int i) (sp_startComp ?s) (sp_endComp ?s - sp_startComp ?s)
      (Suc (nat (sm_retries m))) None m =
      fetch_loop env (int i) (sp_startComp ?s) (sp_endComp ?s - sp_startComp ?s) (nat (sm_retries m))
        (Some (IncorrectSpanDigest u v)) ?m"
    using wrong_round [OF assms] .
  ultimately show ?thesis
    using fetch_loop_wrong [of env cdata udata ?m i "nat (sm_retries m)" u v] assms(1,2) w
      staticD(4) [OF assms(1,2)] span_sizes(1,3) [OF assms(1,2)] span_offsets(2) [OF assms(1,2)]
    by (simp add: fetchSpanWithRetries_def Let_def)
qed

section \<open>The spans of a layer\<close>

lemma spans_partition:
  assumes "sm_static env cdata udata m"
  shows "concat (map (ubytes udata) (sm_spans m)) = udata"
proof -
  let ?n = "length (sm_spans m)" and ?z = "sm_zinfo m" and ?us = "int (length udata)"
  have L: "zinfo_wf ?z ?us" "MaxSpanID ?z = Some (int ?n - 1)"
    using assms layer_okD(1) by (auto simp: sm_static_def)
  have n: "0 < ?n" using zinfo.max_Some [OF L(1)] L(2) by auto
  have D: "StartUncompressedOffset ?z (int k) = Some (sp_startUncomp (sm_spans m ! k))"
      "EndUncompressedOffset ?z (int k) ?us = Some (sp_endUncomp (sm_spans m ! k))" if "k < ?n" for k
    using staticD(3) [OF assms that] by (simp_all add: span_ok_def)
  have next_start: "sp_endUncomp (sm_spans m ! k) = sp_startUncomp (sm_spans m ! Suc k)" if "Suc k < ?n" for k
    using zinfo.end_next [OF L, of "int k"] D(2) [of k] D(1) [of "Suc k"] that by (simp add: add.commute)
  have first: "sp_startUncomp (sm_spans m ! 0) = 0" using zinfo.start_0 [OF L(1)] D(1) [OF n] by simp
  have final: "sp_endUncomp (sm_spans m ! (?n - 1)) = ?us"
    using zinfo.end_last [OF L] D(2) [of "?n - 1"] n by (simp add: of_nat_diff)
  have "map (ubytes udata) (sm_spans m) = map (\<lambda>k. sub udata (sp_startUncomp (sm_spans m ! k)) (sp_endUncomp (sm_spans m ! k))) [0..<?n]"
    by (rule nth_equalityI) (simp_all add: ubytes_def)
  then show ?thesis
    using concat_subs [of ?n "\<lambda>k. sp_startUncomp (sm_spans m ! k)" "\<lambda>k. sp_endUncomp (sm_spans m ! k)" udata]
      span_offsets(5) [OF assms] next_start first final n by simp
qed

lemma span_of_end:
  assumes "sm_inv ok cont env cdata udata m" and "0 \<le> b" and "b < int (length udata)"
  obtains j where "UncompressedOffsetToSpanID (sm_zinfo m) b = Some j" and "j \<le> zt_MaxSpanID (sm_ztoc m)"
proof -
  have S: "layer_ok (se_inflate env) (sm_zinfo m) cdata udata" "MaxSpanID (sm_zinfo m) = Some (zt_MaxSpanID (sm_ztoc m))"
    using sm_invD(1) [OF assms(1)] by (simp_all add: sm_static_def)
  show ?thesis
    using zinfo.id_Some [OF layer_okD(1) [OF S(1)] S(2) assms(2)] assms(3) that by auto
qed
section \<open>Properties\<close>

text \<open>
  C1: whatever the registry sends and whatever has been fetched, resolved and read before, a
  read of a range inside the layer that succeeds returns exactly the layer's bytes, for every
  order in which the goroutines of the spans run.
\<close>

theorem GetContents_correct:
  assumes "blob_cache (se_cache env) ok cont" and "ztoc_of env zt z cdata udata" and "ok c"
    and "retries < max_int64" and "sm_New env zt r c retries = Inr m0" and "(sm_step env udata)\<^sup>*\<^sup>* m0 m"
    and "0 \<le> a" and "a \<le> b" and "b < int (length udata)" and "\<forall>n. set (sched n) = {0..<n}"
    and "GetContents env sched a b m = (m', Inr d)"
  shows "d = sub udata a b"
proof -
  have "sm_inv ok cont env cdata udata m0" using sm_New_inv [where ok = ok, OF assms(2-5)] by blast
  then have inv: "sm_inv ok cont env cdata udata m"
    using blob_cache.sm_reachable_inv [OF assms(1) refl assms(6)] by blast
  obtain j where j: "UncompressedOffsetToSpanID (sm_zinfo m) b = Some j" "j \<le> zt_MaxSpanID (sm_ztoc m)"
    using span_of_end [OF inv _ assms(9)] assms(7,8) by auto
  show ?thesis
    using blob_cache.GetContents_sound [OF assms(1) refl inv assms(7,8) _ j assms(10,11)] assms(9) by simp
qed

theorem GetContents_correct_witness:
  "\<exists>m0 m e m'. sm_New ten_env ten_ztoc () NewMemoryCache 3 = Inr m0 \<and> FetchSingleSpan ten_env 1 m0 = (m, e) \<and>
     GetContents ten_env (\<lambda>n. rev [0..<n]) 2 7 m = (m', Inr [2, 3, 4, 5, 6])"
proof -
  obtain m0 where m0: "sm_New ten_env ten_ztoc () NewMemoryCache 3 = Inr m0" using ten_New .
  obtain m e where m: "FetchSingleSpan ten_env 1 m0 = (m, e)" by (cases "FetchSingleSpan ten_env 1 m0")
  have "sm_inv (\<lambda>c. True) Membuf ten_env ten ten m0"
    using sm_New_inv [where ok = "\<lambda>c. True", OF ten_ztoc_of _ _ m0] by auto
  then have inv: "sm_inv (\<lambda>c. True) Membuf ten_env ten ten m"
    using mem_cache.FetchSingleSpan_ok [OF ten_cache _ m] by blast
  obtain j where j: "UncompressedOffsetToSpanID (sm_zinfo m) 7 = Some j" "j \<le> zt_MaxSpanID (sm_ztoc m)"
    using span_of_end [OF inv, of 7] by (auto simp: ten_def)
  obtain m' d where g: "GetContents ten_env (\<lambda>n. rev [0..<n]) 2 7 m = (m', Inr d)"
    using mem_cache.GetContents_works [OF ten_cache inv _ _ _ j _ ten_serves, of 2 "\<lambda>n. rev [0..<n]"]
    by (auto simp: ten_def)
  have "d = sub ten 2 7"
    by (rule GetContents_correct [OF mem_cache.blob_cache_axioms [folded ten_cache] ten_ztoc_of _ _ m0 _ _ _ _ _ g])
       (auto simp: ten_def intro: r_into_rtranclp step_fetch [OF m])
  then show ?thesis using m0 m g by (auto simp: ten_def sub_def)
qed

text \<open>
  C17: with a registry that serves the layer and a cache whose store works, a read of a range
  inside the layer succeeds in every state that clients can bring the manager to.
\<close>

theorem GetContents_succeeds:
  assumes "live_blob_cache (se_cache env) ok cont" and "ztoc_of env zt z cdata udata" and "ok c"
    and "retries < max_int64" and "sm_New env zt r c retries = Inr m0" and "(sm_step env udata)\<^sup>*\<^sup>* m0 m"
    and "0 \<le> a" and "a \<le> b" and "b < int (length udata)" and "\<forall>n. set (sched n) = {0..<n}"
    and "serves env cdata"
  shows "\<exists>m'. GetContents env sched a b m = (m', Inr (sub udata a b))"
proof -
  have "sm_inv ok cont env cdata udata m0" using sm_New_inv [where ok = ok, OF assms(2-5)] by blast
  then have inv: "sm_inv ok cont env cdata udata m"
    using blob_cache.sm_reachable_inv [OF live_blob_cache.axioms(1) [OF assms(1)] refl assms(6)] by blast
  obtain j where j: "UncompressedOffsetToSpanID (sm_zinfo m) b = Some j" "j \<le> zt_MaxSpanID (sm_ztoc m)"
    using span_of_end [OF inv _ assms(9)] assms(7,8) by auto
  show ?thesis
    using live_blob_cache.GetContents_works [OF assms(1) refl inv assms(7,8) _ j assms(10,11)] assms(9) by auto
qed

theorem GetContents_succeeds_witness:
  "\<exists>m0 m'. sm_New ten_env ten_ztoc () NewMemoryCache 3 = Inr m0 \<and>
     GetContents ten_env (\<lambda>n. [0..<n]) 3 9 m0 = (m', Inr [3, 4, 5, 6, 7, 8])"
proof -
  obtain m0 where m0: "sm_New ten_env ten_ztoc () NewMemoryCache 3 = Inr m0" using ten_New .
  have "\<exists>m'. GetContents ten_env (\<lambda>n. [0..<n]) 3 9 m0 = (m', Inr (sub ten 3 9))"
    by (rule GetContents_succeeds [OF mem_cache.live_blob_cache_axioms [folded ten_cache] ten_ztoc_of _ _ m0
          rtranclp.rtrancl_refl _ _ _ _ ten_serves]) (simp_all add: ten_def)
  then show ?thesis using m0 by (simp add: ten_def sub_def)
qed

text \<open>
  C27: a descriptor that describes the layer is accepted, and the manager starts with one
  unrequested span for each ID, laid out as the index says.
\<close>

theorem sm_New_accepts:
  assumes "ztoc_of env zt z cdata udata" and "StartCompressedOffset z 0 = Some n"
    and "se_readAt env r 0 n = (r', sub cdata 0 n, ReadOK)" and "VerifyHeader env z (sub cdata 0 n)"
    and "retries < max_int64"
  shows "\<exists>m. sm_New env zt r c retries = Inr m \<and> int (length (sm_spans m)) = zt_MaxSpanID zt + 1 \<and>
    list_all (\<lambda>s. checkState s unrequested) (sm_spans m) \<and> concat (map (ubytes udata) (sm_spans m)) = udata"
proof -
  obtain m where m: "sm_New env zt r c retries = Inr m" using sm_New_works [OF assms(1-4)] by blast
  have I: "sm_inv (\<lambda>c. True) (\<lambda>c k. None) env cdata udata m" "sm_zinfo m = z"
      "\<forall>s \<in> set (sm_spans m). sp_state s = unrequested"
    using sm_New_inv [where ok = "\<lambda>c. True", OF assms(1) _ assms(5) m] by auto
  have "int (length (sm_spans m)) = zt_MaxSpanID zt + 1"
    using sm_invD(1) [OF I(1)] I(2) assms(1) by (simp add: sm_static_def ztoc_of_def)
  then show ?thesis
    using m I(3) spans_partition [OF sm_invD(1) [OF I(1)]] by (simp add: checkState_def list_all_iff)
qed
theorem sm_New_accepts_witness:
  "\<exists>m. sm_New ten_env ten_ztoc () NewMemoryCache 3 = Inr m \<and> length (sm_spans m) = 3 \<and>
     concat (map (ubytes ten) (sm_spans m)) = ten"
proof -
  have "zt_MaxSpanID ten_ztoc = 2" by (simp add: ten_ztoc_def zt_MaxSpanID_def)
  then show ?thesis
    using sm_New_accepts [OF ten_ztoc_of, of 0 "()" "()" 3 NewMemoryCache]
    by (auto simp: tar_StartOffset_def tar_spanIDToOffset_def wrap64_def ten_env_def ten_with_def)
qed

text \<open>
  A registry that keeps sending wrong bytes for a span is asked exactly as often as the
  configured retries and once more; then the fetch fails with a digest error, the span can be
  requested again, and neither the cache nor any other span is touched.
\<close>

theorem FetchSingleSpan_gives_up:
  assumes "sm_inv ok cont env cdata udata m" and "i < length (sm_spans m)"
    and "sp_state (sm_spans m ! i) = unrequested" and "wrong_bytes env m i"
  shows "\<exists>u v. FetchSingleSpan env (int i) m =
    (m\<lparr>sm_r := sm_r m + nat (sm_retries m + 1)\<rparr>, Some (IncorrectSpanDigest u v))"
proof -
  note S = sm_invD(1) [OF assms(1)]
  let ?m = "put_state (int i) requested m"
  have R: "sm_static env cdata udata ?m" "i < length (sm_spans ?m)" using S assms(2) by simp_all
  have "wrong_bytes env ?m i" using assms(2,4) by (simp add: wrong_bytes_def nth_put_state Let_def)
  then obtain u v where f: "fetchSpanWithRetries env (int i) ?m =
      (?m\<lparr>sm_r := sm_r ?m + nat (sm_retries ?m + 1)\<rparr>, Inl (IncorrectSpanDigest u v))"
    using fetch_wrong [OF R] by blast
  let ?m1 = "?m\<lparr>sm_r := sm_r ?m + nat (sm_retries ?m + 1)\<rparr>"
  have "fetch_and_cache env (int i) False ?m = (?m1, Inl (IncorrectSpanDigest u v))"
    using f by (simp add: fetch_and_cache_def)
  moreover have "get_span ?m1 (int i) = Some (sm_spans ?m ! i)"
    using staticD(4) [of env cdata udata ?m1 i] R by simp
  moreover have "(sm_spans m ! i)\<lparr>sp_state := unrequested\<rparr> = sm_spans m ! i" using assms(3) by simp
  then have "put_state (int i) unrequested ?m1 = m\<lparr>sm_r := sm_r m + nat (sm_retries m + 1)\<rparr>"
    using assms(2) by (simp add: put_state_def)
  ultimately have "fetchAndCacheSpan env (int i) False m =
      (m\<lparr>sm_r := sm_r m + nat (sm_retries m + 1)\<rparr>, Inl (IncorrectSpanDigest u v))"
    using staticD(4) [OF S assms(2)] assms(2,3)
    by (simp add: fetchAndCacheSpan_def setState_def validateStateTransition_def checkState_def nth_put_state)
  then show ?thesis
    using staticD(4) [OF S assms(2)] assms(2,3) S
    by (auto simp: FetchSingleSpan_def checkState_def sm_static_def)
qed

definition noise :: "nat \<Rightarrow> offset \<Rightarrow> int \<Rightarrow> nat \<times> bytes \<times> read_status" where
  "noise r s n = (Suc r, replicate (nat n) 255, ReadOK)"

theorem FetchSingleSpan_gives_up_witness:
  "\<exists>m m' u v. sm_New (ten_with noise) ten_ztoc 0 NewMemoryCache 3 = Inr m \<and>
     FetchSingleSpan (ten_with noise) 2 m = (m', Some (IncorrectSpanDigest u v)) \<and> sm_r m' = sm_r m + 4"
proof -
  obtain m where m: "sm_New (ten_with noise) ten_ztoc 0 NewMemoryCache 3 = Inr m"
    using ten_with_New [of noise 0] by (auto simp: noise_def)
  note I = sm_New_inv [where ok = "\<lambda>c. True" and cont = Membuf, OF ten_with_ztoc_of _ _ m]
  have inv: "sm_inv (\<lambda>c. True) Membuf (ten_with noise) ten ten m" and zi: "sm_zinfo m = TarZ ten_zinfo"
    and u: "\<forall>s \<in> set (sm_spans m). sp_state s = unrequested"
    using I by auto
  note S = sm_invD(1) [OF inv]
  have len: "length (sm_spans m) = 3" using S zi ten_max by (simp add: sm_static_def)
  then have s: "sp_state (sm_spans m ! 2) = unrequested" using u by simp
  have b: "cbytes ten (sm_spans m ! 2) = [8, 9]"
    using staticD(3) [OF S, of 2] len zi ten_max
    by (simp add: span_ok_def cbytes_def tar_StartOffset_def tar_EndOffset_def tar_spanIDToOffset_def
        wrap64_def wrap32_def ten_zinfo_def ten_def sub_def)
  have n: "sp_endComp (sm_spans m ! 2) - sp_startComp (sm_spans m ! 2) = 2"
    using span_sizes(3) [OF S, of 2] len b by simp
  have "replicate 2 (255 :: byte) = [255, 255]" by (simp add: numeral_2_eq_2)
  then have "wrong_bytes (ten_with noise) m 2"
    using S len b n by (simp add: wrong_bytes_def Let_def noise_def ten_with_def sm_static_def)
  moreover have "sm_retries m = 3"
    using m by (auto simp: sm_New_def Let_def buildAllSpans_def bind_res_Inr_iff split: if_splits option.splits sum.splits prod.splits)
  ultimately show ?thesis
    using m FetchSingleSpan_gives_up [OF inv, of 2] len s by fastforce
qed

text \<open>
  A span that the background fetcher has fetched cannot be resolved: \<^verbatim>\<open>ResolveSpan\<close> asks for
  the transition from \<^verbatim>\<open>fetched\<close> to \<^verbatim>\<open>requested\<close>, which the state machine refuses, and returns
  that error although the span is in the cache.
\<close>

theorem ResolveSpan_fetched_fails:
  assumes "sm_inv ok cont env cdata udata m" and "i < length (sm_spans m)"
    and "sp_state (sm_spans m ! i) = fetched"
  shows "ResolveSpan env (int i) m = (m, Some (InvalidSpanStateTransition fetched requested))"
proof -
  note S = sm_invD(1) [OF assms(1)]
  show ?thesis
    using staticD(4) [OF S assms(2)] assms(2,3) S
    by (auto simp: ResolveSpan_def fetchAndCacheSpan_def setState_def validateStateTransition_def checkState_def
        sm_static_def)
qed

theorem ResolveSpan_fetched_fails_witness:
  "\<exists>m0 m. sm_New ten_env ten_ztoc () NewMemoryCache 3 = Inr m0 \<and> FetchSingleSpan ten_env 1 m0 = (m, None) \<and>
     ResolveSpan ten_env 1 m = (m, Some (InvalidSpanStateTransition fetched requested))"
proof -
  obtain m0 where m0: "sm_New ten_env ten_ztoc () NewMemoryCache 3 = Inr m0" using ten_New .
  have inv: "sm_inv (\<lambda>c. True) Membuf ten_env ten ten m0" and zi: "sm_zinfo m0 = TarZ ten_zinfo"
    and u: "\<forall>s \<in> set (sm_spans m0). sp_state s = unrequested"
    using sm_New_inv [where ok = "\<lambda>c. True", OF ten_ztoc_of _ _ m0] by auto
  have len: "1 < length (sm_spans m0)" and mx: "zt_MaxSpanID (sm_ztoc m0) = 2"
    using sm_invD(1) [OF inv] zi ten_max by (simp_all add: sm_static_def)
  then have s: "sp_state (sm_spans m0 ! 1) = unrequested" using u by simp
  obtain m b where m: "fetchAndCacheSpan ten_env (int 1) False m0 = (m, Inr b)"
    using mem_cache.fetchAndCacheSpan_works [OF ten_cache inv len s ten_serves] by blast
  have M: "sm_inv (\<lambda>c. True) Membuf ten_env ten ten m" "1 < length (sm_spans m)" "sp_state (sm_spans m ! 1) = fetched"
    using mem_cache.fetchAndCacheSpan_ok [OF ten_cache inv len s m] len by auto
  have "FetchSingleSpan ten_env 1 m0 = (m, None)"
    using m s mx staticD(4) [OF sm_invD(1) [OF inv] len] by (simp add: FetchSingleSpan_def checkState_def)
  then show ?thesis using m0 ResolveSpan_fetched_fails [OF M] by auto
qed

text \<open>
  C33: the result of committing to the cache is dropped. If the file of an uncompressed span
  cannot be renamed into place, the read that uncompressed it succeeds, the span counts as
  uncompressed, and the next read returns the compressed bytes, still in the cache, as the
  contents of the layer.
\<close>

theorem failed_commit_serves_compressed:
  assumes "sm_inv dir_ok dir_contents env cdata udata m" and "se_cache env = dir_ops ops os_good True"
    and "i < length (sm_spans m)" and "sp_state (sm_spans m ! i) = fetched"
    and "0 \<le> a" and "a \<le> b" and "b \<le> sp_endUncomp (sm_spans m ! i) - sp_startUncomp (sm_spans m ! i)"
  shows "\<exists>m1 m2.
    getSpanContent (env\<lparr>se_cache := dir_ops ops (os_good\<lparr>os_rename := False\<rparr>) True\<rparr>) (int i) a b m =
      (m1, Inr (sub (ubytes udata (sm_spans m ! i)) a b)) \<and>
    getSpanContent env (int i) a b m1 = (m2, Inr (sub (cbytes cdata (sm_spans m ! i)) a b))"
proof -
  let ?s = "sm_spans m ! i" and ?dc = "sm_cache m"
  let ?bad = "env\<lparr>se_cache := dir_ops ops (os_good\<lparr>os_rename := False\<rparr>) True\<rparr>"
  note I = sm_invD [OF assms(1)]
  note g = staticD(4) [OF I(1) assms(3)] and o' = span_offsets [OF I(1) assms(3)] and z = span_sizes [OF I(1) assms(3)]
  have w: "wrap64 (b - a) = b - a" "wrap64 (a + (b - a)) = b" using assms(5-7) o' by (auto simp: wrap64_id)
  obtain f where f: "dc_names ?dc (itoa (int i)) = Some f" "dc_inodes ?dc ! f = cbytes cdata ?s" "f < length (dc_inodes ?dc)"
    using inv_state [OF assms(1,3)] assms(4) I(2) by (auto simp: dir_contents_def dir_ok_def)
  have open': "\<not> dc_closed ?dc" using I(2) by (simp add: dir_ok_def)
  have get: "getSpanFromCache ?bad (int i) 0 (sp_endComp ?s - sp_startComp ?s) m = (m, Inr (cbytes cdata ?s))"
    using f open' z(3)
    by (simp add: getSpanFromCache_def dir_ops_def dc_Get_def dc_open_def os_good_def) (metis sub_all)
  have unc: "uncompressSpan ?bad m ?s (cbytes cdata ?s) = Inr (ubytes udata ?s)"
    using uncompress_ok [OF I(1) assms(3)] by (simp add: uncompressSpan_def Let_def split: if_splits)
  let ?dc' = "?dc\<lparr>dc_inodes := dc_inodes ?dc @ [ubytes udata ?s]\<rparr>"
  have add: "addSpanToCache ?bad (int i) (ubytes udata ?s) m = (m\<lparr>sm_cache := ?dc'\<rparr>, None)"
    using open'
    by (simp add: addSpanToCache_def Let_def dir_ops_def dc_Add_def os_good_def append_inode_def file_commit_def)
  let ?m1 = "put_state (int i) uncompressed (m\<lparr>sm_cache := ?dc'\<rparr>)"
  have "slice_result (ubytes udata ?s) a b = Inr (sub (ubytes udata ?s) a b)"
    using assms(5-7) z(4) by (simp add: slice_result_def slice_eq)
  then have one: "getSpanContent ?bad (int i) a b m = (?m1, Inr (sub (ubytes udata ?s) a b))"
    using g get unc add o'(9) z(1) w assms(4)
    by (simp add: getSpanContent_def checkState_def Let_def setState_def validateStateTransition_def)
  have s1: "sm_spans ?m1 ! i = ?s\<lparr>sp_state := uncompressed\<rparr>" using assms(3) by (simp add: nth_put_state)
  have "get_span ?m1 (int i) = Some (?s\<lparr>sp_state := uncompressed\<rparr>)"
    using s1 assms(3) by (simp add: get_span_def)
  moreover have "getSpanFromCache env (int i) a (b - a) ?m1 = (?m1, Inr (sub (cbytes cdata ?s) a b))"
    using f open' assms(2)
    by (simp add: getSpanFromCache_def dir_ops_def dc_Get_def dc_open_def os_good_def nth_append put_state_def)
  ultimately have "getSpanContent env (int i) a b ?m1 = (?m1, Inr (sub (cbytes cdata ?s) a b))"
    using w o'(9) by (simp add: getSpanContent_def checkState_def Let_def)
  then show ?thesis using one by blast
qed

text \<open>A gzip layer of one span, fetched and in the cache.\<close>

definition abc_zinfo :: gzip_zinfo where
  "abc_zinfo = \<lparr>gz_version = 2, gz_have = 1, gz_size = 1,
     gz_list = [\<lparr>cp_out = 0, cp_in = 10, cp_bits = 0, cp_window = replicate WINSIZE 0\<rparr>], gz_span_size = 4\<rparr>"

definition abc_inflate :: inflate_fun where
  "abc_inflate b z off sz i = (sz, sub [97, 98, 99] off (off + sz))"

definition abc_env :: "((nat \<times> (string \<times> addr) list) directoryCache, writer, unit) sm_env" where
  "abc_env = \<lparr>se_cache = dir_ops list_lru os_good True, se_cacheClose = dc_Close, se_readAt = \<lambda>r s n. (r, [], ReadFailedWith),
     se_inflate = abc_inflate, se_digest = byte_digest, se_header_ok = \<lambda>_. True, se_t2z = \<lambda>_. None\<rparr>"

definition abc_manager :: "((nat \<times> (string \<times> addr) list) directoryCache, unit) spanManager" where
  "abc_manager = \<lparr>sm_cache = one_file\<lparr>dc_names := [itoa 0 \<mapsto> 0], dc_inodes := [[75, 76]]\<rparr>, sm_zinfo = GzipZ abc_zinfo,
     sm_r = (), sm_spans = [\<lparr>sp_id = 0, sp_startComp = 10, sp_endComp = 12, sp_startUncomp = 0, sp_endUncomp = 3,
       sp_state = fetched\<rparr>],
     sm_ztoc = ten_ztoc\<lparr>zt_CompressionInfo := \<lparr>ci_MaxSpanID = 0, ci_SpanDigests = [byte_digest [75, 76]],
       ci_Checkpoints = [], ci_CompressionAlgorithm = Gzip\<rparr>\<rparr>,
     sm_retries = 3, sm_closed = False\<rparr>"

lemma abc_inv:
  "sm_inv dir_ok dir_contents abc_env [31, 139, 8, 0, 0, 0, 0, 0, 0, 3, 75, 76] [97, 98, 99] abc_manager"
proof -
  let ?c = "[31, 139, 8, 0, 0, 0, 0, 0, 0, 3, 75, 76] :: bytes" and ?u = "[97, 98, 99] :: bytes"
  have off: "MaxSpanID (GzipZ abc_zinfo) = Some 0" "StartCompressedOffset (GzipZ abc_zinfo) 0 = Some 10"
      "EndCompressedOffset (GzipZ abc_zinfo) 0 cs = Some cs" "StartUncompressedOffset (GzipZ abc_zinfo) 0 = Some 0"
      "EndUncompressedOffset (GzipZ abc_zinfo) 0 us = Some us" for cs us
    by (simp_all add: abc_zinfo_def gzip_MaxSpanID_def get_max_span_id_def gzip_StartCompressedOffset_def
        gzip_EndCompressedOffset_def gzip_StartUncompressedOffset_def gzip_EndUncompressedOffset_def
        get_comp_off_def get_ucomp_off_def has_bits_def checkpoint_def wrap32_def)
  have "zinfo_wf (GzipZ abc_zinfo) 3" by (simp add: gzip_wf_def abc_zinfo_def)
  moreover have "comp_layout (GzipZ abc_zinfo) 12"
  proof -
    have "i = 0" if "0 \<le> i" "i \<le> m" "MaxSpanID (GzipZ abc_zinfo) = Some m" for i m using that off(1) by simp
    then show ?thesis unfolding comp_layout_def using off by fastforce
  qed
  moreover have "extracts abc_inflate (GzipZ abc_zinfo) ?c ?u"
    unfolding extracts_def off(1)
  proof (intro allI impI, elim conjE)
    fix m i j ci cj si ej x sz :: int
    assume a: "Some (0::int) = Some m" "0 \<le> i" "i \<le> j" "j \<le> m" "StartCompressedOffset (GzipZ abc_zinfo) i = Some ci"
      "EndCompressedOffset (GzipZ abc_zinfo) j (int (length ?c)) = Some cj" "0 < sz"
    then have i: "i = 0" "j = 0" by auto
    then have "ci = 10" "cj = 12" using a(5,6) off(2,3) by auto
    then show "ExtractDataFromBuffer abc_inflate (GzipZ abc_zinfo) (sub ?c ci cj) sz x i = Inr (sub ?u x (x + sz))"
      using a(7) i by (simp add: gzip_ExtractDataFromBuffer_def abc_inflate_def sub_def)
  qed
  ultimately have "layer_ok abc_inflate (GzipZ abc_zinfo) ?c ?u" by (simp add: layer_ok_def)
  then have "sm_static abc_env ?c ?u abc_manager"
    using off
    by (simp add: sm_static_def abc_env_def abc_manager_def zt_MaxSpanID_def zt_SpanDigests_def span_ok_def
        byte_digest_inject cbytes_def sub_def)
  then show ?thesis
    by (simp add: sm_inv_def sm_cached_def abc_manager_def dir_ok_def dir_contents_def one_file_def cbytes_def sub_def)
qed

theorem failed_commit_serves_compressed_witness:
  "\<exists>m1 m2. getSpanContent (abc_env\<lparr>se_cache := dir_ops list_lru (os_good\<lparr>os_rename := False\<rparr>) True\<rparr>) 0 0 2 abc_manager =
      (m1, Inr [97, 98]) \<and> getSpanContent abc_env 0 0 2 m1 = (m2, Inr [75, 76])"
proof -
  have "se_cache abc_env = dir_ops list_lru os_good True" by (simp add: abc_env_def)
  moreover have "sm_spans abc_manager = [\<lparr>sp_id = 0, sp_startComp = 10, sp_endComp = 12, sp_startUncomp = 0,
      sp_endUncomp = 3, sp_state = fetched\<rparr>]"
    by (simp add: abc_manager_def)
  ultimately show ?thesis
    using failed_commit_serves_compressed [OF abc_inv, of list_lru 0 0 2]
    by (simp add: ubytes_def cbytes_def sub_def)
qed

end
