(* ===== verification/Metadata_Db.thy ===== *)
theory Metadata_Db
  imports Ztoc_Toc "HOL-Library.AList"
begin

text \<open>
  The buckets of the metadata database, \<^verbatim>\<open>metadata/db.go\<close> and \<^verbatim>\<open>util/dbutil/encoders.go\<close>: how the
  attributes of a node and the children of a directory are written and read. A bucket is a
  record with one optional field per key of the schema that heads \<^verbatim>\<open>db.go\<close>; the codecs of the
  values are modelled apart and proved to be inverse to each other, so the fields hold the
  decoded values. A Go map is a list of pairs with distinct keys, in the order in which the
  run time happens to iterate over it.
\<close>

section \<open>Integers in the database\<close>

function PutUvarint :: "nat \<Rightarrow> nat list" where
  "PutUvarint x = (if x < 128 then [x] else (x mod 128 + 128) # PutUvarint (x div 128))"
  by auto
termination by (relation "measure id") auto

declare PutUvarint.simps [simp del]

text \<open>\<^verbatim>\<open>binary.Uvarint\<close> from byte \<open>i\<close> on: the value and the number of bytes read, 0 or less on failure.\<close>

fun Uvarint_loop :: "nat list \<Rightarrow> nat \<Rightarrow> nat \<Rightarrow> nat \<times> int" where
  "Uvarint_loop [] i x = (0, 0)"
| "Uvarint_loop (b # bs) i x =
     (if i = 10 then (0, - int (i + 1))
      else if b < 128
      then (if i = 9 \<and> b > 1 then (0, - int (i + 1)) else (x + b * 128 ^ i, int i + 1))
      else Uvarint_loop bs (i + 1) (x + (b - 128) * 128 ^ i))"

definition Uvarint :: "nat list \<Rightarrow> nat \<times> int" where
  "Uvarint bs = Uvarint_loop bs 0 0"

definition PutVarint :: "int \<Rightarrow> nat list" where
  "PutVarint x = PutUvarint (nat (if x < 0 then - 2 * x - 1 else 2 * x))"

definition Varint :: "nat list \<Rightarrow> int \<times> int" where
  "Varint bs = (case Uvarint bs of (ux, n) \<Rightarrow> (if odd ux then - int (ux div 2) - 1 else int (ux div 2), n))"

datatype db_error =
    FailedEncodingInteger
  | NotEnoughData
  | DataOverflows
  | KeyRequired
  | KeyTooLarge
  | ValueTooLarge
  | ChildrenNotFound
  | DbPanic

definition EncodeInt :: "int \<Rightarrow> db_error + nat list" where
  "EncodeInt i = (let iEncoded = PutVarint i in if iEncoded = [] then Inl FailedEncodingInteger else Inr iEncoded)"

definition DecodeInt :: "nat list \<Rightarrow> db_error + int" where
  "DecodeInt data =
     (case Varint data of (i, n) \<Rightarrow>
        if i = 0 \<and> n = 0 then Inl NotEnoughData else if i = 0 \<and> n < 0 then Inl DataOverflows else Inr i)"

definition encodeUint :: "nat \<Rightarrow> db_error + nat list" where
  "encodeUint i = (let iEncoded = PutUvarint i in if iEncoded = [] then Inl FailedEncodingInteger else Inr iEncoded)"

text \<open>Node IDs are four bytes, most significant first, so that the order of keys is that of the IDs.\<close>

definition encodeID :: "nat \<Rightarrow> nat list" where
  "encodeID i = [i div 16777216 mod 256, i div 65536 mod 256, i div 256 mod 256, i mod 256]"

fun decodeID :: "nat list \<Rightarrow> nat option" where
  "decodeID (a # b # c # d # _) = Some (a * 16777216 + b * 65536 + c * 256 + d)"
| "decodeID _ = None"

section \<open>Attributes\<close>

record attr =
  a_Size :: int
  a_ModTime :: gotime
  a_LinkName :: string
  a_Mode :: "32 word"
  a_UID :: int
  a_GID :: int
  a_DevMajor :: int
  a_DevMinor :: int
  a_Xattrs :: headers
  a_NumLink :: int

definition zero_attr :: attr where
  "zero_attr = \<lparr>a_Size = 0, a_ModTime = 0, a_LinkName = '''', a_Mode = 0, a_UID = 0, a_GID = 0,
     a_DevMajor = 0, a_DevMinor = 0, a_Xattrs = [], a_NumLink = 0\<rparr>"

record node_bucket =
  nb_size :: "int option"
  nb_modtime :: "gotime option"
  nb_linkName :: "string option"
  nb_mode :: "32 word option"
  nb_uid :: "int option"
  nb_gid :: "int option"
  nb_devMajor :: "int option"
  nb_devMinor :: "int option"
  nb_xattrKey :: "string option"
  nb_xattrValue :: "string option"
  nb_xattrsExtra :: "headers option"
  nb_numLink :: "int option"

definition empty_node :: node_bucket where
  "empty_node = \<lparr>nb_size = None, nb_modtime = None, nb_linkName = None, nb_mode = None, nb_uid = None,
     nb_gid = None, nb_devMajor = None, nb_devMinor = None, nb_xattrKey = None, nb_xattrValue = None,
     nb_xattrsExtra = None, nb_numLink = None\<rparr>"

text \<open>What \<^verbatim>\<open>Bucket.Put\<close> of bbolt documents: it refuses an empty key and too large keys and values.\<close>

definition bolt_Put :: "string \<Rightarrow> nat \<Rightarrow> db_error option" where
  "bolt_Put k vlen =
     (if k = '''' then Some KeyRequired
      else if length k > 32768 then Some KeyTooLarge
      else if vlen > 2147483646 then Some ValueTooLarge else None)"

fun put_all :: "headers \<Rightarrow> headers \<Rightarrow> db_error + headers" where
  "put_all [] bkt = Inr bkt"
| "put_all ((k, v) # kvs) bkt =
     (case bolt_Put k (length v) of Some e \<Rightarrow> Inl e | None \<Rightarrow> put_all kvs (AList.update k v bkt))"

text \<open>
  A field that is zero is not written, so what the bucket had for it stays. The first extended
  attribute of the iteration goes to the bucket itself, the others, unless their value is
  empty, to a bucket of their own, which replaces an older one if there is such an attribute.
\<close>

definition put_nonzero :: "int \<Rightarrow> int option \<Rightarrow> int option" where
  "put_nonzero x old = (if x \<noteq> 0 then Some x else old)"

definition write_scalars :: "node_bucket \<Rightarrow> attr \<Rightarrow> node_bucket" where
  "write_scalars b a =
     b\<lparr>nb_devMajor := put_nonzero (a_DevMajor a) (nb_devMajor b),
       nb_devMinor := put_nonzero (a_DevMinor a) (nb_devMinor b),
       nb_gid := put_nonzero (a_GID a) (nb_gid b),
       nb_linkName := (if a_LinkName a \<noteq> '''' then Some (a_LinkName a) else nb_linkName b),
       nb_mode := (if a_Mode a \<noteq> 0 then Some (a_Mode a) else nb_mode b),
       nb_modtime := put_nonzero (a_ModTime a) (nb_modtime b),
       nb_numLink := (if a_NumLink a \<noteq> 0 then Some (wrap64 (a_NumLink a - 1)) else nb_numLink b),
       nb_size := put_nonzero (a_Size a) (nb_size b),
       nb_uid := put_nonzero (a_UID a) (nb_uid b)\<rparr>"

fun write_xattrs :: "node_bucket \<Rightarrow> headers \<Rightarrow> db_error + node_bucket" where
  "write_xattrs b [] = Inr b"
| "write_xattrs b ((firstK, firstV) # rest) =
     (let extra = filter (\<lambda>(k, v). k \<noteq> firstK \<and> v \<noteq> '''') rest in
      case (if extra = [] then Inr (nb_xattrsExtra b) else map_sum id Some (put_all extra [])) of
        Inl e \<Rightarrow> Inl e
      | Inr x \<Rightarrow>
          if length firstK > 2147483646 \<or> length firstV > 2147483646 then Inl ValueTooLarge
          else Inr (b\<lparr>nb_xattrsExtra := x, nb_xattrKey := Some firstK, nb_xattrValue := Some firstV\<rparr>))"

definition writeNodeEntry :: "node_bucket \<Rightarrow> attr \<Rightarrow> db_error + node_bucket" where
  "writeNodeEntry b a =
     (if length (a_LinkName a) > 2147483646 then Inl ValueTooLarge
      else write_xattrs (write_scalars b a) (a_Xattrs a))"
text \<open>\<^verbatim>\<open>ForEach\<close> visits the keys in their order: \<^verbatim>\<open>xattrKey\<close> before \<^verbatim>\<open>xattrsExtra\<close>.\<close>

definition read_xattrs :: "node_bucket \<Rightarrow> headers \<Rightarrow> headers" where
  "read_xattrs b xs =
     (let ys = (case nb_xattrKey b of None \<Rightarrow> xs
                | Some k \<Rightarrow> AList.update k (case nb_xattrValue b of None \<Rightarrow> '''' | Some v \<Rightarrow> v) xs)
      in case nb_xattrsExtra b of None \<Rightarrow> ys
         | Some zs \<Rightarrow> foldl (\<lambda>m (k, v). AList.update k v m) ys zs)"

definition readNodeEntryToAttr :: "node_bucket \<Rightarrow> attr \<Rightarrow> attr" where
  "readNodeEntryToAttr b a =
     \<lparr>a_Size = (case nb_size b of None \<Rightarrow> a_Size a | Some x \<Rightarrow> x),
      a_ModTime = (case nb_modtime b of None \<Rightarrow> a_ModTime a | Some x \<Rightarrow> x),
      a_LinkName = (case nb_linkName b of None \<Rightarrow> a_LinkName a | Some x \<Rightarrow> x),
      a_Mode = (case nb_mode b of None \<Rightarrow> a_Mode a | Some x \<Rightarrow> x),
      a_UID = (case nb_uid b of None \<Rightarrow> a_UID a | Some x \<Rightarrow> x),
      a_GID = (case nb_gid b of None \<Rightarrow> a_GID a | Some x \<Rightarrow> x),
      a_DevMajor = (case nb_devMajor b of None \<Rightarrow> a_DevMajor a | Some x \<Rightarrow> x),
      a_DevMinor = (case nb_devMinor b of None \<Rightarrow> a_DevMinor a | Some x \<Rightarrow> x),
      a_Xattrs = read_xattrs b (a_Xattrs a),
      a_NumLink = (case nb_numLink b of None \<Rightarrow> a_NumLink a | Some x \<Rightarrow> wrap64 (x + 1))\<rparr>"
definition stored_numLink :: "node_bucket \<Rightarrow> int" where
  "stored_numLink b = (case nb_numLink b of None \<Rightarrow> 0 | Some x \<Rightarrow> x)"

definition readNumLink :: "node_bucket \<Rightarrow> int" where
  "readNumLink b = wrap64 (stored_numLink b + 1)"

definition stored_mode :: "node_bucket \<Rightarrow> 32 word" where
  "stored_mode b = (case nb_mode b of None \<Rightarrow> 0 | Some m \<Rightarrow> m)"

section \<open>Children and offsets\<close>

record mdEntry =
  md_children :: "(string \<times> nat) list"
  md_UncompressedOffset :: offset
  md_TarName :: string
  md_TarHeaderOffset :: offset
  md_TarHeaderSize :: offset

definition empty_md :: mdEntry where
  "empty_md = \<lparr>md_children = [], md_UncompressedOffset = 0, md_TarName = '''', md_TarHeaderOffset = 0,
     md_TarHeaderSize = 0\<rparr>"

record meta_bucket =
  mb_childName :: "string option"
  mb_childID :: "nat list option"
  mb_childrenExtra :: "(string \<times> nat list) list option"
  mb_name :: "string option"
  mb_uncompressedOffset :: "int option"
  mb_tarHeaderOffset :: "int option"
  mb_tarHeaderSize :: "int option"

definition empty_meta :: meta_bucket where
  "empty_meta = \<lparr>mb_childName = None, mb_childID = None, mb_childrenExtra = None, mb_name = None,
     mb_uncompressedOffset = None, mb_tarHeaderOffset = None, mb_tarHeaderSize = None\<rparr>"

fun put_children :: "(string \<times> nat) list \<Rightarrow> (string \<times> nat list) list \<Rightarrow> db_error + (string \<times> nat list) list" where
  "put_children [] bkt = Inr bkt"
| "put_children ((base, i) # cs) bkt =
     (case bolt_Put base 4 of Some e \<Rightarrow> Inl e | None \<Rightarrow> put_children cs (AList.update base (encodeID i) bkt))"

text \<open>The keys of the second and further children are sorted first, which a bucket does anyway.\<close>

definition writeMetadataEntry :: "meta_bucket \<Rightarrow> mdEntry \<Rightarrow> db_error + meta_bucket" where
  "writeMetadataEntry md m =
     bind_res
       (case md_children m of
          [] \<Rightarrow> Inr md
        | (firstChildName, firstChild) # rest \<Rightarrow>
            bind_res (if rest = [] then Inr (mb_childrenExtra md) else map_sum id Some (put_children rest [])) (\<lambda>x.
              if length firstChildName > 2147483646 then Inl ValueTooLarge
              else Inr (md\<lparr>mb_childrenExtra := x, mb_childID := Some (encodeID firstChild),
                           mb_childName := Some firstChildName\<rparr>)))
       (\<lambda>md1. if length (md_TarName m) > 2147483646 then Inl ValueTooLarge
              else Inr (md1\<lparr>mb_name := Some (md_TarName m), mb_tarHeaderOffset := Some (md_TarHeaderOffset m),
                            mb_tarHeaderSize := Some (md_TarHeaderSize m),
                            mb_uncompressedOffset := Some (md_UncompressedOffset m)\<rparr>))"

definition db_decodeID :: "nat list option \<Rightarrow> db_error + nat" where
  "db_decodeID v = (case decodeID (case v of None \<Rightarrow> [] | Some b \<Rightarrow> b) of None \<Rightarrow> Inl DbPanic | Some i \<Rightarrow> Inr i)"

definition readChild :: "meta_bucket \<Rightarrow> string \<Rightarrow> db_error + nat" where
  "readChild md base =
     (if base = (case mb_childName md of None \<Rightarrow> '''' | Some n \<Rightarrow> n) then db_decodeID (mb_childID md)
      else case mb_childrenExtra md of
             None \<Rightarrow> Inl ChildrenNotFound
           | Some cbkt \<Rightarrow>
               (case map_of cbkt base of None \<Rightarrow> Inl ChildrenNotFound
                | Some eid \<Rightarrow> if eid = [] then Inl ChildrenNotFound else db_decodeID (Some eid)))"

definition getMetadataEntry :: "meta_bucket \<Rightarrow> mdEntry" where
  "getMetadataEntry md =
     \<lparr>md_children = [],
      md_UncompressedOffset = (case mb_uncompressedOffset md of None \<Rightarrow> 0 | Some x \<Rightarrow> x),
      md_TarName = (case mb_name md of None \<Rightarrow> '''' | Some n \<Rightarrow> n),
      md_TarHeaderOffset = (case mb_tarHeaderOffset md of None \<Rightarrow> 0 | Some x \<Rightarrow> x),
      md_TarHeaderSize = (case mb_tarHeaderSize md of None \<Rightarrow> 0 | Some x \<Rightarrow> x)\<rparr>"

section \<open>The codecs are inverse to each other\<close>

lemma Uvarint_loop_Put:
  assumes "y < 2 * 128 ^ (9 - i)" and "i \<le> 9"
  shows "\<exists>n. Uvarint_loop (PutUvarint y) i x = (x + y * 128 ^ i, n) \<and> 0 < n"
  using assms
proof (induction y arbitrary: i x rule: PutUvarint.induct)
  case (1 y)
  show ?case
  proof (cases "y < 128")
    case True
    then show ?thesis using 1(2,3) by (cases "i = 9") (auto simp: PutUvarint.simps)
  next
    case False
    have i: "i < 9" using 1(2,3) False by (cases "i = 9") auto
    have "(2 :: nat) * 128 ^ (9 - i) = 128 * (2 * 128 ^ (9 - Suc i))"
      using i by (simp add: Suc_diff_Suc [symmetric])
    then have "y div 128 < 2 * 128 ^ (9 - Suc i)" using 1(2) by (simp add: div_less_iff_less_mult mult.commute)
    then obtain n where "Uvarint_loop (PutUvarint (y div 128)) (Suc i) (x + y mod 128 * 128 ^ i) =
        (x + y mod 128 * 128 ^ i + y div 128 * 128 ^ Suc i, n)" "0 < n"
      using 1(1) [OF False, of "Suc i" "x + y mod 128 * 128 ^ i"] i by auto
    moreover have "y mod 128 * 128 ^ i + y div 128 * 128 ^ Suc i = y * 128 ^ i"
    proof -
      have "y * 128 ^ i = (y mod 128 + y div 128 * 128) * 128 ^ i" by (simp only: mod_div_mult_eq)
      then show ?thesis by (simp only: distrib_right power_Suc mult.assoc)
    qed
    moreover have "PutUvarint y = (y mod 128 + 128) # PutUvarint (y div 128)"
      using False by (subst PutUvarint.simps) simp
    ultimately show ?thesis using i by (auto simp: add.assoc)
  qed
qed

lemma Uvarint_Put: "y < 2 ^ 64 \<Longrightarrow> \<exists>n. Uvarint (PutUvarint y) = (y, n) \<and> 0 < n"
  using Uvarint_loop_Put [of y 0 0] by (simp add: Uvarint_def)

lemma PutUvarint_ne [simp]: "PutUvarint x \<noteq> []"
  by (subst PutUvarint.simps) simp

lemma Varint_Put:
  assumes "in64 x"
  shows "\<exists>n. Varint (PutVarint x) = (x, n) \<and> 0 < n"
proof -
  let ?u = "nat (if x < 0 then - 2 * x - 1 else 2 * x)"
  have "?u < 2 ^ 64" using assms by (auto simp: in64_def nat_less_iff)
  then obtain n where n: "Uvarint (PutUvarint ?u) = (?u, n)" "0 < n" using Uvarint_Put by blast
  have "(if odd ?u then - int (?u div 2) - 1 else int (?u div 2)) = x"
  proof (cases "x < 0")
    case True
    then obtain k where "x = - int (Suc k)" by (metis negD)
    moreover have "- 2 * x - 1 = int (2 * k + 1)" using calculation by simp
    ultimately show ?thesis using True by (simp only: if_True nat_int) simp
  next
    case False
    then obtain k where "x = int k" by (metis nonneg_int_cases not_less)
    moreover have "2 * x = int (2 * k)" using calculation by simp
    ultimately show ?thesis using False by (simp only: if_False nat_int) simp
  qed
  then show ?thesis using n by (simp add: Varint_def PutVarint_def)
qed

lemma decode_encodeID: "i < 4294967296 \<Longrightarrow> decodeID (encodeID i) = Some i"
proof -
  assume i: "i < 4294967296"
  have a: "i div 16777216 mod 256 = i div 16777216" using i by (simp add: div_less_iff_less_mult)
  have "i div 16777216 * 16777216 + i div 65536 mod 256 * 65536 + i div 256 mod 256 * 256 + i mod 256 = i"
  proof -
    have "i = i div 256 * 256 + i mod 256" by simp
    moreover have "i div 256 = i div 65536 * 256 + i div 256 mod 256"
      using div_mult_mod_eq [of "i div 256" 256] by (simp add: div_mult2_eq [symmetric])
    moreover have "i div 65536 = i div 16777216 * 256 + i div 65536 mod 256"
      using div_mult_mod_eq [of "i div 65536" 256] by (simp add: div_mult2_eq [symmetric])
    ultimately show ?thesis by linarith
  qed
  then show ?thesis using a by (simp add: encodeID_def)
qed

lemma encodeID_ne [simp]: "encodeID i \<noteq> []"
  by (simp add: encodeID_def)

lemma db_decode_encodeID [simp]: "i < 4294967296 \<Longrightarrow> db_decodeID (Some (encodeID i)) = Inr i"
  by (simp add: db_decodeID_def decode_encodeID)

section \<open>What is written is what is read\<close>

lemma update_fresh: "k \<notin> set (map fst xs) \<Longrightarrow> AList.update k v xs = xs @ [(k, v)]"
  by (induction xs) auto

lemma foldl_update_fresh:
  "distinct (map fst (xs @ ys)) \<Longrightarrow> foldl (\<lambda>m (k, v). AList.update k v m) xs ys = xs @ ys"
proof (induction ys arbitrary: xs)
  case (Cons y ys)
  then show ?case using update_fresh [of "fst y" xs "snd y"] Cons.IH [of "xs @ [y]"] by (cases y) auto
qed simp

lemma put_all_ok:
  assumes "\<forall>(k, v) \<in> set kvs. bolt_Put k (length v) = None" and "distinct (map fst (bkt @ kvs))"
  shows "put_all kvs bkt = Inr (bkt @ kvs)"
  using assms
proof (induction kvs arbitrary: bkt)
  case (Cons kv kvs)
  obtain k v where kv: "kv = (k, v)" by (cases kv)
  have "k \<notin> set (map fst bkt)" using Cons.prems(2) kv by auto
  then have "AList.update k v bkt = bkt @ [(k, v)]" by (rule update_fresh)
  then show ?case using Cons.IH [of "bkt @ [(k, v)]"] Cons.prems kv by simp
qed simp

text \<open>The extended attributes that survive: the first one, and the others whose value is not empty.\<close>

fun stored_xattrs :: "headers \<Rightarrow> headers" where
  "stored_xattrs [] = []"
| "stored_xattrs (x # xs) = x # filter (\<lambda>(k, v). v \<noteq> '''') xs"

definition xattrs_ok :: "headers \<Rightarrow> bool" where
  "xattrs_ok xs \<longleftrightarrow> distinct (map fst xs) \<and> (\<forall>(k, v) \<in> set xs. bolt_Put k (length v) = None)"

definition attr_ok :: "attr \<Rightarrow> bool" where
  "attr_ok a \<longleftrightarrow> xattrs_ok (a_Xattrs a) \<and> length (a_LinkName a) \<le> 2147483646"

lemma write_read_xattrs:
  assumes "xattrs_ok xs" and "nb_xattrKey b = None" and "nb_xattrsExtra b = None"
  shows "\<exists>x y z. write_xattrs b xs = Inr (b\<lparr>nb_xattrsExtra := x, nb_xattrKey := y, nb_xattrValue := z\<rparr>) \<and>
    (\<forall>c. nb_xattrsExtra c = x \<and> nb_xattrKey c = y \<and> nb_xattrValue c = z \<longrightarrow> read_xattrs c [] = stored_xattrs xs)"
proof (cases xs)
  case Nil
  then show ?thesis
    using assms by (intro exI [of _ None] exI [of _ None] exI [of _ "nb_xattrValue b"]) (cases b, simp add: read_xattrs_def)
next
  case (Cons x ys)
  obtain k v where x: "x = (k, v)" by (cases x)
  let ?extra = "filter (\<lambda>(k', v). k' \<noteq> k \<and> v \<noteq> '''') ys"
  have k: "k \<notin> set (map fst ys)" "distinct (map fst ys)" using assms Cons x by (auto simp: xattrs_ok_def)
  then have e: "?extra = filter (\<lambda>(k, v). v \<noteq> '''') ys" by (intro filter_cong) force+
  have d: "distinct (map fst ?extra)" using k(2) by (simp add: distinct_map_filter)
  have p: "put_all ?extra [] = Inr ?extra"
    using put_all_ok [of ?extra "[]"] assms(1) Cons d by (auto simp: xattrs_ok_def)
  have f: "foldl (\<lambda>m (k, v). AList.update k v m) [(k, v)] ?extra = (k, v) # ?extra"
    using foldl_update_fresh [of "[(k, v)]" ?extra] k(1) d by auto
  have l: "length k \<le> 2147483646" "length v \<le> 2147483646"
    using assms(1) Cons x by (auto simp: xattrs_ok_def bolt_Put_def split: if_splits)
  let ?x = "if ?extra = [] then None else Some ?extra"
  have "write_xattrs b xs = Inr (b\<lparr>nb_xattrsExtra := ?x, nb_xattrKey := Some k, nb_xattrValue := Some v\<rparr>)"
    using Cons x p l assms(3) by (auto simp: Let_def)
  moreover have "read_xattrs c [] = stored_xattrs xs"
    if "nb_xattrsExtra c = ?x" "nb_xattrKey c = Some k" "nb_xattrValue c = Some v" for c
    using f e Cons x that by (auto simp: read_xattrs_def)
  ultimately show ?thesis by blast
qed

text \<open>Over a bucket that has at most a mode and a link count, as that of an implied directory.\<close>

lemma write_read_attr:
  assumes "attr_ok a" and "b\<lparr>nb_numLink := None\<rparr> = empty_node\<lparr>nb_mode := m\<rparr>" and "m \<noteq> None \<longrightarrow> a_Mode a \<noteq> 0"
  shows "\<exists>b'. writeNodeEntry b a = Inr b' \<and>
    readNodeEntryToAttr (b'\<lparr>nb_numLink := None\<rparr>) zero_attr = a\<lparr>a_Xattrs := stored_xattrs (a_Xattrs a), a_NumLink := 0\<rparr>"
proof -
  obtain n where b: "b = empty_node\<lparr>nb_mode := m, nb_numLink := n\<rparr>"
    using assms(2) by (cases b) (simp add: empty_node_def)
  have "nb_xattrKey (write_scalars b a) = None" "nb_xattrsExtra (write_scalars b a) = None"
    by (simp_all add: b write_scalars_def empty_node_def)
  then obtain x y z where x: "write_xattrs (write_scalars b a) (a_Xattrs a) =
      Inr ((write_scalars b a)\<lparr>nb_xattrsExtra := x, nb_xattrKey := y, nb_xattrValue := z\<rparr>)"
    and r: "\<forall>c. nb_xattrsExtra c = x \<and> nb_xattrKey c = y \<and> nb_xattrValue c = z \<longrightarrow>
      read_xattrs c [] = stored_xattrs (a_Xattrs a)"
    using write_read_xattrs [of "a_Xattrs a" "write_scalars b a"] assms(1) unfolding attr_ok_def by blast
  let ?b' = "(write_scalars b a)\<lparr>nb_xattrsExtra := x, nb_xattrKey := y, nb_xattrValue := z\<rparr>"
  have "read_xattrs (?b'\<lparr>nb_numLink := None\<rparr>) [] = stored_xattrs (a_Xattrs a)"
    by (rule r [rule_format]) simp
  then have "readNodeEntryToAttr (?b'\<lparr>nb_numLink := None\<rparr>) zero_attr = a\<lparr>a_Xattrs := stored_xattrs (a_Xattrs a), a_NumLink := 0\<rparr>"
    unfolding readNodeEntryToAttr_def zero_attr_def
    by (intro attr.equality) (use assms(3) in \<open>auto simp: b write_scalars_def put_nonzero_def empty_node_def\<close>)
  moreover have "writeNodeEntry b a = Inr ?b'" using x assms(1) by (simp add: writeNodeEntry_def attr_ok_def)
  ultimately show ?thesis by blast
qed
definition md_ok :: "mdEntry \<Rightarrow> bool" where
  "md_ok m \<longleftrightarrow> distinct (map fst (md_children m)) \<and> length (md_TarName m) \<le> 2147483646 \<and>
     (\<forall>(base, i) \<in> set (md_children m). bolt_Put base 4 = None \<and> i < 4294967296)"

lemma put_children_ok:
  assumes "\<forall>(base, i) \<in> set cs. bolt_Put base 4 = None" and "distinct (map fst bkt @ map fst cs)"
  shows "put_children cs bkt = Inr (bkt @ map (\<lambda>(base, i). (base, encodeID i)) cs)"
  using assms
proof (induction cs arbitrary: bkt)
  case (Cons c cs)
  obtain base i where c: "c = (base, i)" by (cases c)
  have "AList.update base (encodeID i) bkt = bkt @ [(base, encodeID i)]"
    using Cons.prems(2) c by (intro update_fresh) auto
  then show ?case using Cons.IH [of "bkt @ [(base, encodeID i)]"] Cons.prems c by simp
qed simp

lemma map_of_encodeID: "map_of (map (\<lambda>(b, i). (b, encodeID i)) cs) base = map_option encodeID (map_of cs base)"
  by (induction cs) auto

lemma write_read_md:
  assumes "md_ok m"
  shows "\<exists>b. writeMetadataEntry empty_meta m = Inr b \<and> getMetadataEntry b = m\<lparr>md_children := []\<rparr> \<and>
    (\<forall>base. base \<noteq> '''' \<longrightarrow> readChild b base =
       (case map_of (md_children m) base of None \<Rightarrow> Inl ChildrenNotFound | Some i \<Rightarrow> Inr i)) \<and>
    mb_childName b = (case md_children m of [] \<Rightarrow> None | (n, i) # cs \<Rightarrow> Some n) \<and>
    mb_childID b = (case md_children m of [] \<Rightarrow> None | (n, i) # cs \<Rightarrow> Some (encodeID i)) \<and>
    (case mb_childrenExtra b of None \<Rightarrow> [] | Some cs \<Rightarrow> cs) = map (\<lambda>(base, i). (base, encodeID i)) (tl (md_children m))"
proof (cases "md_children m")
  case Nil
  then show ?thesis
    using assms
    by (cases m) (auto simp: writeMetadataEntry_def getMetadataEntry_def empty_meta_def md_ok_def readChild_def)
next
  case (Cons c cs)
  obtain n i where c: "c = (n, i)" by (cases c)
  have p: "put_children cs [] = Inr (map (\<lambda>(base, i). (base, encodeID i)) cs)"
    using put_children_ok [of cs "[]"] assms Cons by (auto simp: md_ok_def)
  have r: "map_of cs base = Some j \<Longrightarrow> j < 4294967296" for base j
    using assms Cons by (auto simp: md_ok_def dest: map_of_SomeD)
  have l: "length n \<le> 2147483646" "i < 4294967296"
    using assms Cons c by (auto simp: md_ok_def bolt_Put_def split: if_splits)
  let ?x = "if cs = [] then None else Some (map (\<lambda>(base, i). (base, encodeID i)) cs)"
  let ?b = "\<lparr>mb_childName = Some n, mb_childID = Some (encodeID i), mb_childrenExtra = ?x, mb_name = Some (md_TarName m),
     mb_uncompressedOffset = Some (md_UncompressedOffset m), mb_tarHeaderOffset = Some (md_TarHeaderOffset m),
     mb_tarHeaderSize = Some (md_TarHeaderSize m)\<rparr>"
  have "writeMetadataEntry empty_meta m = Inr ?b"
    using assms Cons c p l by (simp add: writeMetadataEntry_def empty_meta_def md_ok_def)
  moreover have "readChild ?b base = (case map_of (md_children m) base of None \<Rightarrow> Inl ChildrenNotFound | Some i \<Rightarrow> Inr i)"
    for base
    using Cons c l r [of base]
    by (auto simp: readChild_def map_of_encodeID split: option.splits)
  ultimately show ?thesis using Cons c by (cases m) (simp add: getMetadataEntry_def)
qed

end
