(* ===== verification/Go_Path.thy ===== *)
theory Go_Path
  imports Prelude
begin

text \<open>
  The functions of Go's \<^verbatim>\<open>path/filepath\<close> that the metadata store uses, on strings with the
  separator of Unix, and the two helpers of \<^verbatim>\<open>metadata/reader.go\<close> over them. A cleaned path is
  the list of its components; the lemmas reduce the string functions to that list.
\<close>

section \<open>Strings and components\<close>

fun split_path :: "string \<Rightarrow> string list" where
  "split_path [] = [[]]"
| "split_path (c # cs) =
     (if c = CHR ''/'' then [] # split_path cs
      else case split_path cs of [] \<Rightarrow> [[c]] | x # xs \<Rightarrow> (c # x) # xs)"

fun join_path :: "string list \<Rightarrow> string" where
  "join_path [] = []"
| "join_path [x] = x"
| "join_path (x # y # ys) = x @ CHR ''/'' # join_path (y # ys)"

definition clean_step :: "bool \<Rightarrow> string list \<Rightarrow> string \<Rightarrow> string list" where
  "clean_step rooted out c =
     (if c = '''' \<or> c = ''.'' then out
      else if c = ''..''
      then (if out \<noteq> [] \<and> last out \<noteq> ''..'' then butlast out
            else if rooted then out else out @ [''..''])
      else out @ [c])"

definition filepath_Clean :: "string \<Rightarrow> string" where
  "filepath_Clean p =
     (let rooted = (p \<noteq> [] \<and> hd p = CHR ''/'');
          out = foldl (clean_step rooted) [] (split_path p)
      in if rooted then CHR ''/'' # join_path out
         else if out = [] then ''.'' else join_path out)"

definition filepath_Split :: "string \<Rightarrow> string \<times> string" where
  "filepath_Split p = (rev (dropWhile (\<lambda>c. c \<noteq> CHR ''/'') (rev p)), rev (takeWhile (\<lambda>c. c \<noteq> CHR ''/'') (rev p)))"

definition filepath_Base :: "string \<Rightarrow> string" where
  "filepath_Base p =
     (if p = '''' then ''.''
      else (let q = rev (dropWhile (\<lambda>c. c = CHR ''/'') (rev p)); b = snd (filepath_Split q)
            in if b = '''' then ''/'' else b))"

definition TrimPrefix :: "string \<Rightarrow> string \<Rightarrow> string" where
  "TrimPrefix s pre = (if take (length pre) s = pre then drop (length pre) s else s)"

definition cleanEntryPath :: "string \<Rightarrow> string" where
  "cleanEntryPath path = TrimPrefix (filepath_Clean (CHR ''/'' # path)) ''/''"

definition parentDir :: "string \<Rightarrow> string" where
  "parentDir path = fst (filepath_Split path)"

section \<open>Components\<close>

definition ok_comp :: "string \<Rightarrow> bool" where
  "ok_comp c \<longleftrightarrow> c \<noteq> '''' \<and> c \<noteq> ''.'' \<and> c \<noteq> ''..'' \<and> CHR ''/'' \<notin> set c"

text \<open>The components of a path below the root.\<close>

definition comps :: "string \<Rightarrow> string list" where
  "comps p = foldl (clean_step True) [] (split_path p)"

lemma split_path_ne [simp]: "split_path p \<noteq> []"
  by (induction p) (auto split: list.splits)

lemma split_path_no_slash: "c \<in> set (split_path p) \<Longrightarrow> CHR ''/'' \<notin> set c"
  by (induction p arbitrary: c) (auto split: list.splits if_splits)

lemma clean_step_ok:
  assumes "list_all ok_comp out" and "CHR ''/'' \<notin> set c"
  shows "list_all ok_comp (clean_step True out c)"
  using assms by (auto simp: clean_step_def ok_comp_def list_all_iff dest: in_set_butlastD)

lemma foldl_clean_ok:
  "list_all ok_comp out \<Longrightarrow> \<forall>c \<in> set cs. CHR ''/'' \<notin> set c \<Longrightarrow> list_all ok_comp (foldl (clean_step True) out cs)"
  by (induction cs arbitrary: out) (auto simp: clean_step_ok)

lemma comps_ok: "list_all ok_comp (comps p)"
  unfolding comps_def by (rule foldl_clean_ok) (auto dest: split_path_no_slash)

lemma cleanEntryPath_comps: "cleanEntryPath p = join_path (comps p)"
  by (simp add: cleanEntryPath_def filepath_Clean_def TrimPrefix_def comps_def clean_step_def Let_def)

lemma foldl_clean_id: "list_all ok_comp cs \<Longrightarrow> foldl (clean_step True) out cs = out @ cs"
  by (induction cs arbitrary: out) (auto simp: clean_step_def ok_comp_def)

lemma split_append_slash:
  "CHR ''/'' \<notin> set x \<Longrightarrow> split_path (x @ CHR ''/'' # ys) = x # split_path ys"
  by (induction x) auto

lemma split_no_slash: "CHR ''/'' \<notin> set x \<Longrightarrow> split_path x = [x]"
  by (induction x) auto

lemma split_join: "list_all ok_comp cs \<Longrightarrow> cs \<noteq> [] \<Longrightarrow> split_path (join_path cs) = cs"
  by (induction cs rule: join_path.induct) (auto simp: ok_comp_def split_append_slash split_no_slash)

lemma split_join_slash: "list_all ok_comp cs \<Longrightarrow> cs \<noteq> [] \<Longrightarrow> split_path (join_path cs @ ''/'') = cs @ ['''']"
  by (induction cs rule: join_path.induct) (auto simp: ok_comp_def split_append_slash split_no_slash)

lemma comps_join [simp]: "list_all ok_comp cs \<Longrightarrow> comps (join_path cs) = cs"
  by (cases "cs = []") (auto simp: comps_def split_join foldl_clean_id clean_step_def)

lemma comps_join_slash [simp]: "list_all ok_comp cs \<Longrightarrow> cs \<noteq> [] \<Longrightarrow> comps (join_path cs @ ''/'') = cs"
  by (simp add: comps_def split_join_slash foldl_clean_id clean_step_def)

lemma join_snoc: "join_path (cs @ [c]) = (if cs = [] then c else join_path cs @ CHR ''/'' # c)"
  by (induction cs rule: join_path.induct) auto

definition dir_path :: "string list \<Rightarrow> string" where
  "dir_path cs = (if cs = [] then '''' else join_path cs @ ''/'')"

lemma comps_dir_path [simp]: "list_all ok_comp cs \<Longrightarrow> comps (dir_path cs) = cs"
  by (cases "cs = []") (auto simp: dir_path_def comps_def clean_step_def split_join_slash foldl_clean_id)

lemma comps_Nil [simp]: "comps '''' = []"
  by (simp add: comps_def clean_step_def)

lemma comps_clean [simp]: "comps (cleanEntryPath p) = comps p"
  unfolding cleanEntryPath_comps by (rule comps_join [OF comps_ok])

lemma Split_join:
  assumes "list_all ok_comp (cs @ [c])"
  shows "filepath_Split (join_path (cs @ [c])) = (dir_path cs, c)"
proof -
  have c: "CHR ''/'' \<notin> set c" using assms by (simp add: ok_comp_def)
  have "takeWhile (\<lambda>x. x \<noteq> CHR ''/'') (rev c @ CHR ''/'' # xs) = rev c" for xs
    using c by (subst takeWhile_append2) auto
  moreover have "dropWhile (\<lambda>x. x \<noteq> CHR ''/'') (rev c @ CHR ''/'' # xs) = CHR ''/'' # xs" for xs
    using c by (subst dropWhile_append2) auto
  moreover have "takeWhile (\<lambda>x. x \<noteq> CHR ''/'') (rev c) = rev c" "dropWhile (\<lambda>x. x \<noteq> CHR ''/'') (rev c) = []"
    using c by (auto simp: takeWhile_eq_all_conv dropWhile_eq_Nil_conv)
  ultimately show ?thesis
    by (simp add: filepath_Split_def join_snoc dir_path_def del: takeWhile_eq_all_conv dropWhile_eq_Nil_conv)
qed

lemma Split_empty [simp]: "filepath_Split '''' = ('''', '''')"
  by (simp add: filepath_Split_def)

lemma join_not_slash:
  assumes "list_all ok_comp (cs @ [c])"
  shows "dropWhile (\<lambda>x. x = CHR ''/'') (rev (join_path (cs @ [c]))) = rev (join_path (cs @ [c]))"
proof -
  obtain x xs where c: "rev c = x # xs" "x \<noteq> CHR ''/''"
    using assms by (cases "rev c") (auto simp: ok_comp_def)
  then show ?thesis by (simp add: join_snoc)
qed

lemma Base_join: "list_all ok_comp (cs @ [c]) \<Longrightarrow> filepath_Base (join_path (cs @ [c])) = c"
  using join_not_slash [of cs c] Split_join [of cs c]
  by (auto simp: filepath_Base_def Let_def join_snoc ok_comp_def)

lemma Base_dir_path: "list_all ok_comp (cs @ [c]) \<Longrightarrow> filepath_Base (dir_path (cs @ [c])) = c"
  using join_not_slash [of cs c] Split_join [of cs c]
  by (auto simp: filepath_Base_def Let_def dir_path_def ok_comp_def)

section \<open>Lengths\<close>

text \<open>Cleaning never lengthens a path, and the directory part of a path is shorter than the path.\<close>

fun path_len :: "string list \<Rightarrow> nat" where
  "path_len [] = 0"
| "path_len (c # cs) = Suc (length c) + path_len cs"

lemma path_len_append [simp]: "path_len (a @ b) = path_len a + path_len b"
  by (induction a) auto

lemma path_len_butlast: "path_len (butlast cs) \<le> path_len cs"
  by (induction cs) auto

lemma length_join: "cs \<noteq> [] \<Longrightarrow> Suc (length (join_path cs)) = path_len cs"
  by (induction cs rule: join_path.induct) auto

lemma path_len_split: "path_len (split_path p) = Suc (length p)"
  by (induction p) (auto split: list.splits)

lemma path_len_step: "path_len (clean_step True out c) \<le> path_len out + Suc (length c)"
  using path_len_butlast [of out] by (auto simp: clean_step_def)

lemma path_len_foldl: "path_len (foldl (clean_step True) out cs) \<le> path_len out + path_len cs"
proof (induction cs arbitrary: out)
  case (Cons c cs)
  show ?case using Cons.IH [of "clean_step True out c"] path_len_step [of out c] by simp
qed simp

lemma length_cleanEntryPath: "length (cleanEntryPath p) \<le> length p"
proof (cases "comps p = []")
  case False
  then show ?thesis
    using length_join [OF False] path_len_foldl [of "[]" "split_path p"]
    by (simp add: cleanEntryPath_comps path_len_split flip: comps_def)
qed (simp add: cleanEntryPath_comps)

lemma length_parentDir:
  assumes "p \<noteq> ''''"
  shows "length (parentDir (cleanEntryPath p)) < length p"
proof (cases "comps p" rule: rev_cases)
  case Nil
  then show ?thesis using assms by (simp add: cleanEntryPath_comps parentDir_def)
next
  case (snoc cs c)
  have ok: "list_all ok_comp (cs @ [c])" using comps_ok [of p] snoc by simp
  then have "length (dir_path cs) < length (cleanEntryPath p)"
    by (auto simp: cleanEntryPath_comps snoc join_snoc dir_path_def ok_comp_def)
  then show ?thesis
    using length_cleanEntryPath [of p] Split_join [OF ok] by (simp add: parentDir_def cleanEntryPath_comps snoc)
qed
end
