(* ===== verification/Metadata_Reader.thy ===== *)
theory Metadata_Reader
  imports Metadata_Db Go_Path
begin

text \<open>
  The metadata store of a layer, \<^verbatim>\<open>metadata/reader.go\<close>: how the nodes of a file system are built
  from a table of contents and read back. The state of a build has the nodes bucket of the open
  transaction and, outside of it, the map \<^verbatim>\<open>md\<close> of directory entries and the ID counter, which
  a transaction that is rolled back does not restore. \<^verbatim>\<open>DB.Batch\<close> of bbolt may run its
  function several times; how often is an argument.
\<close>

section \<open>Building the nodes\<close>

datatype md_error =
    SequenceTooLarge
  | NotFoundMetadata nat
  | NotFoundChild nat string
  | BucketExists nat
  | NodeBucketNotFound nat
  | MetadataBucketNotFound nat
  | FsNotFound string
  | NoUniqueID
  | NotRegular nat
  | DbError db_error

record build =
  b_nodes :: "nat \<rightharpoonup> node_bucket"
  b_md :: "nat \<rightharpoonup> mdEntry"
  b_cur :: nat

type_synonym 'a build_result = "(md_error + 'a) \<times> build"

definition nextID :: "build \<Rightarrow> nat build_result" where
  "nextID s = (if b_cur s = 4294967295 then (Inl SequenceTooLarge, s)
               else (Inr (b_cur s + 1), s\<lparr>b_cur := b_cur s + 1\<rparr>))"

definition CreateBucket :: "nat \<Rightarrow> build \<Rightarrow> node_bucket build_result" where
  "CreateBucket i s = (if b_nodes s i \<noteq> None then (Inl (BucketExists i), s)
                       else (Inr empty_node, s\<lparr>b_nodes := (b_nodes s)(i \<mapsto> empty_node)\<rparr>))"

definition getNodeBucketByID :: "nat \<Rightarrow> build \<Rightarrow> node_bucket build_result" where
  "getNodeBucketByID i s = (case b_nodes s i of None \<Rightarrow> (Inl (NodeBucketNotFound i), s) | Some b \<Rightarrow> (Inr b, s))"

definition put_node :: "nat \<Rightarrow> attr \<Rightarrow> build \<Rightarrow> unit build_result" where
  "put_node i a s =
     (case b_nodes s i of None \<Rightarrow> (Inl (NodeBucketNotFound i), s)
      | Some b \<Rightarrow> (case writeNodeEntry b a of Inl e \<Rightarrow> (Inl (DbError e), s)
                   | Inr b' \<Rightarrow> (Inr (), s\<lparr>b_nodes := (b_nodes s)(i \<mapsto> b')\<rparr>)))"

text \<open>\<^verbatim>\<open>putInt(b, bucketKeyNumLink, numLink+1)\<close> with the link count the bucket has.\<close>

definition add_link :: "nat \<Rightarrow> build \<Rightarrow> unit build_result" where
  "add_link i s =
     (case b_nodes s i of None \<Rightarrow> (Inl (NodeBucketNotFound i), s)
      | Some b \<Rightarrow> (Inr (), s\<lparr>b_nodes := (b_nodes s)(i \<mapsto> b\<lparr>nb_numLink := Some (wrap64 (stored_numLink b + 1))\<rparr>)\<rparr>))"

text \<open>\<^verbatim>\<open>getIDByName\<close>: every error means that there is no such node.\<close>

function getIDByName :: "(nat \<rightharpoonup> mdEntry) \<Rightarrow> string \<Rightarrow> nat \<Rightarrow> md_error + nat" where
  "getIDByName md path rootID =
     (if path = '''' then Inr rootID
      else case getIDByName md (parentDir (cleanEntryPath path)) rootID of
             Inl e \<Rightarrow> Inl e
           | Inr parentID \<Rightarrow>
               (case md parentID of None \<Rightarrow> Inl (NotFoundMetadata parentID)
                | Some e \<Rightarrow>
                    (case map_of (md_children e) (snd (filepath_Split (cleanEntryPath path))) of
                       None \<Rightarrow> Inl (NotFoundChild parentID path)
                     | Some i \<Rightarrow> Inr i)))"
  by auto
termination by (relation "measure (\<lambda>(md, path, rootID). length path)") (auto simp: length_parentDir)

declare getIDByName.simps [simp del]

definition setChild :: "nat \<Rightarrow> string \<Rightarrow> nat \<Rightarrow> bool \<Rightarrow> build \<Rightarrow> unit build_result" where
  "setChild parentID base i isDir s =
     (let e = (case b_md s parentID of None \<Rightarrow> empty_md | Some e \<Rightarrow> e);
          s1 = s\<lparr>b_md := (b_md s)(parentID \<mapsto> e\<lparr>md_children := AList.update base i (md_children e)\<rparr>)\<rparr>
      in if isDir then add_link parentID s1 else (Inr (), s1))"

definition dir_attr :: attr where
  "dir_attr = zero_attr\<lparr>a_Mode := or ModeDir 493, a_NumLink := 2\<rparr>"

function getOrCreateDir :: "nat \<Rightarrow> string \<Rightarrow> build \<Rightarrow> nat build_result" where
  "getOrCreateDir rootID dir s =
     (case getIDByName (b_md s) dir rootID of
        Inr i \<Rightarrow> (case getNodeBucketByID i s of (Inl e, s1) \<Rightarrow> (Inl e, s1) | (Inr b, s1) \<Rightarrow> (Inr i, s1))
      | Inl _ \<Rightarrow>
          (case nextID s of (Inl e, s1) \<Rightarrow> (Inl e, s1)
           | (Inr i, s1) \<Rightarrow>
             (case CreateBucket i s1 of (Inl e, s2) \<Rightarrow> (Inl e, s2)
              | (Inr b, s2) \<Rightarrow>
                (case put_node i dir_attr s2 of (Inl e, s3) \<Rightarrow> (Inl e, s3)
                 | (Inr u, s3) \<Rightarrow>
                   (case getOrCreateDir rootID (parentDir (cleanEntryPath dir)) s3 of (Inl e, s4) \<Rightarrow> (Inl e, s4)
                    | (Inr parentID, s4) \<Rightarrow>
                      (case setChild parentID (filepath_Base dir) i True s4 of (Inl e, s5) \<Rightarrow> (Inl e, s5)
                       | (Inr u, s5) \<Rightarrow> (Inr i, s5)))))))"
  by auto
termination
proof (relation "measure (\<lambda>(rootID, dir, s). length dir)", goal_cases)
  case (2 rootID dir s x)
  then have "dir \<noteq> ''''" by (auto simp: getIDByName.simps)
  then show ?case by (simp add: length_parentDir)
qed simp

declare getOrCreateDir.simps [simp del]

definition attrFromZtocEntry :: "fileMetadata \<Rightarrow> int \<Rightarrow> attr" where
  "attrFromZtocEntry src numLink =
     \<lparr>a_Size = fm_UncompressedSize src, a_ModTime = fm_ModTime src, a_LinkName = fm_Linkname src,
      a_Mode = FileMode src, a_UID = fm_UID src, a_GID = fm_GID src, a_DevMajor = fm_Devmajor src,
      a_DevMinor = fm_Devminor src,
      a_Xattrs = (case Xattrs (fm_PAXHeaders src) of None \<Rightarrow> [] | Some xs \<Rightarrow> xs), a_NumLink = numLink\<rparr>"

text \<open>The node of an entry: an existing one for a hard link or a directory, or else a new one.\<close>

definition new_node :: "fileMetadata \<Rightarrow> build \<Rightarrow> nat build_result" where
  "new_node ent s =
     (case nextID s of (Inl e, s1) \<Rightarrow> (Inl e, s1)
      | (Inr i, s1) \<Rightarrow>
        (case CreateBucket i s1 of (Inl e, s2) \<Rightarrow> (Inl e, s2)
         | (Inr b, s2) \<Rightarrow>
           (case put_node i (attrFromZtocEntry ent (if fm_Type ent = ''dir'' then 2 else 1)) s2 of
              (Inl e, s3) \<Rightarrow> (Inl e, s3) | (Inr u, s3) \<Rightarrow> (Inr i, s3))))"

definition entry_node :: "nat \<Rightarrow> fileMetadata \<Rightarrow> build \<Rightarrow> nat build_result" where
  "entry_node rootID ent s =
     (if fm_Type ent = ''hardlink''
      then (case getIDByName (b_md s) (cleanEntryPath (fm_Linkname ent)) rootID of
              Inl e \<Rightarrow> (Inl e, s)
            | Inr i \<Rightarrow> (case add_link i s of (Inl e, s1) \<Rightarrow> (Inl e, s1) | (Inr u, s1) \<Rightarrow> (Inr i, s1)))
      else if fm_Type ent = ''dir''
      then (case getIDByName (b_md s) (cleanEntryPath (fm_Name ent)) rootID of
              Inl e \<Rightarrow> new_node ent s
            | Inr i \<Rightarrow>
                (case getNodeBucketByID i s of (Inl e, s1) \<Rightarrow> (Inl e, s1)
                 | (Inr b, s1) \<Rightarrow>
                   (case put_node i (attrFromZtocEntry ent (readNumLink b)) s1 of
                      (Inl e, s2) \<Rightarrow> (Inl e, s2) | (Inr u, s2) \<Rightarrow> (Inr i, s2))))
      else new_node ent s)"

definition set_offsets :: "fileMetadata \<Rightarrow> nat \<Rightarrow> build \<Rightarrow> build" where
  "set_offsets ent i s =
     (if fm_Type ent = ''hardlink'' then s
      else (let e = (case b_md s i of None \<Rightarrow> empty_md | Some e \<Rightarrow> e)
            in s\<lparr>b_md := (b_md s)(i \<mapsto> e\<lparr>md_TarName := fm_Name ent, md_UncompressedOffset := fm_UncompressedOffset ent,
                   md_TarHeaderOffset := fm_TarHeaderOffset ent,
                   md_TarHeaderSize := wrap64 (fm_UncompressedOffset ent - fm_TarHeaderOffset ent)\<rparr>)\<rparr>))"

definition add_entry :: "nat \<Rightarrow> fileMetadata \<Rightarrow> build \<Rightarrow> unit build_result" where
  "add_entry rootID ent s =
     (case entry_node rootID ent s of (Inl e, s1) \<Rightarrow> (Inl e, s1)
      | (Inr i, s1) \<Rightarrow>
        (case getOrCreateDir rootID (parentDir (cleanEntryPath (fm_Name ent))) s1 of (Inl e, s2) \<Rightarrow> (Inl e, s2)
         | (Inr parentID, s2) \<Rightarrow>
           (case setChild parentID (filepath_Base (cleanEntryPath (fm_Name ent))) i (fm_Type ent = ''dir'') s2 of
              (Inl e, s3) \<Rightarrow> (Inl e, s3)
            | (Inr u, s3) \<Rightarrow> (Inr (), set_offsets ent i s3))))"

fun add_entries :: "nat \<Rightarrow> fileMetadata list \<Rightarrow> build \<Rightarrow> unit build_result" where
  "add_entries rootID [] s = (Inr (), s)"
| "add_entries rootID (ent # ents) s =
     (case add_entry rootID ent s of (Inl e, s1) \<Rightarrow> (Inl e, s1) | (Inr u, s1) \<Rightarrow> add_entries rootID ents s1)"

section \<open>Transactions\<close>

text \<open>
  \<open>batch n f s\<close>: the function \<open>f\<close> is run \<open>n\<close> times in transactions that are rolled back,
  because another function of the same batch failed or its own run did, and then once more.
\<close>

fun batch :: "nat \<Rightarrow> (build \<Rightarrow> unit build_result) \<Rightarrow> build \<Rightarrow> unit build_result" where
  "batch 0 f s = (case f s of (Inl e, s1) \<Rightarrow> (Inl e, s1\<lparr>b_nodes := b_nodes s\<rparr>) | (Inr u, s1) \<Rightarrow> (Inr u, s1))"
| "batch (Suc n) f s = (case f s of (r, s1) \<Rightarrow> batch n f (s1\<lparr>b_nodes := b_nodes s\<rparr>))"

fun partition_loop :: "nat \<Rightarrow> 'a list \<Rightarrow> nat \<Rightarrow> 'a list list" where
  "partition_loop 0 xs chunkSize = [xs]"
| "partition_loop (Suc n) xs chunkSize =
     (if chunkSize < length xs then take chunkSize xs # partition_loop n (drop chunkSize xs) chunkSize else [xs])"

text \<open>Each round takes a chunk, so the length of the list bounds the rounds.\<close>

definition partition :: "'a list \<Rightarrow> int \<Rightarrow> 'a list list" where
  "partition xs chunkSize = (if xs = [] \<or> chunkSize \<le> 0 then [] else partition_loop (length xs) xs (nat chunkSize))"

fun add_chunks :: "nat \<Rightarrow> fileMetadata list list \<Rightarrow> nat list \<Rightarrow> build \<Rightarrow> unit build_result" where
  "add_chunks rootID [] retries s = (Inr (), s)"
| "add_chunks rootID (c # cs) retries s =
     (case batch (if retries = [] then 0 else hd retries) (add_entries rootID c) s of
        (Inl e, s1) \<Rightarrow> (Inl e, s1) | (Inr u, s1) \<Rightarrow> add_chunks rootID cs (tl retries) s1)"

section \<open>The file system in the database\<close>

record fs_db =
  fs_nodes :: "nat \<rightharpoonup> node_bucket"
  fs_metadata :: "nat \<rightharpoonup> meta_bucket"

text \<open>The database: \<^const>\<open>None\<close> if the bucket \<^verbatim>\<open>filesystems\<close> was never created.\<close>

type_synonym bolt_db = "(string \<rightharpoonup> fs_db) option"

fun write_metadata :: "(nat \<times> mdEntry) list \<Rightarrow> (nat \<rightharpoonup> meta_bucket) \<Rightarrow> md_error + (nat \<rightharpoonup> meta_bucket)" where
  "write_metadata [] meta = Inr meta"
| "write_metadata ((i, m) # ms) meta =
     (if meta i \<noteq> None then Inl (BucketExists i)
      else case writeMetadataEntry empty_meta m of Inl e \<Rightarrow> Inl (DbError e)
           | Inr b \<Rightarrow> write_metadata ms (meta(i \<mapsto> b)))"

fun write_chunks :: "(nat \<times> mdEntry) list list \<Rightarrow> (nat \<rightharpoonup> meta_bucket) \<Rightarrow> md_error + (nat \<rightharpoonup> meta_bucket)" where
  "write_chunks [] meta = Inr meta"
| "write_chunks (c # cs) meta = bind_res (write_metadata c meta) (write_chunks cs)"

text \<open>The entries of \<^verbatim>\<open>md\<close> in the order of their IDs, all of which came from the counter.\<close>

definition addendum :: "build \<Rightarrow> (nat \<times> mdEntry) list" where
  "addendum s = concat (map (\<lambda>i. case b_md s i of None \<Rightarrow> [] | Some m \<Rightarrow> [(i, m)]) [0..<Suc (b_cur s)])"

definition defaultInsertionChunkSize :: int where
  "defaultInsertionChunkSize = 5000"

definition root_build :: "nat \<Rightarrow> build" where
  "root_build rootID = \<lparr>b_nodes = [rootID \<mapsto> projr (writeNodeEntry empty_node dir_attr)], b_md = Map.empty, b_cur = rootID\<rparr>"

record md_reader =
  r_fsID :: string
  r_rootID :: nat
  r_curID :: nat

text \<open>
  \<^verbatim>\<open>initRootNode\<close>: the ID counter is not reset by a roll back, so the root's ID is the number of
  times the function ran.
\<close>

definition initRootNode :: "nat \<Rightarrow> string \<Rightarrow> nat \<Rightarrow> bolt_db \<Rightarrow> (md_error + bolt_db) \<times> nat" where
  "initRootNode retries fsID cur db =
     (let fss = (case db of None \<Rightarrow> Map.empty | Some m \<Rightarrow> m) in
      if fss fsID \<noteq> None then (Inl (BucketExists 0), cur)
      else if cur + retries \<ge> 4294967295 then (Inl SequenceTooLarge, 4294967295)
      else (let rootID = cur + retries + 1
            in (Inr (Some (fss(fsID \<mapsto> \<lparr>fs_nodes = b_nodes (root_build rootID), fs_metadata = Map.empty\<rparr>))), rootID)))"

definition initNodes ::
    "nat list \<Rightarrow> string \<Rightarrow> nat \<Rightarrow> tOC \<Rightarrow> int \<Rightarrow> bolt_db \<Rightarrow> md_error + (bolt_db \<times> nat)" where
  "initNodes retries fsID rootID toc chunkSize db =
     (case db of None \<Rightarrow> Inl (FsNotFound fsID)
      | Some fss \<Rightarrow>
        (case fss fsID of None \<Rightarrow> Inl (FsNotFound fsID)
         | Some fs \<Rightarrow>
           (case add_chunks rootID (partition toc chunkSize) retries
                   \<lparr>b_nodes = fs_nodes fs, b_md = Map.empty, b_cur = rootID\<rparr> of
              (Inl e, s) \<Rightarrow> Inl e
            | (Inr u, s) \<Rightarrow>
                bind_res (write_chunks (partition (addendum s) chunkSize) (fs_metadata fs)) (\<lambda>meta.
                  Inr (Some (fss(fsID \<mapsto> \<lparr>fs_nodes = b_nodes s, fs_metadata = meta\<rparr>)), b_cur s)))))"

text \<open>
  \<^verbatim>\<open>init\<close>: at most 100 random IDs are tried; \<open>ids\<close> are those that \<^verbatim>\<open>xid.New\<close> returns.
\<close>

fun init_root :: "nat \<Rightarrow> nat \<Rightarrow> string list \<Rightarrow> nat \<Rightarrow> bolt_db \<Rightarrow> md_error + (string \<times> nat \<times> bolt_db)" where
  "init_root 0 retries ids cur db = Inl NoUniqueID"
| "init_root (Suc n) retries [] cur db = Inl NoUniqueID"
| "init_root (Suc n) retries (i # ids) cur db =
     (case initRootNode retries i cur db of
        (Inr db', rootID) \<Rightarrow> Inr (i, rootID, db')
      | (Inl (BucketExists b), cur') \<Rightarrow> init_root n retries ids cur' db
      | (Inl e, cur') \<Rightarrow> Inl e)"

definition md_init ::
    "nat \<Rightarrow> nat list \<Rightarrow> string list \<Rightarrow> tOC \<Rightarrow> int \<Rightarrow> bolt_db \<Rightarrow> md_error + (md_reader \<times> bolt_db)" where
  "md_init rootRetries retries ids toc insertionChunkSize db =
     bind_res (init_root 100 rootRetries ids 0 db) (\<lambda>(fsID, rootID, db1).
       bind_res (initNodes retries fsID rootID toc
           (if insertionChunkSize \<le> 0 then defaultInsertionChunkSize else insertionChunkSize) db1)
         (\<lambda>(db2, cur). Inr (\<lparr>r_fsID = fsID, r_rootID = rootID, r_curID = cur\<rparr>, db2)))"

section \<open>Reading\<close>

definition get_fs :: "bolt_db \<Rightarrow> string \<Rightarrow> md_error + fs_db" where
  "get_fs db fsID =
     (case db of None \<Rightarrow> Inl (FsNotFound fsID)
      | Some fss \<Rightarrow> (case fss fsID of None \<Rightarrow> Inl (FsNotFound fsID) | Some fs \<Rightarrow> Inr fs))"

definition getNodesBucket :: "bolt_db \<Rightarrow> string \<Rightarrow> md_error + (nat \<rightharpoonup> node_bucket)" where
  "getNodesBucket db fsID = map_sum id fs_nodes (get_fs db fsID)"

definition getMetadataBucket :: "bolt_db \<Rightarrow> string \<Rightarrow> md_error + (nat \<rightharpoonup> meta_bucket)" where
  "getMetadataBucket db fsID = map_sum id fs_metadata (get_fs db fsID)"

definition node_by_id :: "(nat \<rightharpoonup> node_bucket) \<Rightarrow> nat \<Rightarrow> md_error + node_bucket" where
  "node_by_id nodes i = (case nodes i of None \<Rightarrow> Inl (NodeBucketNotFound i) | Some b \<Rightarrow> Inr b)"

definition getMetadataBucketByID :: "(nat \<rightharpoonup> meta_bucket) \<Rightarrow> nat \<Rightarrow> md_error + meta_bucket" where
  "getMetadataBucketByID meta i = (case meta i of None \<Rightarrow> Inl (MetadataBucketNotFound i) | Some b \<Rightarrow> Inr b)"

definition GetAttr :: "md_reader \<Rightarrow> bolt_db \<Rightarrow> nat \<Rightarrow> md_error + attr" where
  "GetAttr r db i =
     bind_res (getNodesBucket db (r_fsID r)) (\<lambda>nodes.
     bind_res (node_by_id nodes i) (\<lambda>b. Inr (readNodeEntryToAttr b zero_attr)))"

definition GetChild :: "md_reader \<Rightarrow> bolt_db \<Rightarrow> nat \<Rightarrow> string \<Rightarrow> md_error + (nat \<times> attr)" where
  "GetChild r db pid base =
     bind_res (getMetadataBucket db (r_fsID r)) (\<lambda>meta.
     bind_res (getMetadataBucketByID meta pid) (\<lambda>md.
     bind_res (map_sum DbError id (readChild md base)) (\<lambda>i.
     bind_res (getNodesBucket db (r_fsID r)) (\<lambda>nodes.
     bind_res (node_by_id nodes i) (\<lambda>b. Inr (i, readNodeEntryToAttr b zero_attr))))))"

text \<open>The children that \<^verbatim>\<open>ForeachChild\<close> collects, before it calls back for each of them.\<close>

fun extra_children ::
    "(nat \<rightharpoonup> node_bucket) \<Rightarrow> (string \<times> nat list) list \<Rightarrow> (string \<times> nat \<times> 32 word) list \<Rightarrow>
     md_error + (string \<times> nat \<times> 32 word) list" where
  "extra_children nodes [] acc = Inr acc"
| "extra_children nodes ((k, v) # kvs) acc =
     bind_res (map_sum DbError id (db_decodeID (Some v))) (\<lambda>i.
     bind_res (node_by_id nodes i) (\<lambda>b.
       extra_children nodes kvs (AList.update k (i, stored_mode b) acc)))"

definition children_of :: "md_reader \<Rightarrow> bolt_db \<Rightarrow> nat \<Rightarrow> md_error + (string \<times> nat \<times> 32 word) list" where
  "children_of r db i =
     bind_res (getMetadataBucket db (r_fsID r)) (\<lambda>meta.
       case getMetadataBucketByID meta i of Inl e \<Rightarrow> Inr []
       | Inr md \<Rightarrow>
         bind_res (getNodesBucket db (r_fsID r)) (\<lambda>nodes.
         bind_res
           (case mb_childName md of
              None \<Rightarrow> Inr []
            | Some firstName \<Rightarrow>
                if firstName = '''' then Inr []
                else bind_res (map_sum DbError id (db_decodeID (mb_childID md))) (\<lambda>firstID.
                     bind_res (node_by_id nodes firstID) (\<lambda>b. Inr [(firstName, firstID, stored_mode b)])))
           (\<lambda>acc. case mb_childrenExtra md of None \<Rightarrow> Inr acc | Some cbkt \<Rightarrow> extra_children nodes cbkt acc)))"

text \<open>The calls of \<open>f\<close>, whose first \<^const>\<open>False\<close> ends the iteration, with the state \<open>f\<close> changes.\<close>

fun foreach :: "('a \<Rightarrow> 's \<Rightarrow> bool \<times> 's) \<Rightarrow> 'a list \<Rightarrow> 's \<Rightarrow> 's" where
  "foreach f [] s = s"
| "foreach f (x # xs) s = (case f x s of (True, s') \<Rightarrow> foreach f xs s' | (False, s') \<Rightarrow> s')"

definition ForeachChild ::
    "md_reader \<Rightarrow> bolt_db \<Rightarrow> nat \<Rightarrow> (string \<times> nat \<times> 32 word \<Rightarrow> 's \<Rightarrow> bool \<times> 's) \<Rightarrow> 's \<Rightarrow> md_error + 's" where
  "ForeachChild r db i f s = bind_res (children_of r db i) (\<lambda>cs. Inr (foreach f cs s))"

record md_file =
  f_tarName :: string
  f_uncompressedOffset :: offset
  f_uncompressedSize :: offset
  f_tarHeaderOffset :: offset
  f_tarHeaderSize :: offset

text \<open>\<^verbatim>\<open>IsRegular\<close>: no type bit is set, those of a directory, link, device, pipe, socket or irregular file.\<close>

definition ModeType :: "32 word" where
  "ModeType = or (or (or ModeDir ModeSymlink) (or ModeNamedPipe (push_bit 24 1)))
     (or (or ModeDevice ModeCharDevice) (push_bit 19 1))"

definition IsRegular :: "32 word \<Rightarrow> bool" where
  "IsRegular m \<longleftrightarrow> and m ModeType = 0"

definition OpenFile :: "md_reader \<Rightarrow> bolt_db \<Rightarrow> nat \<Rightarrow> md_error + md_file" where
  "OpenFile r db i =
     bind_res (getNodesBucket db (r_fsID r)) (\<lambda>nodes.
     bind_res (node_by_id nodes i) (\<lambda>b.
       if \<not> IsRegular (stored_mode b) then Inl (NotRegular i)
       else bind_res (getMetadataBucket db (r_fsID r)) (\<lambda>meta.
         let mde = (case getMetadataBucketByID meta i of Inl e \<Rightarrow> empty_md | Inr md \<Rightarrow> getMetadataEntry md)
         in Inr \<lparr>f_tarName = md_TarName mde, f_uncompressedOffset = md_UncompressedOffset mde,
                 f_uncompressedSize = (case nb_size b of None \<Rightarrow> 0 | Some n \<Rightarrow> n),
                 f_tarHeaderOffset = md_TarHeaderOffset mde, f_tarHeaderSize = md_TarHeaderSize mde\<rparr>)))"

definition NumOfNodes :: "md_reader \<Rightarrow> bolt_db \<Rightarrow> md_error + nat" where
  "NumOfNodes r db =
     bind_res (getNodesBucket db (r_fsID r)) (\<lambda>nodes. Inr (card (dom nodes)))"

definition md_Clone :: "md_reader \<Rightarrow> md_reader" where
  "md_Clone r = r\<lparr>r_curID := 0\<rparr>"

definition md_Close :: "md_reader \<Rightarrow> bolt_db \<Rightarrow> md_error + bolt_db" where
  "md_Close r db =
     (case db of None \<Rightarrow> Inr None
      | Some fss \<Rightarrow> if fss (r_fsID r) = None then Inl (FsNotFound (r_fsID r))
                    else Inr (Some (fss(r_fsID r := None))))"

end
