(* ===== verification/Metadata_Tree.thy ===== *)
theory Metadata_Tree
  imports Metadata_Reader "HOL-Library.Sublist"
begin

text \<open>
  The tree that the metadata store builds from a table of contents. The abstract view is the
  partial function from paths, lists of components, to node IDs; every operation of the build
  is described by what it does to that function, and a table of contents without conflicting
  names is proved to be readable again, entry by entry, through \<^verbatim>\<open>GetChild\<close> and \<^verbatim>\<open>OpenFile\<close>.
\<close>

section \<open>Paths in the tree\<close>

definition kids :: "(nat \<rightharpoonup> mdEntry) \<Rightarrow> nat \<Rightarrow> string \<rightharpoonup> nat" where
  "kids md i = (case md i of None \<Rightarrow> Map.empty | Some e \<Rightarrow> map_of (md_children e))"

fun walk :: "(nat \<Rightarrow> string \<rightharpoonup> nat) \<Rightarrow> nat \<Rightarrow> string list \<Rightarrow> nat option" where
  "walk K i [] = Some i"
| "walk K i (c # cs) = (case K i c of None \<Rightarrow> None | Some j \<Rightarrow> walk K j cs)"

lemma walk_append: "walk K i (cs @ ds) = (case walk K i cs of None \<Rightarrow> None | Some j \<Rightarrow> walk K j ds)"
  by (induction cs arbitrary: i) (auto split: option.splits)

lemma walk_snoc: "walk K i (cs @ [c]) = (case walk K i cs of None \<Rightarrow> None | Some j \<Rightarrow> K j c)"
  by (simp add: walk_append split: option.splits)

text \<open>Adding a childless node at a free place below a directory that has one path only.\<close>

lemma walk_update:
  assumes "walk K root pp = Some pid" and "\<forall>q. walk K root q = Some pid \<longrightarrow> q = pp"
    and "K i = Map.empty" and "i \<noteq> pid" and "K pid base = None"
  shows "walk (K(pid := (K pid)(base \<mapsto> i))) root q = (if q = pp @ [base] then Some i else walk K root q)"
proof -
  define K' where "K' = K(pid := (K pid)(base \<mapsto> i))"
  have K': "K' pid c = (if c = base then Some i else K pid c)" "j \<noteq> pid \<Longrightarrow> K' j = K j" for c j
    by (simp_all add: K'_def)
  have "walk K' root q = (if q = pp @ [base] then Some i else walk K root q)"
  proof (induction q rule: rev_induct)
    case (snoc c q)
    consider "q = pp @ [base]" | "q = pp" | "q \<noteq> pp" "q \<noteq> pp @ [base]" by blast
    then show ?case
    proof cases
      case 1
      have "walk K root q = None" using 1 assms(1,5) by (simp add: walk_snoc)
      moreover have "walk K' root q = Some i" using snoc.IH by (simp only: if_P [OF 1])
      ultimately have "walk K' root (q @ [c]) = None" "walk K root (q @ [c]) = None"
        using assms(3) K'(2) [OF assms(4)] by (simp_all only: walk_snoc option.case)
      then show ?thesis using 1 by simp
    next
      case 2
      then have "walk K' root q = Some pid" using snoc.IH assms(1) by simp
      then show ?thesis using 2 assms(1) K'(1) by (simp add: walk_snoc)
    next
      case 3
      then have w: "walk K' root q = walk K root q" using snoc.IH by simp
      moreover have "K' j = K j" if "walk K root q = Some j" for j
        by (rule K'(2)) (use that 3(1) assms(2) in auto)
      ultimately have "walk K' root (q @ [c]) = walk K root (q @ [c])"
        by (simp add: walk_snoc split: option.splits)
      then show ?thesis using 3(1) by simp
    qed
  qed simp
  then show ?thesis by (simp only: K'_def)
qed
definition found :: "md_error + nat \<Rightarrow> nat option" where
  "found r = (case r of Inl e \<Rightarrow> None | Inr i \<Rightarrow> Some i)"

lemma found_simps [simp]: "found (Inl e) = None" "found (Inr i) = Some i"
  by (simp_all add: found_def)

lemma found_None: "found r = None \<longleftrightarrow> (\<exists>e. r = Inl e)"
  by (cases r) auto

lemma found_Some: "found r = Some i \<longleftrightarrow> r = Inr i"
  by (cases r) auto

lemma getIDByName_walk:
  assumes "comps p = [] \<longrightarrow> p = ''''"
  shows "found (getIDByName md p root) = walk (kids md) root (comps p)"
  using assms
proof (induction "length p" arbitrary: p rule: less_induct)
  case less
  show ?case
  proof (cases "comps p" rule: rev_cases)
    case Nil
    then show ?thesis using less.prems by (simp add: getIDByName.simps)
  next
    case (snoc cs c)
    have ok: "list_all ok_comp (cs @ [c])" using comps_ok [of p] snoc by simp
    then have cs: "list_all ok_comp cs" by simp
    have p: "p \<noteq> ''''" using snoc by (auto simp: comps_def clean_step_def)
    have sp: "filepath_Split (cleanEntryPath p) = (dir_path cs, c)"
      using Split_join [OF ok] snoc by (simp add: cleanEntryPath_comps)
    have "walk (kids md) root cs = found (getIDByName md (dir_path cs) root)"
      using less.hyps [of "dir_path cs"] length_parentDir [OF p] sp cs
      by (auto simp: parentDir_def dir_path_def)
    then show ?thesis
      using p sp snoc
      by (subst getIDByName.simps)
         (cases "getIDByName md (dir_path cs) root", auto simp: parentDir_def walk_snoc kids_def split: option.splits)
  qed
qed

lemma getID_dir: "list_all ok_comp cs \<Longrightarrow> found (getIDByName md (dir_path cs) root) = walk (kids md) root cs"
  using getIDByName_walk [of "dir_path cs" md root] by (simp add: dir_path_def split: if_splits)

lemma getID_clean: "found (getIDByName md (cleanEntryPath p) root) = walk (kids md) root (comps p)"
proof -
  have "comps (cleanEntryPath p) = [] \<longrightarrow> cleanEntryPath p = ''''"
    by (metis comps_clean cleanEntryPath_comps join_path.simps(1))
  then show ?thesis using getIDByName_walk [of "cleanEntryPath p" md root] by (simp only: comps_clean)
qed

section \<open>The invariant of a build\<close>

text \<open>
  \<open>L\<close> is the set of paths of files that are not directories. Two paths lead to the same node only
  if both are such files (hard links), and such a file has no children.
\<close>

abbreviation tree :: "nat \<Rightarrow> build \<Rightarrow> string list \<Rightarrow> nat option" where
  "tree root s \<equiv> walk (kids (b_md s)) root"

definition tree_inv :: "nat \<Rightarrow> string list set \<Rightarrow> build \<Rightarrow> bool" where
  "tree_inv root L s \<longleftrightarrow>
     (\<forall>i. b_nodes s i \<noteq> None \<longleftrightarrow> root \<le> i \<and> i \<le> b_cur s) \<and> root \<le> b_cur s \<and> b_cur s \<le> 4294967295 \<and>
     (\<forall>i. b_cur s < i \<longrightarrow> b_md s i = None) \<and>
     (\<forall>p i. tree root s p = Some i \<longrightarrow> root \<le> i \<and> i \<le> b_cur s) \<and>
     (\<forall>p q i. tree root s p = Some i \<longrightarrow> tree root s q = Some i \<longrightarrow> p = q \<or> p \<in> L \<and> q \<in> L) \<and>
     (\<forall>p i. tree root s p = Some i \<longrightarrow> p \<in> L \<longrightarrow> kids (b_md s) i = Map.empty) \<and>
     (\<forall>i e. b_md s i = Some e \<longrightarrow> md_ok e)"

lemma tree_invD:
  assumes "tree_inv root L s"
  shows "b_nodes s i \<noteq> None \<longleftrightarrow> root \<le> i \<and> i \<le> b_cur s" and "root \<le> b_cur s" and "b_cur s \<le> 4294967295"
    and "b_cur s < i \<Longrightarrow> b_md s i = None"
    and "tree root s p = Some i \<Longrightarrow> root \<le> i \<and> i \<le> b_cur s"
    and "tree root s p = Some i \<Longrightarrow> tree root s q = Some i \<Longrightarrow> p \<notin> L \<Longrightarrow> q = p"
    and "tree root s p = Some i \<Longrightarrow> p \<in> L \<Longrightarrow> kids (b_md s) i = Map.empty"
    and "b_md s i = Some e \<Longrightarrow> md_ok e"
  using assms unfolding tree_inv_def by blast+

text \<open>Node buckets up to their link counts, and the entries of \<^verbatim>\<open>md\<close> without the children.\<close>

definition same_node :: "node_bucket option \<Rightarrow> node_bucket option \<Rightarrow> bool" where
  "same_node x y \<longleftrightarrow> map_option (nb_numLink_update (\<lambda>_. None)) x = map_option (nb_numLink_update (\<lambda>_. None)) y"

lemma same_node_refl [simp]: "same_node x x"
  by (simp add: same_node_def)

lemma same_node_trans: "same_node x y \<Longrightarrow> same_node y z \<Longrightarrow> same_node x z"
  by (simp add: same_node_def)

definition offsets :: "build \<Rightarrow> nat \<Rightarrow> mdEntry" where
  "offsets s i = (case b_md s i of None \<Rightarrow> empty_md | Some e \<Rightarrow> e\<lparr>md_children := []\<rparr>)"

text \<open>
  What an operation leaves alone: paths keep their nodes, a new path leads to a new node, nodes
  keep everything but their link count, and a node that no path leads to stays like that.
\<close>

definition extends :: "nat \<Rightarrow> build \<Rightarrow> build \<Rightarrow> bool" where
  "extends root s s' \<longleftrightarrow> b_cur s \<le> b_cur s' \<and>
     (\<forall>p i. tree root s p = Some i \<longrightarrow> tree root s' p = Some i) \<and>
     (\<forall>p i. tree root s' p = Some i \<longrightarrow> i \<le> b_cur s \<longrightarrow> tree root s p = Some i) \<and>
     (\<forall>i \<le> b_cur s. same_node (b_nodes s i) (b_nodes s' i) \<and> offsets s' i = offsets s i) \<and>
     (\<forall>i \<le> b_cur s. (\<forall>p. tree root s p \<noteq> Some i) \<longrightarrow> kids (b_md s') i = kids (b_md s) i)"

lemma extendsD:
  assumes "extends root s s'"
  shows "b_cur s \<le> b_cur s'"
    and "tree root s p = Some i \<Longrightarrow> tree root s' p = Some i"
    and "tree root s' p = Some i \<Longrightarrow> i \<le> b_cur s \<Longrightarrow> tree root s p = Some i"
    and "i \<le> b_cur s \<Longrightarrow> same_node (b_nodes s i) (b_nodes s' i)"
    and "i \<le> b_cur s \<Longrightarrow> offsets s' i = offsets s i"
    and "i \<le> b_cur s \<Longrightarrow> \<forall>p. tree root s p \<noteq> Some i \<Longrightarrow> kids (b_md s') i = kids (b_md s) i"
  using assms unfolding extends_def by blast+

lemma extends_refl [simp]: "extends root s s"
  by (simp add: extends_def)

lemma extends_trans:
  assumes "extends root s s1" and "extends root s1 s2"
  shows "extends root s s2"
proof -
  note A = extendsD [OF assms(1)] and B = extendsD [OF assms(2)]
  have "tree root s p = Some i" if "tree root s2 p = Some i" "i \<le> b_cur s" for p i
    using that A(1,3) B(3) le_trans by blast
  moreover have "kids (b_md s2) i = kids (b_md s) i" if "i \<le> b_cur s" "\<forall>p. tree root s p \<noteq> Some i" for i
    using that A(1,3,6) B(6) [of i] by (metis le_trans)
  moreover have "same_node (b_nodes s i) (b_nodes s2 i)" "offsets s2 i = offsets s i" if "i \<le> b_cur s" for i
    using that A(1,4,5) B(4,5) same_node_trans by (metis le_trans)+
  ultimately show ?thesis
    using A(1,2) B(1,2) le_trans unfolding extends_def by blast
qed

section \<open>What the operations do to the tree\<close>

lemma create_node:
  assumes "tree_inv root L s" and "b_cur s < 4294967295" and "writeNodeEntry empty_node a = Inr b"
  defines "i \<equiv> b_cur s + 1"
  defines "s' \<equiv> s\<lparr>b_cur := i, b_nodes := (b_nodes s)(i \<mapsto> b)\<rparr>"
  shows "nextID s = (Inr i, s\<lparr>b_cur := i\<rparr>)"
    and "CreateBucket i (s\<lparr>b_cur := i\<rparr>) = (Inr empty_node, s\<lparr>b_cur := i, b_nodes := (b_nodes s)(i \<mapsto> empty_node)\<rparr>)"
    and "put_node i a (s\<lparr>b_cur := i, b_nodes := (b_nodes s)(i \<mapsto> empty_node)\<rparr>) = (Inr (), s')"
    and "tree_inv root L s'" and "extends root s s'" and "tree root s' p \<noteq> Some i" and "kids (b_md s') i = Map.empty"
    and "tree root s' p = tree root s p"
proof -
  note I = tree_invD [OF assms(1)]
  have n: "b_nodes s i = None" using I(1) [of i] by (simp add: i_def)
  show "nextID s = (Inr i, s\<lparr>b_cur := i\<rparr>)" using assms(2) by (simp add: nextID_def i_def)
  show "CreateBucket i (s\<lparr>b_cur := i\<rparr>) = (Inr empty_node, s\<lparr>b_cur := i, b_nodes := (b_nodes s)(i \<mapsto> empty_node)\<rparr>)"
    using n by (simp add: CreateBucket_def)
  show "put_node i a (s\<lparr>b_cur := i, b_nodes := (b_nodes s)(i \<mapsto> empty_node)\<rparr>) = (Inr (), s')"
    using assms(3) by (simp add: put_node_def s'_def)
  have t: "tree root s' p = tree root s p" "b_md s' = b_md s" for p by (simp_all add: s'_def)
  show "tree root s' p = tree root s p" for p by (rule t)
  show "tree root s' p \<noteq> Some i" for p using I(5) [of p i] t by (auto simp: i_def)
  show "kids (b_md s') i = Map.empty" using I(4) [of i] t by (simp add: kids_def i_def)
  have nd: "b_nodes s' j \<noteq> None \<longleftrightarrow> root \<le> j \<and> j \<le> b_cur s'" for j
    using I(1) [of j] I(2) by (auto simp: s'_def i_def)
  show "tree_inv root L s'"
    unfolding tree_inv_def
  proof (intro conjI allI impI)
    show "root \<le> b_cur s'" "b_cur s' \<le> 4294967295" using I(2) assms(2) by (simp_all add: s'_def i_def)
    show "b_md s' j = None" if "b_cur s' < j" for j using I(4) [of j] that t by (simp add: s'_def i_def)
    show "root \<le> j" "j \<le> b_cur s'" if "tree root s' p = Some j" for p j
      using I(5) [of p j] that t by (auto simp: s'_def i_def)
    show "p = q \<or> p \<in> L \<and> q \<in> L" if "tree root s' p = Some j" "tree root s' q = Some j" for p q j
      using I(6) that t by metis
    show "kids (b_md s') j = Map.empty" if "tree root s' p = Some j" "p \<in> L" for p j
      using I(7) that t by metis
    show "md_ok e" if "b_md s' j = Some e" for j e using I(8) that t by metis
  qed (use nd in blast)+
  show "extends root s s'"
    unfolding extends_def using t by (auto simp: s'_def i_def offsets_def)
qed

lemma add_link_ok:
  assumes "b_nodes s i \<noteq> None"
  obtains b where "b_nodes s i = Some b"
    and "add_link i s = (Inr (), s\<lparr>b_nodes := (b_nodes s)(i \<mapsto> b\<lparr>nb_numLink := Some (wrap64 (stored_numLink b + 1))\<rparr>)\<rparr>)"
  using assms by (auto simp: add_link_def)

lemma same_node_numLink: "same_node (Some b) (Some (b\<lparr>nb_numLink := x\<rparr>))"
  by (simp add: same_node_def)

lemma kids_setChild:
  "kids ((b_md s)(pid \<mapsto> e\<lparr>md_children := AList.update base i (md_children e)\<rparr>)) =
     (kids (b_md s))(pid := (kids (b_md s) pid)(base \<mapsto> i))"
  if "e = (case b_md s pid of None \<Rightarrow> empty_md | Some e \<Rightarrow> e)"
  using that by (auto simp: kids_def fun_eq_iff AList.update_conv' empty_md_def split: option.splits)

lemma setChild_result:
  assumes "b_nodes s pid \<noteq> None"
  defines "e \<equiv> (case b_md s pid of None \<Rightarrow> empty_md | Some e \<Rightarrow> e)"
  obtains s' where "setChild pid base i isDir s = (Inr (), s')"
    and "b_md s' = (b_md s)(pid \<mapsto> e\<lparr>md_children := AList.update base i (md_children e)\<rparr>)"
    and "b_cur s' = b_cur s" and "\<forall>j. same_node (b_nodes s j) (b_nodes s' j)"
    and "\<forall>j. b_nodes s' j = None \<longleftrightarrow> b_nodes s j = None" and "\<forall>j. offsets s' j = offsets s j"
    and "kids (b_md s') = (kids (b_md s))(pid := (kids (b_md s) pid)(base \<mapsto> i))"
proof -
  let ?s1 = "s\<lparr>b_md := (b_md s)(pid \<mapsto> e\<lparr>md_children := AList.update base i (md_children e)\<rparr>)\<rparr>"
  obtain b where b: "b_nodes ?s1 pid = Some b"
      "add_link pid ?s1 = (Inr (), ?s1\<lparr>b_nodes := (b_nodes ?s1)(pid \<mapsto> b\<lparr>nb_numLink := Some (wrap64 (stored_numLink b + 1))\<rparr>)\<rparr>)"
    using add_link_ok [of ?s1 pid] assms(1) by auto
  let ?s' = "if isDir then ?s1\<lparr>b_nodes := (b_nodes ?s1)(pid \<mapsto> b\<lparr>nb_numLink := Some (wrap64 (stored_numLink b + 1))\<rparr>)\<rparr> else ?s1"
  have off: "offsets ?s' j = offsets s j" for j
    by (auto simp: offsets_def e_def empty_md_def split: option.splits)
  have md: "b_md ?s' = (b_md s)(pid \<mapsto> e\<lparr>md_children := AList.update base i (md_children e)\<rparr>)" by simp
  show ?thesis
  proof (rule that [of ?s'])
    show "setChild pid base i isDir s = (Inr (), ?s')"
      using b(2) by (simp add: setChild_def Let_def e_def)
    show "\<forall>j. same_node (b_nodes s j) (b_nodes ?s' j)" using b(1) by (auto simp: same_node_def)
    show "\<forall>j. b_nodes ?s' j = None \<longleftrightarrow> b_nodes s j = None" using b(1) by auto
    show "kids (b_md ?s') = (kids (b_md s))(pid := (kids (b_md s) pid)(base \<mapsto> i))"
      unfolding md by (rule kids_setChild) (simp add: e_def)
  qed (simp_all add: off md)
qed

lemma md_ok_update:
  assumes "md_ok e" and "bolt_Put base 4 = None" and "i < 4294967296"
  shows "md_ok (e\<lparr>md_children := AList.update base i (md_children e)\<rparr>)"
proof -
  have "set (AList.update base i xs) \<subseteq> insert (base, i) (set xs)" for xs :: "(string \<times> nat) list"
    by (induction xs) auto
  then show ?thesis using assms by (fastforce simp: md_ok_def AList.distinct_update)
qed

lemma md_ok_empty [simp]: "md_ok empty_md"
  by (simp add: md_ok_def empty_md_def)

lemma setChild_new:
  assumes "tree_inv root L s" and "tree root s pp = Some pid" and "pp \<notin> L" and "kids (b_md s) pid base = None"
    and "root \<le> i" and "i \<le> b_cur s" and "kids (b_md s) i = Map.empty" and "bolt_Put base 4 = None"
    and "\<forall>q. tree root s q = Some i \<longrightarrow> q \<in> L \<and> pp @ [base] \<in> L" and "i \<noteq> pid"
  shows "\<exists>s'. setChild pid base i isDir s = (Inr (), s') \<and> tree_inv root L s' \<and> b_cur s' = b_cur s \<and>
    (\<forall>q. tree root s' q = (if q = pp @ [base] then Some i else tree root s q)) \<and>
    (\<forall>j. same_node (b_nodes s j) (b_nodes s' j) \<and> offsets s' j = offsets s j) \<and>
    (\<forall>j. j \<noteq> pid \<longrightarrow> kids (b_md s') j = kids (b_md s) j)"
proof -
  note I = tree_invD [OF assms(1)]
  have n: "b_nodes s pid \<noteq> None" using I(1) [of pid] I(5) [OF assms(2)] by blast
  obtain s' where s': "setChild pid base i isDir s = (Inr (), s')"
      "b_md s' = (b_md s)(pid \<mapsto> (case b_md s pid of None \<Rightarrow> empty_md | Some e \<Rightarrow> e)\<lparr>md_children :=
          AList.update base i (md_children (case b_md s pid of None \<Rightarrow> empty_md | Some e \<Rightarrow> e))\<rparr>)"
      "b_cur s' = b_cur s" "\<forall>j. same_node (b_nodes s j) (b_nodes s' j)" "\<forall>j. b_nodes s' j = None \<longleftrightarrow> b_nodes s j = None"
      "\<forall>j. offsets s' j = offsets s j" "kids (b_md s') = (kids (b_md s))(pid := (kids (b_md s) pid)(base \<mapsto> i))"
    using setChild_result [OF n, of base i isDir] .
  have inj: "\<forall>q. tree root s q = Some pid \<longrightarrow> q = pp" using I(6) [OF assms(2) _ assms(3)] by blast
  have t: "tree root s' q = (if q = pp @ [base] then Some i else tree root s q)" for q
    unfolding s'(7) by (rule walk_update [where K = "kids (b_md s)", OF assms(2) inj assms(7,10,4)])
  have "tree_inv root L s'"
    unfolding tree_inv_def
  proof (intro conjI allI impI)
    show "b_nodes s' j \<noteq> None \<longleftrightarrow> root \<le> j \<and> j \<le> b_cur s'" for j using I(1) [of j] s'(3,5) by simp
    show "root \<le> b_cur s'" "b_cur s' \<le> 4294967295" using I(2,3) s'(3) by simp_all
    show "b_md s' j = None" if "b_cur s' < j" for j
      using I(4) [of j] I(5) [OF assms(2)] that s'(2,3) by auto
    show "root \<le> j" "j \<le> b_cur s'" if "tree root s' q = Some j" for q j
      using I(5) [of q j] that t [of q] assms(5,6) s'(3) by (cases "q = pp @ [base]"; simp)+
    show "q = q' \<or> q \<in> L \<and> q' \<in> L" if "tree root s' q = Some j" "tree root s' q' = Some j" for q q' j
    proof -
      consider "q = pp @ [base]" "q' = pp @ [base]" | "q = pp @ [base]" "q' \<noteq> pp @ [base]"
        | "q \<noteq> pp @ [base]" "q' = pp @ [base]" | "q \<noteq> pp @ [base]" "q' \<noteq> pp @ [base]" by blast
      then show ?thesis
      proof cases
        case 2
        then have "tree root s q' = Some i" using that t [of q] t [of q'] by simp
        then show ?thesis using assms(9) 2(1) by blast
      next
        case 3
        then have "tree root s q = Some i" using that t [of q] t [of q'] by simp
        then show ?thesis using assms(9) 3(2) by blast
      next
        case 4
        then have "tree root s q = Some j" "tree root s q' = Some j" using that t [of q] t [of q'] by simp_all
        then show ?thesis using I(6) by blast
      qed simp
    qed
    show "kids (b_md s') j = Map.empty" if q: "tree root s' q = Some j" "q \<in> L" for q j
    proof -
      have "j \<noteq> pid \<and> kids (b_md s) j = Map.empty"
      proof (cases "q = pp @ [base]")
        case True
        then show ?thesis using q(1) t [of q] assms(7,10) by simp
      next
        case False
        then have "tree root s q = Some j" using q(1) t [of q] by simp
        then show ?thesis using I(7) [OF _ q(2)] inj assms(3) q(2) by blast
      qed
      then show ?thesis by (simp add: s'(7))
    qed
    show "md_ok e" if "b_md s' j = Some e" for j e
    proof -
      have "md_ok (case b_md s pid of None \<Rightarrow> empty_md | Some e \<Rightarrow> e)" using I(8) by (auto split: option.splits)
      then show ?thesis
        using I(8) [of j e] that s'(2) md_ok_update [OF _ assms(8), of _ i] assms(6) I(3) by (auto split: if_splits)
    qed
  qed
  moreover have "kids (b_md s') j = kids (b_md s) j" if "j \<noteq> pid" for j using that by (simp add: s'(7))
  ultimately show ?thesis using s' t by blast
qed

text \<open>Linking a directory again where it already is changes at most link counts.\<close>

lemma setChild_again:
  assumes "tree_inv root L s" and "tree root s pp = Some pid" and "kids (b_md s) pid base = Some i"
  shows "\<exists>s'. setChild pid base i isDir s = (Inr (), s') \<and> tree_inv root L s' \<and> b_cur s' = b_cur s \<and>
    b_md s' = b_md s \<and> (\<forall>j. same_node (b_nodes s j) (b_nodes s' j))"
proof -
  note I = tree_invD [OF assms(1)]
  have n: "b_nodes s pid \<noteq> None" using I(1) [of pid] I(5) [OF assms(2)] by blast
  obtain s' where s': "setChild pid base i isDir s = (Inr (), s')"
      "b_md s' = (b_md s)(pid \<mapsto> (case b_md s pid of None \<Rightarrow> empty_md | Some e \<Rightarrow> e)\<lparr>md_children :=
          AList.update base i (md_children (case b_md s pid of None \<Rightarrow> empty_md | Some e \<Rightarrow> e))\<rparr>)"
      "b_cur s' = b_cur s" "\<forall>j. same_node (b_nodes s j) (b_nodes s' j)" "\<forall>j. b_nodes s' j = None \<longleftrightarrow> b_nodes s j = None"
      "\<forall>j. offsets s' j = offsets s j" "kids (b_md s') = (kids (b_md s))(pid := (kids (b_md s) pid)(base \<mapsto> i))"
    using setChild_result [OF n, of base i isDir] .
  have md: "b_md s' = b_md s"
    using assms(3) s'(2) by (auto simp: kids_def AList.update_triv fun_eq_iff split: option.splits)
  have "tree_inv root L s'" using assms(1) s'(3,5) by (simp add: tree_inv_def md)
  then show ?thesis using s' md by blast
qed

section \<open>Parent directories\<close>

definition plain_dir :: "node_bucket option \<Rightarrow> bool" where
  "plain_dir x \<longleftrightarrow> same_node x (Some (empty_node\<lparr>nb_mode := Some (or ModeDir 493)\<rparr>))"

lemma plain_dir_same: "plain_dir x \<Longrightarrow> same_node x y \<Longrightarrow> plain_dir y"
  unfolding plain_dir_def same_node_def by (rule trans [OF sym])

lemma dir_mode_nonzero [simp]: "(or ModeDir 493 :: 32 word) \<noteq> 0"
proof
  assume "(or ModeDir 493 :: 32 word) = 0"
  then have "bit (or ModeDir 493 :: 32 word) 31 = bit (0 :: 32 word) 31" by simp
  then show False by (simp add: bit_or_iff ModeDir_def bit_push_bit_iff)
qed

lemma write_dir_attr: "\<exists>b. writeNodeEntry empty_node dir_attr = Inr b \<and> plain_dir (Some b)"
  by (simp add: writeNodeEntry_def write_scalars_def dir_attr_def zero_attr_def put_nonzero_def plain_dir_def
      same_node_def empty_node_def)

lemma getOrCreateDir_found:
  assumes "tree_inv root L s" and "list_all ok_comp pp" and "tree root s pp = Some i"
  shows "getOrCreateDir root (dir_path pp) s = (Inr i, s)"
proof -
  have "b_nodes s i \<noteq> None" using tree_invD(1,5) [OF assms(1)] assms(3) by blast
  then show ?thesis
    using getID_dir [OF assms(2), of "b_md s" root] assms(3)
    by (subst getOrCreateDir.simps) (auto simp: found_Some getNodeBucketByID_def)
qed

lemma parentDir_dir_path:
  assumes "list_all ok_comp (ps @ [c])"
  shows "parentDir (cleanEntryPath (dir_path (ps @ [c]))) = dir_path ps"
  using Split_join [OF assms] comps_dir_path [OF assms] by (simp add: parentDir_def cleanEntryPath_comps)

text \<open>Linking a new node below its parent, which was looked up or created after the node.\<close>

lemma extends_setChild:
  assumes "extends root s s4" and "tree root s4 ps = Some pid" and "b_cur s < i" and "tree root s (ps @ [c]) = None"
    and "b_cur s5 = b_cur s4" and "\<forall>q. tree root s5 q = (if q = ps @ [c] then Some i else tree root s4 q)"
    and "\<forall>j. same_node (b_nodes s4 j) (b_nodes s5 j) \<and> offsets s5 j = offsets s4 j"
    and "\<forall>j. j \<noteq> pid \<longrightarrow> kids (b_md s5) j = kids (b_md s4) j"
  shows "extends root s s5"
proof -
  note E = extendsD [OF assms(1)]
  have "tree root s5 p = Some j" if "tree root s p = Some j" for p j
    using E(2) [OF that] that assms(4,6) by auto
  moreover have "tree root s p = Some j" if "tree root s5 p = Some j" "j \<le> b_cur s" for p j
  proof -
    have "p \<noteq> ps @ [c]" using that assms(3,6) by auto
    then show ?thesis using that assms(6) E(3) by auto
  qed
  moreover have "kids (b_md s5) j = kids (b_md s) j" if "j \<le> b_cur s" "\<forall>p. tree root s p \<noteq> Some j" for j
  proof -
    have "j \<noteq> pid" using that E(3) [of ps j] assms(2) by auto
    then show ?thesis using that assms(8) E(6) by simp
  qed
  moreover have "same_node (b_nodes s j) (b_nodes s5 j) \<and> offsets s5 j = offsets s j" if "j \<le> b_cur s" for j
    using that E(5) assms(7) same_node_trans [OF E(4) [OF that]] by simp
  moreover have "b_cur s \<le> b_cur s5" using E(1) assms(5) by simp
  ultimately show ?thesis unfolding extends_def by blast
qed

lemma getOrCreateDir_ok:
  assumes "list_all ok_comp pp" and "\<forall>q. prefix q pp \<longrightarrow> q \<notin> L" and "\<forall>c \<in> set pp. length c \<le> 32768"
    and "tree_inv root L s" and "b_cur s + length pp \<le> 4294967295"
  shows "\<exists>i s'. getOrCreateDir root (dir_path pp) s = (Inr i, s') \<and> tree_inv root L s' \<and> extends root s s' \<and>
    tree root s' pp = Some i \<and> b_cur s' \<le> b_cur s + length pp \<and>
    (\<forall>q j. tree root s' q = Some j \<and> tree root s q = None \<longrightarrow>
       prefix q pp \<and> plain_dir (b_nodes s' j) \<and> offsets s' j = empty_md)"
  using assms
proof (induction pp arbitrary: s rule: rev_induct)
  case Nil
  then show ?case using getOrCreateDir_found [OF Nil.prems(4), of "[]" root] by auto
next
  case (snoc c ps)
  show ?case
  proof (cases "tree root s (ps @ [c])")
    case (Some i)
    then show ?thesis using getOrCreateDir_found [OF snoc.prems(4,1) Some] snoc.prems(4) by auto
  next
    case None
    obtain b where b: "writeNodeEntry empty_node dir_attr = Inr b" "plain_dir (Some b)" using write_dir_attr by blast
    have cur: "b_cur s < 4294967295" using snoc.prems(5) by simp
    note N = create_node [OF snoc.prems(4) cur b(1)]
    let ?i = "b_cur s + 1"
    let ?s3 = "s\<lparr>b_cur := ?i, b_nodes := (b_nodes s)(?i \<mapsto> b)\<rparr>"
    obtain pid s4 where R: "getOrCreateDir root (dir_path ps) ?s3 = (Inr pid, s4)" "tree_inv root L s4"
        "extends root ?s3 s4" "tree root s4 ps = Some pid" "b_cur s4 \<le> b_cur ?s3 + length ps"
        "\<forall>q j. tree root s4 q = Some j \<and> tree root ?s3 q = None \<longrightarrow>
           prefix q ps \<and> plain_dir (b_nodes s4 j) \<and> offsets s4 j = empty_md"
    proof -
      have "list_all ok_comp ps" "\<forall>q. prefix q ps \<longrightarrow> q \<notin> L" "\<forall>c \<in> set ps. length c \<le> 32768"
          "b_cur ?s3 + length ps \<le> 4294967295"
        using snoc.prems(1,2,3,5) by auto
      from snoc.IH [OF this(1-3) N(4) this(4)] show ?thesis using that by blast
    qed
    note E = extendsD [OF R(3)]
    have un: "tree root s4 q \<noteq> Some ?i" for q using E(3) [of q ?i] N(6) by auto
    have "tree root s4 (ps @ [c]) = None"
    proof (rule ccontr)
      assume "tree root s4 (ps @ [c]) \<noteq> None"
      then obtain j where j: "tree root s4 (ps @ [c]) = Some j" by blast
      have "tree root ?s3 (ps @ [c]) = None" using None N(8) by simp
      then have "prefix (ps @ [c]) ps" using R(6) j by blast
      then show False using prefix_length_le by fastforce
    qed
    then have free: "kids (b_md s4) pid c = None" using R(4) by (simp add: walk_snoc)
    have k: "kids (b_md s4) ?i = Map.empty" using E(6) [of ?i] N(6,7) by simp
    have bp: "bolt_Put c 4 = None" using snoc.prems(1,3) by (simp add: bolt_Put_def ok_comp_def)
    have psL: "ps \<notin> L" using snoc.prems(2) by simp
    have i: "root \<le> ?i" "?i \<le> b_cur s4" using tree_invD(2) [OF snoc.prems(4)] E(1) by auto
    obtain s5 where S: "setChild pid c ?i True s4 = (Inr (), s5)" "tree_inv root L s5" "b_cur s5 = b_cur s4"
        "\<forall>q. tree root s5 q = (if q = ps @ [c] then Some ?i else tree root s4 q)"
        "\<forall>j. same_node (b_nodes s4 j) (b_nodes s5 j) \<and> offsets s5 j = offsets s4 j"
        "\<forall>j. j \<noteq> pid \<longrightarrow> kids (b_md s5) j = kids (b_md s4) j"
      using setChild_new [OF R(2,4) psL free i k bp, of True] un R(4) by metis
    have "getOrCreateDir root (dir_path (ps @ [c])) s = (Inr ?i, s5)"
    proof -
      obtain e where e: "getIDByName (b_md s) (dir_path (ps @ [c])) root = Inl e"
        using getID_dir [OF snoc.prems(1), of "b_md s" root] None by (auto simp: found_None)
      show ?thesis
        using e N(1-3) R(1) S(1) parentDir_dir_path [OF snoc.prems(1)] Base_dir_path [OF snoc.prems(1)]
        by (subst getOrCreateDir.simps) simp
    qed
    moreover have "extends root s s5"
      by (rule extends_setChild [OF extends_trans [OF N(5) R(3)] R(4) _ None S(3-6)]) simp
    moreover have "b_cur s5 \<le> b_cur s + length (ps @ [c])" using R(5) S(3) by simp
    moreover have "prefix q (ps @ [c]) \<and> plain_dir (b_nodes s5 j) \<and> offsets s5 j = empty_md"
      if q: "tree root s5 q = Some j" "tree root s q = None" for q j
    proof (cases "q = ps @ [c]")
      case True
      have "same_node (b_nodes ?s3 ?i) (b_nodes s5 ?i)" "offsets s5 ?i = offsets ?s3 ?i"
        using E(4,5) [of ?i] S(5) same_node_trans by auto
      moreover have "offsets ?s3 ?i = empty_md" using tree_invD(4) [OF snoc.prems(4), of ?i] by (simp add: offsets_def)
      ultimately show ?thesis using True q(1) S(4) b(2) plain_dir_same by auto
    next
      case False
      then have "tree root s4 q = Some j" "tree root ?s3 q = None" using q S(4) N(8) by auto
      then show ?thesis using R(6) S(5) plain_dir_same by (metis prefix_append)
    qed
    moreover have "tree root s5 (ps @ [c]) = Some ?i" using S(4) by simp
    ultimately show ?thesis using S(2) by blast
  qed
qed

section \<open>Entries\<close>

abbreviation epath :: "fileMetadata \<Rightarrow> string list" where
  "epath e \<equiv> comps (fm_Name e)"

abbreviation is_dir :: "fileMetadata \<Rightarrow> bool" where
  "is_dir e \<equiv> fm_Type e = ''dir''"

abbreviation is_link :: "fileMetadata \<Rightarrow> bool" where
  "is_link e \<equiv> fm_Type e = ''hardlink''"

definition entry_attr :: "fileMetadata \<Rightarrow> int \<Rightarrow> attr" where
  "entry_attr e n = (attrFromZtocEntry e n)\<lparr>a_Xattrs := stored_xattrs (a_Xattrs (attrFromZtocEntry e n))\<rparr>"

definition entry_offsets :: "fileMetadata \<Rightarrow> mdEntry" where
  "entry_offsets e = \<lparr>md_children = [], md_UncompressedOffset = fm_UncompressedOffset e, md_TarName = fm_Name e,
     md_TarHeaderOffset = fm_TarHeaderOffset e,
     md_TarHeaderSize = wrap64 (fm_UncompressedOffset e - fm_TarHeaderOffset e)\<rparr>"

definition node_has :: "fileMetadata \<Rightarrow> node_bucket option \<Rightarrow> bool" where
  "node_has e x \<longleftrightarrow> (\<exists>b. x = Some b \<and> readNodeEntryToAttr (b\<lparr>nb_numLink := None\<rparr>) zero_attr = entry_attr e 0)"

lemma node_has_same: "node_has e x \<Longrightarrow> same_node x y \<Longrightarrow> node_has e y"
  unfolding node_has_def same_node_def by (cases y) auto

definition ent_ok :: "fileMetadata \<Rightarrow> bool" where
  "ent_ok e \<longleftrightarrow> epath e \<noteq> [] \<and> (\<forall>c \<in> set (epath e). length c \<le> 32768) \<and> length (fm_Name e) \<le> 2147483646 \<and>
     attr_ok (attrFromZtocEntry e 1)"

lemma FileMode_dir: "is_dir e \<Longrightarrow> FileMode e \<noteq> 0"
proof
  assume "is_dir e" "FileMode e = 0"
  then have "bit (or (tar_mode_bits (fm_Mode e)) ModeDir) 31 = bit (0 :: 32 word) 31" by (simp add: FileMode_def)
  then show False by (simp add: bit_or_iff ModeDir_def bit_push_bit_iff)
qed

lemma write_new_entry:
  assumes "ent_ok e"
  shows "\<exists>b. writeNodeEntry empty_node (attrFromZtocEntry e n) = Inr b \<and> node_has e (Some b)"
proof -
  have "attr_ok (attrFromZtocEntry e n)" using assms by (simp add: ent_ok_def attr_ok_def attrFromZtocEntry_def)
  from write_read_attr [OF this, of empty_node None] show ?thesis
    by (auto simp: node_has_def entry_attr_def attrFromZtocEntry_def empty_node_def)
qed

lemma write_dir_entry:
  assumes "ent_ok e" and "is_dir e" and "plain_dir (Some b)"
  shows "\<exists>b'. writeNodeEntry b (attrFromZtocEntry e n) = Inr b' \<and> node_has e (Some b')"
proof -
  have "attr_ok (attrFromZtocEntry e n)" using assms(1) by (simp add: ent_ok_def attr_ok_def attrFromZtocEntry_def)
  moreover have "b\<lparr>nb_numLink := None\<rparr> = empty_node\<lparr>nb_mode := Some (or ModeDir 493)\<rparr>"
    using assms(3) by (simp add: plain_dir_def same_node_def empty_node_def)
  moreover have "a_Mode (attrFromZtocEntry e n) \<noteq> 0" using FileMode_dir [OF assms(2)] by (simp add: attrFromZtocEntry_def)
  ultimately show ?thesis
    using write_read_attr [of "attrFromZtocEntry e n" b "Some (or ModeDir 493)"]
    by (auto simp: node_has_def entry_attr_def attrFromZtocEntry_def)
qed

section \<open>One entry\<close>

text \<open>An entry that the store represents: a hard link shares the node of its target.\<close>

definition good :: "nat \<Rightarrow> build \<Rightarrow> fileMetadata \<Rightarrow> bool" where
  "good root s e \<longleftrightarrow>
     (if is_link e then tree root s (epath e) \<noteq> None \<and> tree root s (comps (fm_Linkname e)) = tree root s (epath e)
      else \<exists>i. tree root s (epath e) = Some i \<and> node_has e (b_nodes s i) \<and> offsets s i = entry_offsets e)"

definition build_inv :: "nat \<Rightarrow> string list set \<Rightarrow> fileMetadata list \<Rightarrow> build \<Rightarrow> bool" where
  "build_inv root L dn s \<longleftrightarrow> tree_inv root L s \<and>
     (\<forall>e \<in> set dn. good root s e \<and> (epath e \<in> L \<longleftrightarrow> \<not> is_dir e)) \<and>
     (\<forall>p i. tree root s p = Some i \<longrightarrow> p \<notin> epath ` set dn \<longrightarrow>
        p \<notin> L \<and> plain_dir (b_nodes s i) \<and> offsets s i = empty_md)"

lemma build_invD:
  assumes "build_inv root L dn s"
  shows "tree_inv root L s" and "e \<in> set dn \<Longrightarrow> good root s e" and "e \<in> set dn \<Longrightarrow> epath e \<in> L \<longleftrightarrow> \<not> is_dir e"
    and "tree root s p = Some i \<Longrightarrow> p \<notin> epath ` set dn \<Longrightarrow> p \<notin> L"
    and "tree root s p = Some i \<Longrightarrow> p \<notin> epath ` set dn \<Longrightarrow> plain_dir (b_nodes s i)"
    and "tree root s p = Some i \<Longrightarrow> p \<notin> epath ` set dn \<Longrightarrow> offsets s i = empty_md"
  using assms unfolding build_inv_def by blast+

lemma good_keeps:
  assumes "good root s e" and "\<And>p i. tree root s p = Some i \<Longrightarrow> tree root s' p = Some i"
    and "\<And>i. tree root s (epath e) = Some i \<Longrightarrow> same_node (b_nodes s i) (b_nodes s' i) \<and> offsets s' i = offsets s i"
  shows "good root s' e"
proof (cases "is_link e")
  case True
  then obtain i where "tree root s (epath e) = Some i" "tree root s (comps (fm_Linkname e)) = Some i"
    using assms(1) by (auto simp: good_def)
  then have "tree root s' (epath e) = Some i" "tree root s' (comps (fm_Linkname e)) = Some i" using assms(2) by blast+
  then show ?thesis using True by (simp add: good_def)
next
  case False
  then obtain i where i: "tree root s (epath e) = Some i" "node_has e (b_nodes s i)" "offsets s i = entry_offsets e"
    using assms(1) by (auto simp: good_def)
  then have "node_has e (b_nodes s' i)" "offsets s' i = entry_offsets e" using assms(3) node_has_same by auto
  then show ?thesis using False assms(2) [OF i(1)] by (auto simp: good_def)
qed

text \<open>What remains to be shown when an entry is linked at a path that was free.\<close>

lemma build_inv_step:
  assumes "build_inv root L dn s" and "tree root s (epath e) = None" and "tree_inv root L s'" and "good root s' e"
    and "epath e \<in> L \<longleftrightarrow> \<not> is_dir e"
    and "\<And>p i. tree root s p = Some i \<Longrightarrow> tree root s' p = Some i"
    and "\<And>i. i \<le> b_cur s \<Longrightarrow> same_node (b_nodes s i) (b_nodes s' i) \<and> offsets s' i = offsets s i"
    and "\<And>p i. tree root s' p = Some i \<Longrightarrow> tree root s p = None \<Longrightarrow> p \<noteq> epath e \<Longrightarrow>
       p \<notin> L \<and> plain_dir (b_nodes s' i) \<and> offsets s' i = empty_md"
  shows "build_inv root L (e # dn) s'"
proof -
  note B = build_invD [OF assms(1)]
  have le: "i \<le> b_cur s" if "tree root s p = Some i" for p i using tree_invD(5) [OF B(1) that] by simp
  have "good root s' e'" if "e' \<in> set dn" for e'
    by (rule good_keeps [OF B(2) [OF that] assms(6)]) (use assms(7) le in auto)
  moreover have "p \<notin> L \<and> plain_dir (b_nodes s' i) \<and> offsets s' i = empty_md"
    if p: "tree root s' p = Some i" "p \<notin> epath ` set (e # dn)" for p i
  proof (cases "tree root s p")
    case None
    then show ?thesis using assms(8) [OF p(1) None] p(2) by simp
  next
    case (Some j)
    then have ij: "i = j" using assms(6) [OF Some] p(1) by simp
    have "p \<notin> epath ` set dn" using p(2) by simp
    then have "p \<notin> L" "plain_dir (b_nodes s j)" "offsets s j = empty_md" using B(4-6) [OF Some] by blast+
    then show ?thesis using assms(7) [OF le [OF Some]] ij plain_dir_same by auto
  qed
  ultimately show ?thesis using assms(3-5) B(3) unfolding build_inv_def by simp
qed

lemma set_offsets_tree [simp]:
  "kids (b_md (set_offsets e i s)) = kids (b_md s)" "b_nodes (set_offsets e i s) = b_nodes s"
  "b_cur (set_offsets e i s) = b_cur s"
  by (auto simp: set_offsets_def Let_def kids_def fun_eq_iff empty_md_def split: option.splits)

lemma set_offsets_offsets:
  "\<not> is_link e \<Longrightarrow> offsets (set_offsets e i s) i = entry_offsets e"
  "j \<noteq> i \<Longrightarrow> offsets (set_offsets e i s) j = offsets s j"
  by (auto simp: set_offsets_def Let_def offsets_def entry_offsets_def empty_md_def split: option.splits)

lemma set_offsets_inv:
  assumes "tree_inv root L s" and "i \<le> b_cur s" and "length (fm_Name e) \<le> 2147483646"
  shows "tree_inv root L (set_offsets e i s)"
proof -
  note I = tree_invD [OF assms(1)]
  have "b_md (set_offsets e i s) j = None" if "b_cur s < j" for j
    using I(4) [OF that] that assms(2) by (simp add: set_offsets_def Let_def)
  moreover have "md_ok m" if "b_md (set_offsets e i s) j = Some m" for j m
    using that I(8) assms(3)
    by (fastforce simp: set_offsets_def Let_def md_ok_def empty_md_def split: if_splits option.splits)
  ultimately show ?thesis using assms(1) unfolding tree_inv_def by simp
qed

lemma link_under_parent:
  assumes "tree_inv root L s" and "list_all ok_comp (pp @ [c])" and "\<forall>q. prefix q pp \<longrightarrow> q \<notin> L"
    and "\<forall>x \<in> set (pp @ [c]). length x \<le> 32768" and "b_cur s + length pp \<le> 4294967295"
    and "root \<le> i" and "i \<le> b_cur s" and "kids (b_md s) i = Map.empty"
    and "\<And>q. tree root s q = Some i \<Longrightarrow> q \<in> L \<and> pp @ [c] \<in> L" and "tree root s (pp @ [c]) = None"
  obtains pid s2 s3 where "getOrCreateDir root (dir_path pp) s = (Inr pid, s2)" and "setChild pid c i d s2 = (Inr (), s3)"
    and "tree_inv root L s3" and "b_cur s \<le> b_cur s3" and "b_cur s3 \<le> b_cur s + length pp"
    and "tree root s3 (pp @ [c]) = Some i"
    and "\<forall>p j. tree root s p = Some j \<longrightarrow> tree root s3 p = Some j"
    and "\<forall>j \<le> b_cur s. same_node (b_nodes s j) (b_nodes s3 j) \<and> offsets s3 j = offsets s j"
    and "\<forall>p j. tree root s3 p = Some j \<longrightarrow> tree root s p = None \<longrightarrow> p \<noteq> pp @ [c] \<longrightarrow>
       p \<notin> L \<and> plain_dir (b_nodes s3 j) \<and> offsets s3 j = empty_md"
proof -
  have ok: "list_all ok_comp pp" "\<forall>x \<in> set pp. length x \<le> 32768" using assms(2,4) by auto
  obtain pid s2 where G: "getOrCreateDir root (dir_path pp) s = (Inr pid, s2)" "tree_inv root L s2" "extends root s s2"
      "tree root s2 pp = Some pid" "b_cur s2 \<le> b_cur s + length pp"
      "\<forall>q j. tree root s2 q = Some j \<and> tree root s q = None \<longrightarrow>
         prefix q pp \<and> plain_dir (b_nodes s2 j) \<and> offsets s2 j = empty_md"
    using getOrCreateDir_ok [OF ok(1) assms(3) ok(2) assms(1,5)] by blast
  note E = extendsD [OF G(3)] and I = tree_invD [OF G(2)]
  have only: "tree root s2 q = Some i \<Longrightarrow> q \<in> L \<and> pp @ [c] \<in> L" for q
    using E(3) [of q i] assms(7,9) by blast
  have ppL: "pp \<notin> L" using assms(3) by simp
  have free: "tree root s2 (pp @ [c]) = None"
  proof (rule ccontr)
    assume "tree root s2 (pp @ [c]) \<noteq> None"
    then have "prefix (pp @ [c]) pp" using G(6) assms(10) by blast
    then show False using prefix_length_le by fastforce
  qed
  then have "kids (b_md s2) pid c = None" using G(4) by (simp add: walk_snoc)
  moreover have "kids (b_md s2) i = Map.empty"
  proof (cases "\<exists>q. tree root s q = Some i")
    case True
    then obtain q where "tree root s q = Some i" by blast
    then show ?thesis using I(7) [of q i] E(2) assms(9) by blast
  next
    case False
    then show ?thesis using E(6) [OF assms(7)] assms(8) by simp
  qed
  moreover have "bolt_Put c 4 = None" using assms(2,4) by (simp add: bolt_Put_def ok_comp_def)
  moreover have "i \<le> b_cur s2" using assms(7) E(1) by simp
  moreover have "i \<noteq> pid" using only [of pp] G(4) ppL by blast
  ultimately obtain s3 where S: "setChild pid c i d s2 = (Inr (), s3)" "tree_inv root L s3" "b_cur s3 = b_cur s2"
      "\<forall>q. tree root s3 q = (if q = pp @ [c] then Some i else tree root s2 q)"
      "\<forall>j. same_node (b_nodes s2 j) (b_nodes s3 j) \<and> offsets s3 j = offsets s2 j"
    using setChild_new [OF G(2,4) ppL _ assms(6), of c d] only by blast
  show ?thesis
  proof (rule that [OF G(1) S(1,2)])
    show "b_cur s \<le> b_cur s3" "b_cur s3 \<le> b_cur s + length pp" using E(1) G(5) S(3) by simp_all
    show "tree root s3 (pp @ [c]) = Some i" using S(4) by simp
    show "\<forall>p j. tree root s p = Some j \<longrightarrow> tree root s3 p = Some j"
    proof (intro allI impI)
      fix p j
      assume p: "tree root s p = Some j"
      then have "p \<noteq> pp @ [c]" using assms(10) by auto
      then show "tree root s3 p = Some j" using S(4) E(2) [OF p] by simp
    qed
    show "\<forall>j \<le> b_cur s. same_node (b_nodes s j) (b_nodes s3 j) \<and> offsets s3 j = offsets s j"
    proof (intro allI impI)
      fix j
      assume j: "j \<le> b_cur s"
      then show "same_node (b_nodes s j) (b_nodes s3 j) \<and> offsets s3 j = offsets s j"
        using same_node_trans [OF E(4) [OF j]] E(5) [OF j] S(5) by simp
    qed
    show "\<forall>p j. tree root s3 p = Some j \<longrightarrow> tree root s p = None \<longrightarrow> p \<noteq> pp @ [c] \<longrightarrow>
       p \<notin> L \<and> plain_dir (b_nodes s3 j) \<and> offsets s3 j = empty_md"
    proof (intro allI impI)
      fix p j
      assume p: "tree root s3 p = Some j" "tree root s p = None" "p \<noteq> pp @ [c]"
      then have "tree root s2 p = Some j" using S(4) by simp
      then have "prefix p pp" "plain_dir (b_nodes s2 j)" "offsets s2 j = empty_md" using G(6) p(2) by blast+
      then show "p \<notin> L \<and> plain_dir (b_nodes s3 j) \<and> offsets s3 j = empty_md"
        using assms(3) S(5) plain_dir_same [of "b_nodes s2 j" "b_nodes s3 j"] by simp
    qed
  qed
qed

text \<open>An entry that does not conflict with those before it, \<open>dn\<close>, nor with the files \<open>L\<close>.\<close>

definition fits :: "string list set \<Rightarrow> fileMetadata list \<Rightarrow> fileMetadata \<Rightarrow> bool" where
  "fits L dn e \<longleftrightarrow> ent_ok e \<and> epath e \<notin> epath ` set dn \<and> (epath e \<in> L \<longleftrightarrow> \<not> is_dir e) \<and>
     (\<forall>q. strict_prefix q (epath e) \<longrightarrow> q \<notin> L) \<and>
     (is_link e \<longrightarrow> (\<exists>e' \<in> set dn. \<not> is_dir e' \<and> epath e' = comps (fm_Linkname e)))"

lemma fits_path:
  assumes "fits L dn e"
  obtains pp c where "epath e = pp @ [c]" and "list_all ok_comp (pp @ [c])" and "\<forall>q. prefix q pp \<longrightarrow> q \<notin> L"
    and "\<forall>x \<in> set (pp @ [c]). length x \<le> 32768"
    and "parentDir (cleanEntryPath (fm_Name e)) = dir_path pp" and "filepath_Base (cleanEntryPath (fm_Name e)) = c"
proof -
  obtain pp c where p: "epath e = pp @ [c]" using assms by (cases "epath e" rule: rev_cases) (auto simp: fits_def ent_ok_def)
  have ok: "list_all ok_comp (pp @ [c])" using comps_ok [of "fm_Name e"] p by simp
  have "\<forall>q. prefix q pp \<longrightarrow> q \<notin> L"
  proof (intro allI impI)
    fix q
    assume "prefix q pp"
    then have "strict_prefix q (epath e)" unfolding p by (auto simp: prefix_def strict_prefix_def)
    then show "q \<notin> L" using assms by (simp add: fits_def)
  qed
  moreover have "\<forall>x \<in> set (pp @ [c]). length x \<le> 32768"
    using assms unfolding fits_def ent_ok_def p by blast
  moreover have "parentDir (cleanEntryPath (fm_Name e)) = dir_path pp" "filepath_Base (cleanEntryPath (fm_Name e)) = c"
    using Split_join [OF ok] Base_join [OF ok] p by (simp_all add: parentDir_def cleanEntryPath_comps)
  ultimately show ?thesis using that [OF p ok] by blast
qed

lemma new_node_ok:
  assumes "tree_inv root L s" and "b_cur s < 4294967295" and "ent_ok e"
  obtains i s1 where "new_node e s = (Inr i, s1)" and "b_cur s < i" and "b_cur s1 = i" and "i \<le> b_cur s + 1"
    and "tree_inv root L s1" and "\<forall>p. tree root s1 p = tree root s p" and "\<forall>p. tree root s1 p \<noteq> Some i"
    and "kids (b_md s1) i = Map.empty"
    and "\<forall>j \<le> b_cur s. b_nodes s1 j = b_nodes s j \<and> offsets s1 j = offsets s j" and "node_has e (b_nodes s1 i)"
proof -
  let ?n = "if is_dir e then 2 else 1 :: int" and ?i = "b_cur s + 1"
  obtain b where b: "writeNodeEntry empty_node (attrFromZtocEntry e ?n) = Inr b" "node_has e (Some b)"
    using write_new_entry [OF assms(3)] by blast
  note N = create_node [OF assms(1,2) b(1)]
  let ?s1 = "s\<lparr>b_cur := ?i, b_nodes := (b_nodes s)(?i \<mapsto> b)\<rparr>"
  show ?thesis
  proof (rule that [of ?i ?s1])
    show "new_node e s = (Inr ?i, ?s1)" using N(1-3) by (simp add: new_node_def)
    show "tree_inv root L ?s1" by (rule N(4))
    show "\<forall>p. tree root ?s1 p = tree root s p" "\<forall>p. tree root ?s1 p \<noteq> Some ?i" using N(6,8) by simp_all
    show "kids (b_md ?s1) ?i = Map.empty" by (rule N(7))
    show "node_has e (b_nodes ?s1 ?i)" using b(2) by simp
  qed (simp_all add: offsets_def)
qed

lemma add_new_entry:
  assumes "build_inv root L dn s" and "fits L dn e" and "b_cur s + length (epath e) \<le> 4294967295"
    and "\<not> is_link e" and "entry_node root e s = new_node e s" and "tree root s (epath e) = None"
  shows "\<exists>s'. add_entry root e s = (Inr (), s') \<and> build_inv root L (e # dn) s' \<and> b_cur s' \<le> b_cur s + length (epath e)"
proof -
  obtain pp c where P: "epath e = pp @ [c]" "list_all ok_comp (pp @ [c])" "\<forall>q. prefix q pp \<longrightarrow> q \<notin> L"
      "\<forall>x \<in> set (pp @ [c]). length x \<le> 32768"
      "parentDir (cleanEntryPath (fm_Name e)) = dir_path pp" "filepath_Base (cleanEntryPath (fm_Name e)) = c"
    using fits_path [OF assms(2)] .
  have ent: "ent_ok e" "epath e \<in> L \<longleftrightarrow> \<not> is_dir e" using assms(2) by (simp_all add: fits_def)
  note B = build_invD [OF assms(1)]
  have cur: "b_cur s < 4294967295" using assms(3) P(1) by simp
  obtain i s1 where N: "new_node e s = (Inr i, s1)" "b_cur s < i" "b_cur s1 = i" "i \<le> b_cur s + 1" "tree_inv root L s1"
      "\<forall>p. tree root s1 p = tree root s p" "\<forall>p. tree root s1 p \<noteq> Some i" "kids (b_md s1) i = Map.empty"
      "\<forall>j \<le> b_cur s. b_nodes s1 j = b_nodes s j \<and> offsets s1 j = offsets s j" "node_has e (b_nodes s1 i)"
    using new_node_ok [OF B(1) cur ent(1)] .
  have un: "tree root s1 q = Some i \<Longrightarrow> q \<in> L \<and> pp @ [c] \<in> L" for q using N(7) by simp
  have cond: "b_cur s1 + length pp \<le> 4294967295" "root \<le> i" "i \<le> b_cur s1" "tree root s1 (pp @ [c]) = None"
    using assms(3,6) P(1) tree_invD(2) [OF B(1)] N(2-4,6) by auto
  obtain pid s2 s3 where R: "getOrCreateDir root (dir_path pp) s1 = (Inr pid, s2)" "setChild pid c i (is_dir e) s2 = (Inr (), s3)"
      "tree_inv root L s3" "b_cur s1 \<le> b_cur s3" "b_cur s3 \<le> b_cur s1 + length pp" "tree root s3 (pp @ [c]) = Some i"
      "\<forall>p j. tree root s1 p = Some j \<longrightarrow> tree root s3 p = Some j"
      "\<forall>j \<le> b_cur s1. same_node (b_nodes s1 j) (b_nodes s3 j) \<and> offsets s3 j = offsets s1 j"
      "\<forall>p j. tree root s3 p = Some j \<longrightarrow> tree root s1 p = None \<longrightarrow> p \<noteq> pp @ [c] \<longrightarrow>
         p \<notin> L \<and> plain_dir (b_nodes s3 j) \<and> offsets s3 j = empty_md"
    using link_under_parent [OF N(5) P(2-4) cond(1-3) N(8) un cond(4), of "is_dir e"] .
  let ?s' = "set_offsets e i s3"
  have "add_entry root e s = (Inr (), ?s')" using assms(5) N(1) R(1,2) P(5,6) by (simp add: add_entry_def)
  moreover have "build_inv root L (e # dn) ?s'"
  proof (rule build_inv_step [OF assms(1,6) _ _ ent(2)])
    show "tree_inv root L ?s'" using set_offsets_inv [OF R(3)] R(4) N(3) ent(1) by (simp add: ent_ok_def)
    have "node_has e (b_nodes s3 i)" using N(3,10) R(8) node_has_same by auto
    then show "good root ?s' e" using assms(4) R(6) P(1) by (simp add: good_def set_offsets_offsets)
    show "tree root ?s' p = Some j" if "tree root s p = Some j" for p j using that R(7) N(6) by simp
    show "same_node (b_nodes s j) (b_nodes ?s' j) \<and> offsets ?s' j = offsets s j" if "j \<le> b_cur s" for j
    proof -
      have j: "b_nodes s1 j = b_nodes s j" "j \<le> b_cur s1" "j \<noteq> i" "offsets s1 j = offsets s j"
        using that N(2,3,9) by auto
      then have "same_node (b_nodes s j) (b_nodes s3 j)" "offsets s3 j = offsets s j" using R(8) by metis+
      then show ?thesis using set_offsets_offsets(2) [OF j(3)] by simp
    qed
    show "p \<notin> L \<and> plain_dir (b_nodes ?s' j) \<and> offsets ?s' j = empty_md"
      if p: "tree root ?s' p = Some j" "tree root s p = None" "p \<noteq> epath e" for p j
    proof -
      have p3: "tree root s3 p = Some j" "tree root s1 p = None" using p N(6) by simp_all
      have 1: "p \<notin> L \<and> plain_dir (b_nodes s3 j) \<and> offsets s3 j = empty_md"
        by (rule R(9) [rule_format, OF p3]) (use p(3) P(1) in simp)
      have "j \<noteq> i" using tree_invD(6) [OF R(3) p3(1), of "pp @ [c]"] R(6) p(3) P(1) 1 by auto
      then show ?thesis using 1 by (simp add: set_offsets_offsets)
    qed
  qed
  moreover have "b_cur ?s' \<le> b_cur s + length (epath e)" using R(5) P(1) N(3,4) by simp
  ultimately show ?thesis by blast
qed

lemma add_existing_dir:
  assumes "build_inv root L dn s" and "fits L dn e" and "is_dir e" and "tree root s (epath e) = Some i"
  shows "\<exists>s'. add_entry root e s = (Inr (), s') \<and> build_inv root L (e # dn) s' \<and> b_cur s' = b_cur s"
proof -
  obtain pp c where P: "epath e = pp @ [c]" "list_all ok_comp (pp @ [c])" "\<forall>q. prefix q pp \<longrightarrow> q \<notin> L"
      "\<forall>x \<in> set (pp @ [c]). length x \<le> 32768"
      "parentDir (cleanEntryPath (fm_Name e)) = dir_path pp" "filepath_Base (cleanEntryPath (fm_Name e)) = c"
    using fits_path [OF assms(2)] .
  have ent: "ent_ok e" "epath e \<notin> L" "epath e \<notin> epath ` set dn" using assms(2,3) by (auto simp: fits_def)
  note B = build_invD [OF assms(1)] and I = tree_invD [OF build_invD(1) [OF assms(1)]]
  obtain b where b: "b_nodes s i = Some b" using I(1) [of i] I(5) [OF assms(4)] by blast
  obtain b' where b': "writeNodeEntry b (attrFromZtocEntry e (readNumLink b)) = Inr b'" "node_has e (Some b')"
    using write_dir_entry [OF ent(1) assms(3)] B(5) [OF assms(4) ent(3)] b by auto
  let ?s1 = "s\<lparr>b_nodes := (b_nodes s)(i \<mapsto> b')\<rparr>"
  have "getIDByName (b_md s) (cleanEntryPath (fm_Name e)) root = Inr i"
    using getID_clean [of "b_md s" "fm_Name e" root] assms(4) by (simp add: found_Some)
  then have node: "entry_node root e s = (Inr i, ?s1)"
    using assms(3) b b'(1) by (simp add: entry_node_def getNodeBucketByID_def put_node_def)
  have I1: "tree_inv root L ?s1" using B(1) b unfolding tree_inv_def by auto
  obtain pid where pid: "tree root ?s1 pp = Some pid" "kids (b_md ?s1) pid c = Some i"
    using assms(4) P(1) by (auto simp: walk_snoc split: option.splits)
  have dir: "getOrCreateDir root (dir_path pp) ?s1 = (Inr pid, ?s1)"
    using getOrCreateDir_found [OF I1 _ pid(1)] P(2) by simp
  obtain s3 where S: "setChild pid c i True ?s1 = (Inr (), s3)" "tree_inv root L s3" "b_cur s3 = b_cur ?s1"
      "b_md s3 = b_md ?s1" "\<forall>j. same_node (b_nodes ?s1 j) (b_nodes s3 j)"
    using setChild_again [OF I1 pid, of True] by blast
  let ?s' = "set_offsets e i s3"
  have t: "tree root ?s' p = tree root s p" for p using S(4) by simp
  have add: "add_entry root e s = (Inr (), ?s')" using node dir S(1) P(5,6) assms(3) by (simp add: add_entry_def)
  have other: "same_node (b_nodes s j) (b_nodes ?s' j) \<and> offsets ?s' j = offsets s j" if "j \<noteq> i" for j
    using that S(4) S(5) [rule_format, of j] set_offsets_offsets(2) [OF that, of e s3] by (simp add: offsets_def)
  have uniq: "j \<noteq> i" if "tree root s p = Some j" "p \<noteq> epath e" for p j
    using I(6) [OF assms(4) _ ent(2), of p] that by auto
  have "tree_inv root L ?s'"
    using set_offsets_inv [OF S(2)] I(5) [OF assms(4)] S(3) ent(1) by (simp add: ent_ok_def)
  moreover have "good root ?s' e"
  proof -
    have "node_has e (b_nodes s3 i)" using b'(2) node_has_same S(5) [rule_format, of i] by simp
    then show ?thesis using assms(3,4) t by (simp add: good_def set_offsets_offsets)
  qed
  moreover have "good root ?s' e'" if "e' \<in> set dn" for e'
  proof (rule good_keeps [OF B(2) [OF that]])
    show "tree root ?s' p = Some j" if "tree root s p = Some j" for p j using that t by simp
    show "same_node (b_nodes s j) (b_nodes ?s' j) \<and> offsets ?s' j = offsets s j" if "tree root s (epath e') = Some j" for j
    proof (rule other)
      have "epath e' \<noteq> epath e" using ent(3) \<open>e' \<in> set dn\<close> by (metis imageI)
      then show "j \<noteq> i" using uniq [OF that] by simp
    qed
  qed
  moreover have "p \<notin> L \<and> plain_dir (b_nodes ?s' j) \<and> offsets ?s' j = empty_md"
    if p: "tree root ?s' p = Some j" "p \<notin> epath ` set (e # dn)" for p j
  proof -
    have ps: "tree root s p = Some j" using p(1) t by simp
    have pn: "p \<notin> epath ` set dn" "p \<noteq> epath e" using p(2) by auto
    show ?thesis
      using B(4-6) [OF ps pn(1)] other [OF uniq [OF ps pn(2)]] plain_dir_same by auto
  qed
  ultimately have "build_inv root L (e # dn) ?s'" using B(3) ent(2) assms(3) unfolding build_inv_def by simp
  then show ?thesis using add S(3) by auto
qed

lemma add_hard_link:
  assumes "build_inv root L dn s" and "fits L dn e" and "b_cur s + length (epath e) \<le> 4294967295" and "is_link e"
  shows "\<exists>s'. add_entry root e s = (Inr (), s') \<and> build_inv root L (e # dn) s' \<and> b_cur s' \<le> b_cur s + length (epath e)"
proof -
  obtain pp c where P: "epath e = pp @ [c]" "list_all ok_comp (pp @ [c])" "\<forall>q. prefix q pp \<longrightarrow> q \<notin> L"
      "\<forall>x \<in> set (pp @ [c]). length x \<le> 32768"
      "parentDir (cleanEntryPath (fm_Name e)) = dir_path pp" "filepath_Base (cleanEntryPath (fm_Name e)) = c"
    using fits_path [OF assms(2)] .
  have ent: "epath e \<in> L" "epath e \<notin> epath ` set dn" using assms(2,4) by (auto simp: fits_def)
  note B = build_invD [OF assms(1)] and I = tree_invD [OF build_invD(1) [OF assms(1)]]
  obtain e' where e': "e' \<in> set dn" "\<not> is_dir e'" "epath e' = comps (fm_Linkname e)"
    using assms(2,4) by (auto simp: fits_def)
  let ?q = "comps (fm_Linkname e)"
  have qL: "?q \<in> L" using B(3) [OF e'(1)] e'(2,3) by simp
  obtain i where i: "tree root s ?q = Some i" using B(2) [OF e'(1)] e'(3) by (auto simp: good_def split: if_splits)
  have free: "tree root s (epath e) = None"
    using B(4) [of "epath e"] ent by (cases "tree root s (epath e)") auto
  obtain b where b: "b_nodes s i = Some b" using I(1) [of i] I(5) [OF i] by blast
  let ?s1 = "s\<lparr>b_nodes := (b_nodes s)(i \<mapsto> b\<lparr>nb_numLink := Some (wrap64 (stored_numLink b + 1))\<rparr>)\<rparr>"
  have "getIDByName (b_md s) (cleanEntryPath (fm_Linkname e)) root = Inr i"
    using getID_clean [of "b_md s" "fm_Linkname e" root] i by (simp add: found_Some)
  then have node: "entry_node root e s = (Inr i, ?s1)" using assms(4) b by (simp add: entry_node_def add_link_def)
  have I1: "tree_inv root L ?s1" using B(1) b unfolding tree_inv_def by auto
  have s1: "tree root ?s1 p = tree root s p" "offsets ?s1 j = offsets s j" "same_node (b_nodes s j) (b_nodes ?s1 j)"
      "b_cur ?s1 = b_cur s" for p j
    using b by (auto simp: offsets_def same_node_def)
  have un: "tree root ?s1 q = Some i \<Longrightarrow> q \<in> L \<and> pp @ [c] \<in> L" for q
    using I(6) [of q i ?q] i qL ent(1) P(1) s1(1) by auto
  have cond: "b_cur ?s1 + length pp \<le> 4294967295" "root \<le> i" "i \<le> b_cur ?s1" "tree root ?s1 (pp @ [c]) = None"
      "kids (b_md ?s1) i = Map.empty"
    using assms(3) free P(1) I(5) [OF i] I(7) [OF i qL] by auto
  obtain pid s2 s3 where R: "getOrCreateDir root (dir_path pp) ?s1 = (Inr pid, s2)" "setChild pid c i (is_dir e) s2 = (Inr (), s3)"
      "tree_inv root L s3" "b_cur ?s1 \<le> b_cur s3" "b_cur s3 \<le> b_cur ?s1 + length pp" "tree root s3 (pp @ [c]) = Some i"
      "\<forall>p j. tree root ?s1 p = Some j \<longrightarrow> tree root s3 p = Some j"
      "\<forall>j \<le> b_cur ?s1. same_node (b_nodes ?s1 j) (b_nodes s3 j) \<and> offsets s3 j = offsets ?s1 j"
      "\<forall>p j. tree root s3 p = Some j \<longrightarrow> tree root ?s1 p = None \<longrightarrow> p \<noteq> pp @ [c] \<longrightarrow>
         p \<notin> L \<and> plain_dir (b_nodes s3 j) \<and> offsets s3 j = empty_md"
    using link_under_parent [OF I1 P(2-4) cond(1-3,5) un cond(4), of "is_dir e"] .
  have "add_entry root e s = (Inr (), s3)" using node R(1,2) P(5,6) assms(4) by (simp add: add_entry_def set_offsets_def)
  moreover have "build_inv root L (e # dn) s3"
  proof (rule build_inv_step [OF assms(1) free R(3)])
    have "tree root s3 ?q = Some i" using R(7) i s1(1) by simp
    then show "good root s3 e" using assms(4) R(6) P(1) by (simp add: good_def)
    show "epath e \<in> L \<longleftrightarrow> \<not> is_dir e" using ent(1) assms(4) by simp
    show "tree root s3 p = Some j" if "tree root s p = Some j" for p j using that R(7) s1(1) by simp
    show "same_node (b_nodes s j) (b_nodes s3 j) \<and> offsets s3 j = offsets s j" if "j \<le> b_cur s" for j
      using R(8) [rule_format, of j] that s1(2,4) same_node_trans [OF s1(3)] by simp
    show "p \<notin> L \<and> plain_dir (b_nodes s3 j) \<and> offsets s3 j = empty_md"
      if p: "tree root s3 p = Some j" "tree root s p = None" "p \<noteq> epath e" for p j
      by (rule R(9) [rule_format, OF p(1)]) (use p(2,3) P(1) s1(1) in simp_all)
  qed
  moreover have "b_cur s3 \<le> b_cur s + length (epath e)" using R(5) P(1) by simp
  ultimately show ?thesis by blast
qed

lemma add_entry_ok:
  assumes "build_inv root L dn s" and "fits L dn e" and "b_cur s + length (epath e) \<le> 4294967295"
  shows "\<exists>s'. add_entry root e s = (Inr (), s') \<and> build_inv root L (e # dn) s' \<and> b_cur s' \<le> b_cur s + length (epath e)"
proof -
  note B = build_invD [OF assms(1)]
  consider "is_link e" | "is_dir e" "tree root s (epath e) \<noteq> None" | "\<not> is_link e" "\<not> is_dir e"
    | "is_dir e" "tree root s (epath e) = None" by blast
  then show ?thesis
  proof cases
    case 1
    then show ?thesis using add_hard_link [OF assms] by blast
  next
    case 2
    then obtain i where "tree root s (epath e) = Some i" by blast
    then show ?thesis using add_existing_dir [OF assms(1,2) 2(1)] by fastforce
  next
    case 3
    then have "epath e \<in> L" "epath e \<notin> epath ` set dn" using assms(2) by (auto simp: fits_def)
    then have "tree root s (epath e) = None" using B(4) [of "epath e"] by (cases "tree root s (epath e)") auto
    then show ?thesis using add_new_entry [OF assms 3(1)] 3 by (simp add: entry_node_def)
  next
    case 4
    then obtain x where "getIDByName (b_md s) (cleanEntryPath (fm_Name e)) root = Inl x"
      using getID_clean [of "b_md s" "fm_Name e" root] by (auto simp: found_None)
    then show ?thesis using add_new_entry [OF assms _ _ 4(2)] 4(1) by (simp add: entry_node_def)
  qed
qed

end
