(* ===== verification/Metadata_Lookup.thy ===== *)
theory Metadata_Lookup
  imports Metadata_Tree
begin

text \<open>
  The metadata store as a whole: a table of contents is inserted in chunks, the offsets and
  children are written in a second pass, and the reader then finds every entry under its path.
  The last section shows what happens when bbolt runs a batched function again.
\<close>

section \<open>All entries of a table of contents\<close>

fun links_ok :: "fileMetadata list \<Rightarrow> fileMetadata list \<Rightarrow> bool" where
  "links_ok dn [] = True"
| "links_ok dn (e # es) \<longleftrightarrow>
     (is_link e \<longrightarrow> list_ex (\<lambda>e'. \<not> is_dir e' \<and> epath e' = comps (fm_Linkname e)) dn) \<and> links_ok (e # dn) es"

text \<open>
  A table of contents without conflicts: names are distinct, a file that is not a directory has
  nothing below it, and a hard link follows its target.
\<close>

definition toc_ok :: "tOC \<Rightarrow> bool" where
  "toc_ok toc \<longleftrightarrow> list_all ent_ok toc \<and> distinct (map epath toc) \<and>
     list_all (\<lambda>e. is_dir e \<or> list_all (\<lambda>f. \<not> strict_prefix (epath e) (epath f)) toc) toc \<and>
     links_ok [] toc \<and> sum_list (map (\<lambda>e. length (epath e)) toc) < 4294967295"

definition leaves :: "tOC \<Rightarrow> string list set" where
  "leaves toc = epath ` {e \<in> set toc. \<not> is_dir e}"

lemma inj_epath: "distinct (map epath toc) \<Longrightarrow> e \<in> set toc \<Longrightarrow> f \<in> set toc \<Longrightarrow> epath e = epath f \<Longrightarrow> e = f"
  by (auto simp: distinct_map inj_on_def)

lemma links_ok_rest: "links_ok [] (rev dn @ xs) \<Longrightarrow> links_ok dn xs"
proof (induction dn arbitrary: xs)
  case (Cons e dn)
  then show ?case using Cons.IH [of "e # xs"] by simp
qed simp

lemma toc_fits:
  assumes "toc_ok toc" and "toc = rev dn @ e # es"
  shows "fits (leaves toc) dn e"
proof -
  have d: "distinct (map epath toc)" using assms(1) by (simp add: toc_ok_def)
  have e: "e \<in> set toc" using assms(2) by simp
  have "links_ok dn (e # es)"
    using links_ok_rest assms unfolding toc_ok_def by blast
  then have "is_link e \<longrightarrow> (\<exists>e' \<in> set dn. \<not> is_dir e' \<and> epath e' = comps (fm_Linkname e))"
    by (auto simp: list_ex_iff)
  moreover have "ent_ok e" using assms(1) e by (simp add: toc_ok_def list_all_iff)
  moreover have "epath e \<notin> epath ` set dn" using d assms(2) by simp
  moreover have "epath e \<in> leaves toc \<longleftrightarrow> \<not> is_dir e"
    using inj_epath [OF d e] e by (auto simp: leaves_def)
  moreover have "q \<notin> leaves toc" if "strict_prefix q (epath e)" for q
    using assms(1) e that by (auto simp: leaves_def toc_ok_def list_all_iff)
  ultimately show ?thesis by (simp add: fits_def)
qed

lemma add_entries_ok:
  assumes "toc_ok toc" and "toc = rev dn @ es @ rest" and "build_inv root (leaves toc) dn s"
    and "b_cur s + sum_list (map (\<lambda>e. length (epath e)) es) \<le> 4294967295"
  shows "\<exists>s'. add_entries root es s = (Inr (), s') \<and> build_inv root (leaves toc) (rev es @ dn) s' \<and>
    b_cur s' \<le> b_cur s + sum_list (map (\<lambda>e. length (epath e)) es)"
  using assms(2-4)
proof (induction es arbitrary: dn s)
  case (Cons e es)
  have "b_cur s + length (epath e) \<le> 4294967295" using Cons.prems(3) by simp
  then obtain s1 where s1: "add_entry root e s = (Inr (), s1)" "build_inv root (leaves toc) (e # dn) s1"
      "b_cur s1 \<le> b_cur s + length (epath e)"
    using add_entry_ok [OF Cons.prems(2) toc_fits [OF assms(1), of dn e "es @ rest"]] Cons.prems(1) by auto
  have "\<exists>s'. add_entries root es s1 = (Inr (), s') \<and> build_inv root (leaves toc) (rev es @ e # dn) s' \<and>
      b_cur s' \<le> b_cur s1 + sum_list (map (\<lambda>e. length (epath e)) es)"
    by (rule Cons.IH [OF _ s1(2)]) (use Cons.prems(1,3) s1(3) in simp_all)
  then show ?case using s1(1,3) by auto
qed simp

lemma empty_build_inv:
  assumes "\<forall>p \<in> L. p \<noteq> []" and "root \<le> 4294967295"
  shows "build_inv root L [] \<lparr>b_nodes = b_nodes (root_build root), b_md = Map.empty, b_cur = root\<rparr>"
proof -
  let ?s = "\<lparr>b_nodes = b_nodes (root_build root), b_md = Map.empty, b_cur = root\<rparr>"
  have t: "tree root ?s p = (if p = [] then Some root else None)" for p
    by (cases p) (simp_all add: kids_def)
  have "plain_dir (b_nodes ?s root)"
    using write_dir_attr by (auto simp: root_build_def)
  moreover have "tree_inv root L ?s"
    using assms t by (auto simp: tree_inv_def root_build_def split: if_splits)
  ultimately show ?thesis using assms(1) t by (auto simp: build_inv_def offsets_def split: if_splits)
qed

section \<open>Chunks\<close>

lemma partition_loop_concat: "concat (partition_loop n xs k) = xs"
  by (induction n arbitrary: xs) simp_all

lemma partition_concat: "0 < n \<Longrightarrow> concat (partition xs n) = xs"
  by (simp add: partition_def partition_loop_concat)

lemma add_entries_append:
  "add_entries root (xs @ ys) s =
     (case add_entries root xs s of (Inl e, s1) \<Rightarrow> (Inl e, s1) | (Inr u, s1) \<Rightarrow> add_entries root ys s1)"
  by (induction xs arbitrary: s) (auto split: prod.splits sum.splits)

text \<open>Without roll backs the chunks have the effect of one loop.\<close>

lemma add_chunks_concat:
  "add_entries root (concat cs) s = (Inr (), s') \<Longrightarrow> add_chunks root cs [] s = (Inr (), s')"
proof (induction cs arbitrary: s)
  case (Cons c cs)
  then show ?case by (auto simp: add_entries_append split: prod.splits sum.splits)
qed simp

lemma write_metadata_append:
  "write_metadata (xs @ ys) meta = bind_res (write_metadata xs meta) (write_metadata ys)"
proof (induction xs arbitrary: meta)
  case (Cons x xs)
  obtain i m where x: "x = (i, m)" by (cases x)
  show ?case
    by (cases "writeMetadataEntry empty_meta m") (simp_all add: x Cons.IH del: fun_upd_apply)
qed simp

lemma write_chunks_concat: "write_chunks cs meta = write_metadata (concat cs) meta"
proof (induction cs arbitrary: meta)
  case (Cons c cs)
  then show ?case by (cases "write_metadata c meta") (simp_all add: write_metadata_append)
qed simp

section \<open>The second pass\<close>

definition written :: "mdEntry \<Rightarrow> meta_bucket" where
  "written m = projr (writeMetadataEntry empty_meta m)"

lemma written_ok:
  assumes "md_ok m"
  shows "writeMetadataEntry empty_meta m = Inr (written m)" and "getMetadataEntry (written m) = m\<lparr>md_children := []\<rparr>"
    and "base \<noteq> '''' \<Longrightarrow> readChild (written m) base =
       (case map_of (md_children m) base of None \<Rightarrow> Inl ChildrenNotFound | Some i \<Rightarrow> Inr i)"
  using write_read_md [OF assms] by (auto simp: written_def)

lemma write_metadata_ok:
  assumes "distinct (map fst ms)" and "\<forall>(i, m) \<in> set ms. md_ok m \<and> meta i = None"
  shows "write_metadata ms meta = Inr (\<lambda>i. case map_of ms i of None \<Rightarrow> meta i | Some m \<Rightarrow> Some (written m))"
  using assms
proof (induction ms arbitrary: meta)
  case (Cons im ms)
  obtain i m where im: "im = (i, m)" by (cases im)
  have "write_metadata ms (meta(i \<mapsto> written m)) =
      Inr (\<lambda>j. case map_of ms j of None \<Rightarrow> (meta(i \<mapsto> written m)) j | Some m \<Rightarrow> Some (written m))"
  proof (rule Cons.IH)
    have "i \<notin> fst ` set ms" using Cons.prems(1) im by simp
    then show "\<forall>(j, m') \<in> set ms. md_ok m' \<and> (meta(i \<mapsto> written m)) j = None"
      using Cons.prems(2) by (auto simp: image_iff) force+
  qed (use Cons.prems in simp)
  moreover have "map_of ms i = None" using Cons.prems(1) im by (simp add: map_of_eq_None_iff)
  ultimately show ?case
    using Cons.prems(2) im written_ok(1) [of m] by (auto simp: fun_eq_iff split: option.splits)
qed simp

lemma map_of_addendum:
  assumes "\<forall>i. b_cur s < i \<longrightarrow> b_md s i = None"
  shows "distinct (map fst (addendum s))" and "map_of (addendum s) = b_md s"
    and "(i, m) \<in> set (addendum s) \<Longrightarrow> b_md s i = Some m"
proof -
  let ?f = "\<lambda>i. case b_md s i of None \<Rightarrow> [] | Some m \<Rightarrow> [(i, m)]"
  have fst: "map fst (concat (map ?f is)) = filter (\<lambda>i. b_md s i \<noteq> None) is" for "is"
    by (induction "is") (auto split: option.splits)
  have "map_of (concat (map ?f is)) i = (if i \<in> set is then b_md s i else None)" for "is" i
    by (induction "is") (auto split: option.splits)
  then show "map_of (addendum s) = b_md s"
    using assms by (auto simp: addendum_def fun_eq_iff less_Suc_eq_le not_le simp del: upt_Suc)
  show d: "distinct (map fst (addendum s))" by (simp add: addendum_def fst del: upt_Suc)
  show "(i, m) \<in> set (addendum s) \<Longrightarrow> b_md s i = Some m"
    by (auto simp: addendum_def split: option.splits)
qed

section \<open>Looking up an entry\<close>

text \<open>The kernel resolves a path by asking for one component after the other.\<close>

fun lookup_path :: "md_reader \<Rightarrow> bolt_db \<Rightarrow> nat \<Rightarrow> string list \<Rightarrow> md_error + nat" where
  "lookup_path r db i [] = Inr i"
| "lookup_path r db i (c # cs) = bind_res (GetChild r db i c) (\<lambda>(j, a). lookup_path r db j cs)"

text \<open>
  What a reader has to answer for an entry: its path leads to a node with its attributes and, if
  it is a regular file, its place in the layer. A hard link leads to the node of its target.
\<close>

definition serves_entry :: "md_reader \<Rightarrow> bolt_db \<Rightarrow> fileMetadata \<Rightarrow> bool" where
  "serves_entry r db e \<longleftrightarrow> (\<exists>i.
     lookup_path r db (r_rootID r) (epath e) = Inr i \<and>
     (if is_link e then lookup_path r db (r_rootID r) (comps (fm_Linkname e)) = Inr i
      else (\<exists>n. GetAttr r db i = Inr (entry_attr e n)) \<and>
           OpenFile r db i =
             (if IsRegular (FileMode e)
              then Inr \<lparr>f_tarName = fm_Name e, f_uncompressedOffset = fm_UncompressedOffset e,
                        f_uncompressedSize = fm_UncompressedSize e, f_tarHeaderOffset = fm_TarHeaderOffset e,
                        f_tarHeaderSize = wrap64 (fm_UncompressedOffset e - fm_TarHeaderOffset e)\<rparr>
              else Inl (NotRegular i))))"

definition stored :: "build \<Rightarrow> fs_db" where
  "stored s = \<lparr>fs_nodes = b_nodes s, fs_metadata = (\<lambda>i. map_option written (b_md s i))\<rparr>"

lemma GetChild_stored:
  assumes "tree_inv root L s" and "get_fs db (r_fsID r) = Inr (stored s)" and "kids (b_md s) i c = Some j"
    and "c \<noteq> ''''" and "b_nodes s j \<noteq> None"
  shows "\<exists>a. GetChild r db i c = Inr (j, a)"
proof -
  obtain m where m: "b_md s i = Some m" "map_of (md_children m) c = Some j"
    using assms(3) by (auto simp: kids_def split: option.splits)
  have "md_ok m" using tree_invD(8) [OF assms(1)] m(1) by blast
  then show ?thesis
    using assms(2,4,5) m written_ok(3) [of m c]
    by (auto simp: GetChild_def getMetadataBucket_def getNodesBucket_def getMetadataBucketByID_def node_by_id_def
        stored_def split: option.splits)
qed

lemma lookup_path_stored:
  assumes "tree_inv root L s" and "get_fs db (r_fsID r) = Inr (stored s)" and "list_all ok_comp q"
    and "tree root s p = Some i" and "tree root s (p @ q) = Some j"
  shows "lookup_path r db i q = Inr j"
  using assms(3-5)
proof (induction q arbitrary: p i)
  case (Cons c q)
  obtain k where k: "tree root s (p @ [c]) = Some k" "kids (b_md s) i c = Some k"
    using Cons.prems by (auto simp: walk_append split: option.splits)
  have "b_nodes s k \<noteq> None" using tree_invD(1,5) [OF assms(1)] k(1) by blast
  moreover have "c \<noteq> ''''" using Cons.prems(1) by (simp add: ok_comp_def)
  ultimately obtain a where "GetChild r db i c = Inr (k, a)"
    using GetChild_stored [OF assms(1,2) k(2)] by blast
  then show ?case using Cons.IH [OF _ k(1)] Cons.prems by simp
qed simp

lemma GetAttr_stored:
  assumes "get_fs db (r_fsID r) = Inr (stored s)" and "node_has e (b_nodes s i)"
  shows "\<exists>n. GetAttr r db i = Inr (entry_attr e n)"
proof -
  obtain b where b: "b_nodes s i = Some b" "readNodeEntryToAttr (b\<lparr>nb_numLink := None\<rparr>) zero_attr = entry_attr e 0"
    using assms(2) by (auto simp: node_has_def)
  have "\<exists>n. readNodeEntryToAttr b zero_attr = (readNodeEntryToAttr (b\<lparr>nb_numLink := None\<rparr>) zero_attr)\<lparr>a_NumLink := n\<rparr>"
    by (cases b) (simp add: readNodeEntryToAttr_def read_xattrs_def zero_attr_def split: option.split)
  then have "\<exists>n. readNodeEntryToAttr b zero_attr = entry_attr e n"
    using b(2) by (auto simp: entry_attr_def attrFromZtocEntry_def)
  then show ?thesis using assms(1) b(1) by (simp add: GetAttr_def getNodesBucket_def node_by_id_def stored_def)
qed

lemma OpenFile_stored:
  assumes "tree_inv root L s" and "get_fs db (r_fsID r) = Inr (stored s)" and "node_has e (b_nodes s i)"
    and "offsets s i = entry_offsets e"
  shows "OpenFile r db i =
     (if IsRegular (FileMode e)
      then Inr \<lparr>f_tarName = fm_Name e, f_uncompressedOffset = fm_UncompressedOffset e,
                f_uncompressedSize = fm_UncompressedSize e, f_tarHeaderOffset = fm_TarHeaderOffset e,
                f_tarHeaderSize = wrap64 (fm_UncompressedOffset e - fm_TarHeaderOffset e)\<rparr>
      else Inl (NotRegular i))"
proof -
  obtain b where b: "b_nodes s i = Some b" "readNodeEntryToAttr (b\<lparr>nb_numLink := None\<rparr>) zero_attr = entry_attr e 0"
    using assms(3) by (auto simp: node_has_def)
  have "a_Mode (readNodeEntryToAttr (b\<lparr>nb_numLink := None\<rparr>) zero_attr) = FileMode e"
      "a_Size (readNodeEntryToAttr (b\<lparr>nb_numLink := None\<rparr>) zero_attr) = fm_UncompressedSize e"
    by (simp_all add: b(2) entry_attr_def attrFromZtocEntry_def)
  then have ms: "stored_mode b = FileMode e" "(case nb_size b of None \<Rightarrow> 0 | Some n \<Rightarrow> n) = fm_UncompressedSize e"
    by (simp_all add: readNodeEntryToAttr_def stored_mode_def zero_attr_def split: option.splits)
  have "(case getMetadataBucketByID (fs_metadata (stored s)) i of Inl e \<Rightarrow> empty_md | Inr md \<Rightarrow> getMetadataEntry md) =
      entry_offsets e"
    using assms(4) written_ok(2) tree_invD(8) [OF assms(1)]
    by (auto simp: getMetadataBucketByID_def stored_def offsets_def split: option.splits)
  then show ?thesis
    using assms(2) b(1) ms
    by (simp add: OpenFile_def getNodesBucket_def getMetadataBucket_def node_by_id_def Let_def entry_offsets_def stored_def)
qed

lemma build_serves:
  assumes "build_inv root L dn s" and "get_fs db (r_fsID r) = Inr (stored s)" and "r_rootID r = root" and "e \<in> set dn"
  shows "serves_entry r db e"
proof -
  note T = build_invD(1) [OF assms(1)] and g = build_invD(2) [OF assms(1,4)]
  have path: "lookup_path r db root (comps p) = Inr j" if "tree root s (comps p) = Some j" for p j
    using lookup_path_stored [OF T assms(2) comps_ok [of p], of "[]" root j] that by simp
  show ?thesis
  proof (cases "is_link e")
    case True
    then obtain i where "tree root s (epath e) = Some i" "tree root s (comps (fm_Linkname e)) = Some i"
      using g by (auto simp: good_def)
    then show ?thesis using path True assms(3) by (auto simp: serves_entry_def)
  next
    case False
    then obtain i where i: "tree root s (epath e) = Some i" "node_has e (b_nodes s i)" "offsets s i = entry_offsets e"
      using g by (auto simp: good_def)
    show ?thesis
      using path [OF i(1)] GetAttr_stored [OF assms(2) i(2)] OpenFile_stored [OF T assms(2) i(2,3)] False assms(3)
      unfolding serves_entry_def by (intro exI [of _ i]) simp
  qed
qed

lemma leaves_ne: "toc_ok toc \<Longrightarrow> \<forall>p \<in> leaves toc. p \<noteq> []"
  by (auto simp: leaves_def toc_ok_def ent_ok_def list_all_iff)

lemma first_entries_ok:
  assumes "toc_ok toc" and "toc = es @ rest"
    and "s0 = \<lparr>b_nodes = b_nodes (root_build 1), b_md = Map.empty, b_cur = 1\<rparr>"
  obtains s where "add_entries 1 es s0 = (Inr (), s)" and "build_inv 1 (leaves toc) (rev es) s"
    and "b_cur s \<le> 1 + sum_list (map (\<lambda>e. length (epath e)) es)"
proof -
  have "build_inv 1 (leaves toc) [] s0" using empty_build_inv [OF leaves_ne [OF assms(1)]] assms(3) by simp
  moreover have "b_cur s0 + sum_list (map (\<lambda>e. length (epath e)) es) \<le> 4294967295"
    using assms by (simp add: toc_ok_def)
  ultimately show ?thesis
    using add_entries_ok [OF assms(1), of "[]" es rest 1 s0] assms(2,3) that by auto
qed

lemma initNodes_ok:
  assumes "toc_ok toc" and "0 < n"
    and "db1 = Some fss" and "fss fsID = Some \<lparr>fs_nodes = b_nodes (root_build 1), fs_metadata = Map.empty\<rparr>"
  shows "\<exists>s. initNodes [] fsID 1 toc n db1 = Inr (Some (fss(fsID \<mapsto> stored s)), b_cur s) \<and>
    build_inv 1 (leaves toc) (rev toc) s \<and> b_cur s \<le> 1 + sum_list (map (\<lambda>e. length (epath e)) toc)"
proof -
  let ?s0 = "\<lparr>b_nodes = b_nodes (root_build 1), b_md = Map.empty, b_cur = 1\<rparr>"
  obtain s where s: "add_entries 1 toc ?s0 = (Inr (), s)" "build_inv 1 (leaves toc) (rev toc) s"
      "b_cur s \<le> 1 + sum_list (map (\<lambda>e. length (epath e)) toc)"
    by (rule first_entries_ok [OF assms(1), of toc "[]" ?s0]) simp_all
  have "add_chunks 1 (partition toc n) [] ?s0 = (Inr (), s)"
    by (rule add_chunks_concat) (simp only: partition_concat [OF assms(2)] s(1))
  moreover have "write_chunks (partition (addendum s) n) Map.empty = Inr (fs_metadata (stored s))"
  proof -
    note T = tree_invD [OF build_invD(1) [OF s(2)]]
    have A: "\<forall>i. b_cur s < i \<longrightarrow> b_md s i = None" using T(4) by blast
    have "write_metadata (addendum s) Map.empty =
        Inr (\<lambda>i. case map_of (addendum s) i of None \<Rightarrow> None | Some m \<Rightarrow> Some (written m))"
      by (rule write_metadata_ok [OF map_of_addendum(1) [OF A]]) (use map_of_addendum(3) [OF A] T(8) in auto)
    then show ?thesis
      by (simp add: write_chunks_concat partition_concat [OF assms(2)] map_of_addendum(2) [OF A] stored_def
          option.case_eq_if map_option_case)
  qed
  ultimately show ?thesis using s(2,3) assms(3,4) by (auto simp: initNodes_def stored_def)
qed

lemma init_root_fresh:
  assumes "\<forall>fss. db = Some fss \<longrightarrow> fss i = None"
  shows "init_root (Suc n) 0 (i # ids) 0 db =
    Inr (i, 1, Some ((case db of None \<Rightarrow> Map.empty | Some m \<Rightarrow> m)
      (i \<mapsto> \<lparr>fs_nodes = b_nodes (root_build 1), fs_metadata = Map.empty\<rparr>)))"
  using assms by (auto simp: initRootNode_def split: option.splits)

lemma md_init_build:
  assumes "toc_ok toc" and "\<forall>fss. db = Some fss \<longrightarrow> fss i = None"
  obtains r db' s where "md_init 0 [] (i # ids) toc chunk db = Inr (r, db')" and "get_fs db' (r_fsID r) = Inr (stored s)"
    and "build_inv (r_rootID r) (leaves toc) (rev toc) s" and "b_cur s \<le> 1 + sum_list (map (\<lambda>e. length (epath e)) toc)"
proof -
  let ?n = "if chunk \<le> 0 then defaultInsertionChunkSize else chunk"
  let ?fss = "(case db of None \<Rightarrow> Map.empty | Some m \<Rightarrow> m)(i \<mapsto> \<lparr>fs_nodes = b_nodes (root_build 1), fs_metadata = Map.empty\<rparr>)"
  have n: "0 < ?n" by (simp add: defaultInsertionChunkSize_def)
  have R: "init_root 100 0 (i # ids) 0 db = Inr (i, 1, Some ?fss)"
    using init_root_fresh [OF assms(2), of 99] by simp
  obtain s where s: "initNodes [] i 1 toc ?n (Some ?fss) = Inr (Some (?fss(i \<mapsto> stored s)), b_cur s)"
      "build_inv 1 (leaves toc) (rev toc) s" "b_cur s \<le> 1 + sum_list (map (\<lambda>e. length (epath e)) toc)"
    using initNodes_ok [OF assms(1) n refl, of ?fss i] by auto
  let ?r = "\<lparr>r_fsID = i, r_rootID = 1, r_curID = b_cur s\<rparr>"
  have "md_init 0 [] (i # ids) toc chunk db = Inr (?r, Some (?fss(i \<mapsto> stored s)))"
    unfolding md_init_def R using s(1) by simp
  then show ?thesis by (rule that) (use s(2,3) in \<open>simp_all add: get_fs_def\<close>)
qed

lemma md_init_serves:
  assumes "toc_ok toc" and "\<forall>fss. db = Some fss \<longrightarrow> fss i = None"
  shows "\<exists>r db'. md_init 0 [] (i # ids) toc chunk db = Inr (r, db') \<and> list_all (serves_entry r db') toc"
proof -
  obtain r db' s where "md_init 0 [] (i # ids) toc chunk db = Inr (r, db')" and "get_fs db' (r_fsID r) = Inr (stored s)"
      and "build_inv (r_rootID r) (leaves toc) (rev toc) s" and "b_cur s \<le> 1 + sum_list (map (\<lambda>e. length (epath e)) toc)"
    using md_init_build [OF assms] .
  then show ?thesis using build_serves [of "r_rootID r" "leaves toc" "rev toc" s db' r] by (auto simp: list_all_iff)
qed

text \<open>
  C3: a table of contents without conflicting names is stored, however large its chunks are, as a
  tree in which every entry is found under its path, component by component, with the attributes,
  offset and size that the table gives it; a hard link leads to the node of its target, and only
  regular files can be opened. Directories that the table only implies are created.
\<close>

theorem metadata_serves_toc:
  assumes "toc_ok toc" and "\<forall>fss. db = Some fss \<longrightarrow> fss i = None"
  shows "\<exists>r db'. md_init 0 [] (i # ids) toc chunk db = Inr (r, db') \<and> list_all (serves_entry r db') toc"
  by (rule md_init_serves [OF assms])

definition sample_entry :: "string \<Rightarrow> string \<Rightarrow> string \<Rightarrow> int \<Rightarrow> fileMetadata" where
  "sample_entry name typ target off =
     \<lparr>fm_Name = name, fm_Type = typ, fm_UncompressedOffset = off, fm_UncompressedSize = 3, fm_TarHeaderOffset = off - 512,
      fm_Linkname = target, fm_Mode = 420, fm_UID = 0, fm_GID = 0, fm_Uname = '''', fm_Gname = '''', fm_ModTime = 7,
      fm_Devmajor = 0, fm_Devminor = 0, fm_PAXHeaders = []\<rparr>"

text \<open>A file whose parent is implied, the parent itself, and a hard link to the file.\<close>

definition sample_toc :: tOC where
  "sample_toc = [sample_entry ''a/b'' ''reg'' '''' 512, sample_entry ''a/'' ''dir'' '''' 1536,
     sample_entry ''./c'' ''hardlink'' ''a/b'' 2048]"

lemma sample_toc_ok: "toc_ok sample_toc"
  by (simp add: toc_ok_def sample_toc_def sample_entry_def ent_ok_def comps_def clean_step_def attr_ok_def attrFromZtocEntry_def
      xattrs_ok_def Xattrs_def strict_prefix_def)

theorem metadata_serves_toc_witness:
  "\<exists>r db'. md_init 0 [] [''fs1''] sample_toc 2 None = Inr (r, db') \<and>
     serves_entry r db' (sample_entry ''a/b'' ''reg'' '''' 512) \<and> serves_entry r db' (sample_entry ''a/'' ''dir'' '''' 1536) \<and>
     serves_entry r db' (sample_entry ''./c'' ''hardlink'' ''a/b'' 2048)"
  using metadata_serves_toc [OF sample_toc_ok, of None "''fs1''" "[]" 2] by (simp add: sample_toc_def)

section \<open>A transaction that runs again\<close>

text \<open>
  bbolt may call a batched function again after a roll back. The buckets are then as before, but
  the map \<^verbatim>\<open>md\<close>, which lives outside the database, still has what the first run added.
\<close>

lemma first_entry_path:
  assumes "build_inv root L dn s" and "[] \<notin> L" and "e \<in> set dn" and "is_dir e" and "epath e \<noteq> []"
  obtains j where "getIDByName (b_md s) (cleanEntryPath (fm_Name e)) root = Inr j" and "j \<noteq> root"
proof -
  obtain j where j: "tree root s (epath e) = Some j"
    using build_invD(2) [OF assms(1,3)] assms(4) by (auto simp: good_def)
  have "j \<noteq> root" using tree_invD(6) [OF build_invD(1) [OF assms(1)], of "[]" root "epath e"] assms(2,5) j by auto
  moreover have "getIDByName (b_md s) (cleanEntryPath (fm_Name e)) root = Inr j"
    using getID_clean [of "b_md s" "fm_Name e" root] j by (simp add: found_Some)
  ultimately show ?thesis using that by blast
qed

lemma partition_first:
  assumes "0 < n"
  obtains es' rest cs where "partition (e # es) n = (e # es') # cs" and "es = es' @ rest"
proof -
  have n: "0 < nat n" using assms by simp
  then obtain k where k: "nat n = Suc k" by (cases "nat n") auto
  have "\<exists>es' rest cs. partition (e # es) n = (e # es') # cs \<and> es = es' @ rest"
    using assms k by (auto simp: partition_def) (metis append_take_drop_id)
  then show ?thesis using that by blast
qed

text \<open>
  C34: when the transaction of the first chunk is rolled back once and run again, as bbolt is free
  to do, a table of contents that starts with a directory cannot be loaded: the second run finds
  the ID of the directory in \<^verbatim>\<open>md\<close> and fails because its bucket is gone.
\<close>

theorem rerun_transaction_fails:
  assumes "toc_ok (e # es)" and "is_dir e" and "\<forall>fss. db = Some fss \<longrightarrow> fss i = None"
  shows "\<exists>j. md_init 0 (1 # retries) (i # ids) (e # es) chunk db = Inl (NodeBucketNotFound j)"
proof -
  let ?n = "if chunk \<le> 0 then defaultInsertionChunkSize else chunk"
  let ?fss = "(case db of None \<Rightarrow> Map.empty | Some m \<Rightarrow> m)(i \<mapsto> \<lparr>fs_nodes = b_nodes (root_build 1), fs_metadata = Map.empty\<rparr>)"
  let ?L = "leaves (e # es)"
  define s0 where "s0 = \<lparr>b_nodes = b_nodes (root_build 1), b_md = Map.empty, b_cur = 1\<rparr>"
  have n: "0 < ?n" by (simp add: defaultInsertionChunkSize_def)
  have R: "init_root 100 0 (i # ids) 0 db = Inr (i, 1, Some ?fss)"
    using init_root_fresh [OF assms(3), of 99] by simp
  obtain es' rest cs where C: "partition (e # es) ?n = (e # es') # cs" "es = es' @ rest"
    by (rule partition_first [OF n, of e es])
  obtain s where s: "add_entries 1 (e # es') s0 = (Inr (), s)" "build_inv 1 ?L (rev (e # es')) s"
    by (rule first_entries_ok [OF assms(1), of "e # es'" rest s0]) (simp_all add: C(2) s0_def)
  have ne: "[] \<notin> ?L" "epath e \<noteq> []" using leaves_ne [OF assms(1)] assms(1) by (auto simp: toc_ok_def ent_ok_def)
  obtain j where j: "getIDByName (b_md s) (cleanEntryPath (fm_Name e)) 1 = Inr j" "j \<noteq> 1"
    by (rule first_entry_path [OF s(2) ne(1) _ assms(2) ne(2)]) simp
  have "b_nodes s0 j = None" using j(2) by (simp add: root_build_def s0_def)
  then have "add_entry 1 e (s\<lparr>b_nodes := b_nodes s0\<rparr>) = (Inl (NodeBucketNotFound j), s\<lparr>b_nodes := b_nodes s0\<rparr>)"
    using j(1) assms(2) by (simp add: add_entry_def entry_node_def getNodeBucketByID_def)
  then have "add_entries 1 (e # es') (s\<lparr>b_nodes := b_nodes s0\<rparr>) = (Inl (NodeBucketNotFound j), s\<lparr>b_nodes := b_nodes s0\<rparr>)"
    by simp
  then obtain s' where "batch 1 (add_entries 1 (e # es')) s0 = (Inl (NodeBucketNotFound j), s')"
    using s(1) by (simp only: One_nat_def batch.simps prod.case sum.case)
  then have "add_chunks 1 (partition (e # es) ?n) (1 # retries) s0 = (Inl (NodeBucketNotFound j), s')"
    by (simp only: C(1) add_chunks.simps list.distinct if_False list.sel prod.case sum.case)
  then have "initNodes (1 # retries) i 1 (e # es) ?n (Some ?fss) = Inl (NodeBucketNotFound j)"
    by (simp add: initNodes_def s0_def)
  then show ?thesis unfolding md_init_def R by simp
qed

theorem rerun_transaction_fails_witness:
  "\<exists>j. md_init 0 [1] [''fs1''] [sample_entry ''a/'' ''dir'' '''' 512] 0 None = Inl (NodeBucketNotFound j)"
proof (rule rerun_transaction_fails)
  show "toc_ok [sample_entry ''a/'' ''dir'' '''' 512]"
    by (simp add: toc_ok_def sample_entry_def ent_ok_def comps_def clean_step_def attr_ok_def attrFromZtocEntry_def
        xattrs_ok_def Xattrs_def strict_prefix_def)
qed (simp_all add: sample_entry_def)

section \<open>Listing a directory\<close>

lemma written_children:
  assumes "md_ok m"
  shows "mb_childName (written m) = (case md_children m of [] \<Rightarrow> None | (n, i) # cs \<Rightarrow> Some n)"
    and "mb_childID (written m) = (case md_children m of [] \<Rightarrow> None | (n, i) # cs \<Rightarrow> Some (encodeID i))"
    and "(case mb_childrenExtra (written m) of None \<Rightarrow> [] | Some cs \<Rightarrow> cs) =
      map (\<lambda>(base, i). (base, encodeID i)) (tl (md_children m))"
  using write_read_md [OF assms] by (auto simp: written_def)

definition listed :: "(nat \<rightharpoonup> node_bucket) \<Rightarrow> string \<times> nat \<Rightarrow> string \<times> nat \<times> 32 word" where
  "listed nodes = (\<lambda>(c, i). (c, i, stored_mode (the (nodes i))))"

lemma listed_mem: "(c, j, mode) \<in> set (map (listed nodes) ks) \<longleftrightarrow> (c, j) \<in> set ks \<and> mode = stored_mode (the (nodes j))"
  by (force simp: listed_def)

lemma map_fst_listed: "map fst (map (listed nodes) ks) = map fst ks"
  by (simp add: listed_def case_prod_unfold)

lemma extra_children_ok:
  assumes "\<forall>c i. (c, i) \<in> set cs \<longrightarrow> nodes i \<noteq> None \<and> i < 4294967296" and "distinct (map fst acc @ map fst cs)"
  shows "extra_children nodes (map (\<lambda>(c, i). (c, encodeID i)) cs) acc = Inr (acc @ map (listed nodes) cs)"
  using assms
proof (induction cs arbitrary: acc)
  case (Cons ci cs)
  obtain c i where ci: "ci = (c, i)" by (cases ci)
  obtain b where b: "nodes i = Some b" "i < 4294967296" using Cons.prems(1) ci by auto
  have "AList.update c (i, stored_mode b) acc = acc @ [(c, i, stored_mode b)]"
    using Cons.prems(2) ci by (intro update_fresh) auto
  moreover have "distinct (map fst (acc @ [(c, i, stored_mode b)]) @ map fst cs)" using Cons.prems(2) ci by auto
  ultimately show ?case
    using Cons.IH [of "acc @ [(c, i, stored_mode b)]"] Cons.prems(1) ci b
    by (simp add: node_by_id_def listed_def)
qed simp

lemma children_of_stored:
  assumes "get_fs db (r_fsID r) = Inr (stored s)" and "b_md s i = Some m" and "md_ok m"
    and "\<forall>c j. (c, j) \<in> set (md_children m) \<longrightarrow> c \<noteq> '''' \<and> b_nodes s j \<noteq> None"
  shows "children_of r db i = Inr (map (listed (b_nodes s)) (md_children m))"
proof -
  have fs: "getMetadataBucket db (r_fsID r) = Inr (\<lambda>i. map_option written (b_md s i))"
      "getNodesBucket db (r_fsID r) = Inr (b_nodes s)"
    using assms(1) by (simp_all add: getMetadataBucket_def getNodesBucket_def stored_def)
  note W = written_children [OF assms(3)]
  have small: "\<forall>c j. (c, j) \<in> set (md_children m) \<longrightarrow> j < 4294967296" and d: "distinct (map fst (md_children m))"
    using assms(3) by (auto simp: md_ok_def)
  show ?thesis
  proof (cases "md_children m")
    case Nil
    have "(case mb_childrenExtra (written m) of None \<Rightarrow> Inr [] | Some cbkt \<Rightarrow> extra_children (b_nodes s) cbkt []) =
        (Inr [] :: md_error + (string \<times> nat \<times> 32 word) list)"
      using W(3) Nil by (cases "mb_childrenExtra (written m)") simp_all
    then show ?thesis using fs assms(2) W(1) Nil by (simp add: children_of_def getMetadataBucketByID_def)
  next
    case (Cons ci cs)
    obtain c j where ci: "ci = (c, j)" by (cases ci)
    have "(c, j) \<in> set (md_children m)" using Cons ci by simp
    then obtain b where b: "b_nodes s j = Some b" "j < 4294967296" "c \<noteq> ''''" using assms(4) small by blast
    have cs: "\<forall>c i. (c, i) \<in> set cs \<longrightarrow> b_nodes s i \<noteq> None \<and> i < 4294967296"
    proof (intro allI impI)
      fix c i
      assume "(c, i) \<in> set cs"
      then have "(c, i) \<in> set (md_children m)" using Cons by simp
      then show "b_nodes s i \<noteq> None \<and> i < 4294967296" using assms(4) small by blast
    qed
    have "extra_children (b_nodes s) (map (\<lambda>(c, i). (c, encodeID i)) cs) [(c, j, stored_mode b)] =
        Inr ((c, j, stored_mode b) # map (listed (b_nodes s)) cs)"
      using extra_children_ok [OF cs, of "[(c, j, stored_mode b)]"] d Cons ci by simp
    then have "(case mb_childrenExtra (written m) of None \<Rightarrow> Inr [(c, j, stored_mode b)]
        | Some cbkt \<Rightarrow> extra_children (b_nodes s) cbkt [(c, j, stored_mode b)]) =
        Inr ((c, j, stored_mode b) # map (listed (b_nodes s)) cs)"
      using W(3) Cons by (cases "mb_childrenExtra (written m)") auto
    then show ?thesis
      using fs assms(2) W(1,2) Cons ci b
      by (simp add: children_of_def getMetadataBucketByID_def node_by_id_def listed_def)
  qed
qed

text \<open>
  The directory interface that the file system uses: the children that are listed are those that
  are found by name, with the same nodes and modes.
\<close>

locale metadata_dir =
  fixes children :: "nat \<Rightarrow> 'e + (string \<times> nat \<times> 32 word) list"
    and child :: "nat \<Rightarrow> string \<Rightarrow> 'e + (nat \<times> attr)"
    and dir :: "nat \<Rightarrow> bool"
  assumes children_ok: "dir i \<Longrightarrow> \<exists>cs. children i = Inr cs \<and> distinct (map fst cs)"
    and children_ids: "dir i \<Longrightarrow> children i = Inr cs \<Longrightarrow> (c, j, mode) \<in> set cs \<Longrightarrow> c \<noteq> '''' \<and> j \<le> 4294967295"
    and child_iff: "dir i \<Longrightarrow> children i = Inr cs \<Longrightarrow> c \<noteq> '''' \<Longrightarrow>
      (c, j, mode) \<in> set cs \<longleftrightarrow> (\<exists>a. child i c = Inr (j, a) \<and> a_Mode a = mode)"

definition stored_dir :: "md_reader \<Rightarrow> bolt_db \<Rightarrow> nat \<Rightarrow> bool" where
  "stored_dir r db i \<longleftrightarrow> (\<exists>L s p. tree_inv (r_rootID r) L s \<and> get_fs db (r_fsID r) = Inr (stored s) \<and>
     tree (r_rootID r) s p = Some i)"

lemma stored_dirE:
  assumes "stored_dir r db i"
  obtains s cs where "get_fs db (r_fsID r) = Inr (stored s)" and "children_of r db i = Inr (map (listed (b_nodes s)) cs)"
    and "distinct (map fst cs)" and "kids (b_md s) i = map_of cs"
    and "\<forall>c j. (c, j) \<in> set cs \<longrightarrow> c \<noteq> '''' \<and> j \<le> 4294967295 \<and> b_nodes s j \<noteq> None"
    and "\<forall>c j. c \<noteq> '''' \<longrightarrow> map_of cs c = Some j \<longrightarrow>
       (\<exists>a. GetChild r db i c = Inr (j, a) \<and> a_Mode a = stored_mode (the (b_nodes s j)))"
    and "\<forall>c. c \<noteq> '''' \<longrightarrow> map_of cs c = None \<longrightarrow> (\<exists>e. GetChild r db i c = Inl e)"
proof -
  obtain L s p where S: "tree_inv (r_rootID r) L s" "get_fs db (r_fsID r) = Inr (stored s)" "tree (r_rootID r) s p = Some i"
    using assms by (auto simp: stored_dir_def)
  note T = tree_invD [OF S(1)]
  have fs: "getMetadataBucket db (r_fsID r) = Inr (\<lambda>i. map_option written (b_md s i))"
      "getNodesBucket db (r_fsID r) = Inr (b_nodes s)"
    using S(2) by (simp_all add: getMetadataBucket_def getNodesBucket_def stored_def)
  show ?thesis
  proof (cases "b_md s i")
    case None
    then have "children_of r db i = Inr []" "\<exists>e. GetChild r db i c = Inl e" for c
      using fs by (simp_all add: children_of_def GetChild_def getMetadataBucketByID_def)
    then show ?thesis using that [of s "[]"] S(2) None by (simp add: kids_def fun_eq_iff)
  next
    case (Some m)
    have ok: "md_ok m" using T(8) Some by blast
    have nodes: "\<forall>c j. (c, j) \<in> set (md_children m) \<longrightarrow> c \<noteq> '''' \<and> j \<le> 4294967295 \<and> b_nodes s j \<noteq> None"
    proof (intro allI impI)
      fix c j
      assume cj: "(c, j) \<in> set (md_children m)"
      have "map_of (md_children m) c = Some j" using ok cj by (simp add: md_ok_def)
      then have "tree (r_rootID r) s (p @ [c]) = Some j" using S(3) Some by (simp add: walk_snoc kids_def)
      then have "b_nodes s j \<noteq> None" "j \<le> 4294967295" using T(1,3,5) by (blast, meson le_trans)
      then show "c \<noteq> '''' \<and> j \<le> 4294967295 \<and> b_nodes s j \<noteq> None"
        using ok cj by (auto simp: md_ok_def bolt_Put_def split: if_splits)
    qed
    have g: "GetChild r db i c = (case map_of (md_children m) c of None \<Rightarrow> Inl (DbError ChildrenNotFound)
        | Some j \<Rightarrow> Inr (j, readNodeEntryToAttr (the (b_nodes s j)) zero_attr))" if "c \<noteq> ''''" for c
    proof (cases "map_of (md_children m) c")
      case None
      then show ?thesis using fs Some written_ok(3) [OF ok that] by (simp add: GetChild_def getMetadataBucketByID_def)
    next
      case (Some j)
      then obtain b where "b_nodes s j = Some b" using nodes map_of_SomeD by fastforce
      then show ?thesis
        using fs \<open>b_md s i = Some m\<close> written_ok(3) [OF ok that] Some
        by (simp add: GetChild_def getMetadataBucketByID_def node_by_id_def)
    qed
    have mode: "a_Mode (readNodeEntryToAttr b zero_attr) = stored_mode b" for b
      by (simp add: readNodeEntryToAttr_def stored_mode_def zero_attr_def split: option.split)
    show ?thesis
    proof (rule that [of s "md_children m"])
      show "children_of r db i = Inr (map (listed (b_nodes s)) (md_children m))"
        by (rule children_of_stored [OF S(2) Some ok]) (use nodes in auto)
      show "distinct (map fst (md_children m))" using ok by (simp add: md_ok_def)
      show "kids (b_md s) i = map_of (md_children m)" using Some by (simp add: kids_def)
      show "\<forall>c j. c \<noteq> '''' \<longrightarrow> map_of (md_children m) c = Some j \<longrightarrow>
          (\<exists>a. GetChild r db i c = Inr (j, a) \<and> a_Mode a = stored_mode (the (b_nodes s j)))"
        using g mode by simp
      show "\<forall>c. c \<noteq> '''' \<longrightarrow> map_of (md_children m) c = None \<longrightarrow> (\<exists>e. GetChild r db i c = Inl e)"
        using g by simp
    qed (rule S(2), rule nodes)
  qed
qed

interpretation md_dir: metadata_dir "children_of r db" "GetChild r db" "stored_dir r db" for r db
proof
  fix i
  assume "stored_dir r db i"
  then show "\<exists>cs. children_of r db i = Inr cs \<and> distinct (map fst cs)"
  proof (rule stored_dirE)
    fix s ks
    assume "children_of r db i = Inr (map (listed (b_nodes s)) ks)" "distinct (map fst ks)"
    then show ?thesis by (simp only: map_fst_listed sum.inject simp_thms ex_simps)
  qed
next
  fix i cs c j and mode :: "32 word"
  assume "stored_dir r db i" "children_of r db i = Inr cs" "(c, j, mode) \<in> set cs"
  note D = this
  obtain s ks where "get_fs db (r_fsID r) = Inr (stored s)" and K: "children_of r db i = Inr (map (listed (b_nodes s)) ks)"
      "distinct (map fst ks)" and "kids (b_md s) i = map_of ks"
      and N: "\<forall>c j. (c, j) \<in> set ks \<longrightarrow> c \<noteq> '''' \<and> j \<le> 4294967295 \<and> b_nodes s j \<noteq> None"
      and G: "\<forall>c j. c \<noteq> '''' \<longrightarrow> map_of ks c = Some j \<longrightarrow>
         (\<exists>a. GetChild r db i c = Inr (j, a) \<and> a_Mode a = stored_mode (the (b_nodes s j)))"
      "\<forall>c. c \<noteq> '''' \<longrightarrow> map_of ks c = None \<longrightarrow> (\<exists>e. GetChild r db i c = Inl e)"
    using stored_dirE [OF D(1)] .
  have "cs = map (listed (b_nodes s)) ks" using K(1) D(2) by simp
  then have "(c, j) \<in> set ks" using D(3) listed_mem by metis
  then show "c \<noteq> '''' \<and> j \<le> 4294967295" using N by blast
next
  fix i cs j and c :: string and mode :: "32 word"
  assume D: "stored_dir r db i" "children_of r db i = Inr cs" "c \<noteq> ''''"
  obtain s ks where "get_fs db (r_fsID r) = Inr (stored s)" and K: "children_of r db i = Inr (map (listed (b_nodes s)) ks)"
      "distinct (map fst ks)" and "kids (b_md s) i = map_of ks"
      and N: "\<forall>c j. (c, j) \<in> set ks \<longrightarrow> c \<noteq> '''' \<and> j \<le> 4294967295 \<and> b_nodes s j \<noteq> None"
      and G: "\<forall>c j. c \<noteq> '''' \<longrightarrow> map_of ks c = Some j \<longrightarrow>
         (\<exists>a. GetChild r db i c = Inr (j, a) \<and> a_Mode a = stored_mode (the (b_nodes s j)))"
      "\<forall>c. c \<noteq> '''' \<longrightarrow> map_of ks c = None \<longrightarrow> (\<exists>e. GetChild r db i c = Inl e)"
    using stored_dirE [OF D(1)] .
  have "(c, j, mode) \<in> set cs \<longleftrightarrow> map_of ks c = Some j \<and> mode = stored_mode (the (b_nodes s j))"
  proof -
    have "cs = map (listed (b_nodes s)) ks" using K(1) D(2) by simp
    then have "(c, j, mode) \<in> set cs \<longleftrightarrow> (c, j) \<in> set ks \<and> mode = stored_mode (the (b_nodes s j))"
      by (simp only: listed_mem)
    then show ?thesis using K(2) by simp
  qed
  also have "\<dots> \<longleftrightarrow> (\<exists>a. GetChild r db i c = Inr (j, a) \<and> a_Mode a = mode)"
    using G D(3) by (cases "map_of ks c") fastforce+
  finally show "(c, j, mode) \<in> set cs \<longleftrightarrow> (\<exists>a. GetChild r db i c = Inr (j, a) \<and> a_Mode a = mode)" .
qed

end
