(* ===== verification/File_Reader.thy ===== *)
theory File_Reader
  imports Span_Reads Metadata_Lookup
begin

text \<open>
  Reading a file of a layer on demand (\<^verbatim>\<open>fs/reader/reader.go\<close>): the metadata store says where the
  file lies, the span manager provides the bytes, and before the first read the attributes are
  compared with the tar header that is in the layer. The parser of a tar header
  (\<^verbatim>\<open>archive/tar\<close>) is a function from the bytes to the header and the number of bytes it read.
\<close>

section \<open>The reader\<close>

datatype fr_error =
    FrClosed
  | FrMetadata md_error
  | FrSpans sm_error
  | InvalidTarHeaderSize int
  | TarHeaderUnreadable
  | IncorrectTarHeaderSize int int
  | AttributesMismatch
  | NameMismatch
  | UnexpectedSize int int
  | FrEOF
  | FrPanic

record ('c, 'r) gr_reader =
  gr_spanManager :: "('c, 'r) spanManager"
  gr_r :: md_reader
  gr_lastReadTime :: int
  gr_closed :: bool
  gr_disableVerification :: bool

record gr_file =
  gf_id :: nat
  gf_fr :: md_file
  gf_verified :: bool

definition gr_NewReader :: "md_reader \<Rightarrow> ('c, 'r) spanManager \<Rightarrow> bool \<Rightarrow> ('c, 'r) gr_reader" where
  "gr_NewReader r spanManager disableVerification =
     \<lparr>gr_spanManager = spanManager, gr_r = r, gr_lastReadTime = 0, gr_closed = False,
      gr_disableVerification = disableVerification\<rparr>"

definition gr_OpenFile :: "('c, 'r) gr_reader \<Rightarrow> bolt_db \<Rightarrow> nat \<Rightarrow> fr_error + gr_file" where
  "gr_OpenFile gr db i =
     (if gr_closed gr then Inl FrClosed
      else bind_res (map_sum FrMetadata id (OpenFile (gr_r gr) db i))
             (\<lambda>fr. Inr \<lparr>gf_id = i, gf_fr = fr, gf_verified = False\<rparr>))"

definition gr_Close ::
    "('c, 'w, 'r) sm_env \<Rightarrow> ('c, 'r) gr_reader \<Rightarrow> bolt_db \<Rightarrow> ('c, 'r) gr_reader \<times> bolt_db \<times> md_error option" where
  "gr_Close env gr db =
     (if gr_closed gr then (gr, db, None)
      else let gr' = gr\<lparr>gr_closed := True, gr_spanManager := sm_Close env (gr_spanManager gr)\<rparr> in
           case md_Close (gr_r gr) db of Inl e \<Rightarrow> (gr', db, Some e) | Inr db' \<Rightarrow> (gr', db', None))"

section \<open>Verification\<close>

text \<open>\<^verbatim>\<open>tar.Header.FileInfo().Mode()\<close>: type bits come from the mode field and from the type flag.\<close>

definition ModeSocket :: "32 word" where
  "ModeSocket = push_bit 24 1"

definition tar_mode_type :: "int \<Rightarrow> 32 word" where
  "tar_mode_type m =
     (let t = push_bit 12 (drop_bit 12 (word_of_int m :: 32 word)) in
      if t = 16384 then ModeDir else if t = 4096 then ModeNamedPipe else if t = 40960 then ModeSymlink
      else if t = 24576 then ModeDevice else if t = 8192 then or ModeDevice ModeCharDevice
      else if t = 49152 then ModeSocket else 0)"

definition tar_FileInfo_Mode :: "tarHeader \<Rightarrow> 32 word" where
  "tar_FileInfo_Mode h =
     or (or (tar_mode_bits (h_Mode h)) (tar_mode_type (h_Mode h)))
        (if h_Typeflag h = 50 then ModeSymlink
         else if h_Typeflag h = 51 then or ModeDevice ModeCharDevice
         else if h_Typeflag h = 52 then ModeDevice
         else if h_Typeflag h = 53 then ModeDir
         else if h_Typeflag h = 54 then ModeNamedPipe else 0)"

definition attrMatchesTarHeader :: "attr \<Rightarrow> tarHeader \<Rightarrow> bool" where
  "attrMatchesTarHeader attr tarh \<longleftrightarrow>
     a_Size attr = h_Size tarh \<and> a_ModTime attr = h_ModTime tarh \<and> a_LinkName attr = h_Linkname tarh \<and>
     a_Mode attr = tar_FileInfo_Mode tarh \<and> a_UID attr = h_Uid tarh \<and> a_GID attr = h_Gid tarh \<and>
     a_DevMajor attr = h_Devmajor tarh \<and> a_DevMinor attr = h_Devminor tarh \<and>
     (let tarXattrs = (case Xattrs (h_PAXRecords tarh) of None \<Rightarrow> [] | Some xs \<Rightarrow> xs) in
      length (a_Xattrs attr) = length tarXattrs \<and>
      list_all (\<lambda>(k, attrV). attrV = go_lookup tarXattrs k) (a_Xattrs attr))"

type_synonym tar_parser = "bytes \<Rightarrow> (tarHeader \<times> nat) option"

definition gf_Verify ::
    "('c, 'w, 'r) sm_env \<Rightarrow> tar_parser \<Rightarrow> (nat \<Rightarrow> nat list) \<Rightarrow> bolt_db \<Rightarrow> gr_file \<Rightarrow> ('c, 'r) gr_reader \<Rightarrow>
     ('c, 'r) gr_reader \<times> gr_file \<times> fr_error option" where
  "gf_Verify env next sched db sf gr =
     (if gf_verified sf then (gr, sf, None)
      else case GetAttr (gr_r gr) db (gf_id sf) of Inl e \<Rightarrow> (gr, sf, Some (FrMetadata e))
      | Inr attr \<Rightarrow>
        (let off = f_tarHeaderOffset (gf_fr sf); sz = f_tarHeaderSize (gf_fr sf) in
         if sz < 0 then (gr, sf, Some (InvalidTarHeaderSize sz))
         else case GetContents env sched off (wrap64 (off + sz)) (gr_spanManager gr) of
           (m, Inl e) \<Rightarrow> (gr\<lparr>gr_spanManager := m\<rparr>, sf, Some (FrSpans e))
         | (m, Inr hdr) \<Rightarrow>
             (let gr1 = gr\<lparr>gr_spanManager := m\<rparr> in
              case next hdr of None \<Rightarrow> (gr1, sf, Some TarHeaderUnreadable)
              | Some (tarHeader, pos) \<Rightarrow>
                  if int pos \<noteq> sz then (gr1, sf, Some (IncorrectTarHeaderSize sz (int pos)))
                  else if \<not> attrMatchesTarHeader attr tarHeader then (gr1, sf, Some AttributesMismatch)
                  else if f_tarName (gf_fr sf) \<noteq> h_Name tarHeader then (gr1, sf, Some NameMismatch)
                  else (gr1, sf\<lparr>gf_verified := True\<rparr>, None))))"

section \<open>Reading\<close>

text \<open>
  \<^verbatim>\<open>ReadAt\<close> with a buffer of \<open>len\<close> bytes: the bytes it put there, or the error. Only the part
  before the end of the file is asked for.
\<close>

definition read_verified ::
    "('c, 'w, 'r) sm_env \<Rightarrow> (nat \<Rightarrow> nat list) \<Rightarrow> int \<Rightarrow> gr_file \<Rightarrow> nat \<Rightarrow> int \<Rightarrow> ('c, 'r) gr_reader \<Rightarrow>
     ('c, 'r) gr_reader \<times> (fr_error + bytes)" where
  "read_verified env sched now sf len offset gr =
     (if len = 0 then (gr, Inr [])
      else let uncompFileSize = f_uncompressedSize (gf_fr sf) in
        if offset \<ge> uncompFileSize then (gr, Inl FrEOF)
        else let expectedSize = min (wrap64 (uncompFileSize - offset)) (int len);
                 fileOffsetStart = wrap64 (f_uncompressedOffset (gf_fr sf) + offset);
                 fileOffsetEnd = wrap64 (fileOffsetStart + expectedSize) in
          case GetContents env sched fileOffsetStart fileOffsetEnd (gr_spanManager gr) of
            (m, Inl e) \<Rightarrow> (gr\<lparr>gr_spanManager := m\<rparr>, Inl (FrSpans e))
          | (m, Inr b) \<Rightarrow>
              (let gr1 = gr\<lparr>gr_spanManager := m, gr_lastReadTime := now\<rparr> in
               if expectedSize < 0 then (gr1, Inl FrPanic)
               else if int (length b) < expectedSize then (gr1, Inl (UnexpectedSize (int (length b)) expectedSize))
               else (gr1, Inr (take (nat expectedSize) b))))"

definition gf_ReadAt ::
    "('c, 'w, 'r) sm_env \<Rightarrow> tar_parser \<Rightarrow> (nat \<Rightarrow> nat list) \<Rightarrow> int \<Rightarrow> bolt_db \<Rightarrow> gr_file \<Rightarrow> nat \<Rightarrow> int \<Rightarrow> ('c, 'r) gr_reader \<Rightarrow>
     ('c, 'r) gr_reader \<times> gr_file \<times> (fr_error + bytes)" where
  "gf_ReadAt env next sched now db sf len offset gr =
     (case (if gr_disableVerification gr then (gr, sf, None) else gf_Verify env next sched db sf gr) of
        (gr1, sf1, Some e) \<Rightarrow> (gr1, sf1, Inl e)
      | (gr1, sf1, None) \<Rightarrow>
          (case read_verified env sched now sf1 len offset gr1 of (gr2, r) \<Rightarrow> (gr2, sf1, r)))"

section \<open>The bytes of a file\<close>

text \<open>The entry was made from this header of the archive.\<close>

definition header_of :: "fileMetadata \<Rightarrow> tarHeader \<Rightarrow> bool" where
  "header_of e h \<longleftrightarrow> getType h = Inr (fm_Type e) \<and> fm_Name e = h_Name h \<and> fm_UncompressedSize e = h_Size h \<and>
     fm_Linkname e = h_Linkname h \<and> fm_Mode e = h_Mode h \<and> fm_UID e = h_Uid h \<and> fm_GID e = h_Gid h \<and>
     fm_ModTime e = h_ModTime h \<and> fm_Devmajor e = h_Devmajor h \<and> fm_Devminor e = h_Devminor h \<and>
     fm_PAXHeaders e = h_PAXRecords h"

abbreviation entry_xattrs :: "fileMetadata \<Rightarrow> headers" where
  "entry_xattrs e \<equiv> (case Xattrs (fm_PAXHeaders e) of None \<Rightarrow> [] | Some xs \<Rightarrow> xs)"

lemma header_mode:
  assumes "header_of e h" and "tar_mode_type (h_Mode h) = 0"
  shows "FileMode e = tar_FileInfo_Mode h"
  using assms by (auto simp: header_of_def getType_def Let_def FileMode_def tar_FileInfo_Mode_def split: if_splits)

lemma xattrs_match:
  assumes "distinct (map fst xs)" and "list_all (\<lambda>(k, v). v \<noteq> '''') xs"
  shows "stored_xattrs xs = xs" and "list_all (\<lambda>(k, v). v = go_lookup xs k) xs"
proof -
  show "stored_xattrs xs = xs"
    using assms(2) by (cases xs) (auto simp: list_all_iff intro: filter_True)
  show "list_all (\<lambda>(k, v). v = go_lookup xs k) xs"
    using assms(1) by (auto simp: list_all_iff go_lookup_def)
qed

lemma attr_matches:
  assumes "header_of e h" and "tar_mode_type (h_Mode h) = 0" and "ent_ok e" and "list_all (\<lambda>(k, v). v \<noteq> '''') (entry_xattrs e)"
  shows "attrMatchesTarHeader (entry_attr e n) h"
proof -
  have "distinct (map fst (entry_xattrs e))"
    using assms(3) by (simp add: ent_ok_def attr_ok_def xattrs_ok_def attrFromZtocEntry_def)
  from xattrs_match [OF this assms(4)] header_mode [OF assms(1,2)] assms(1) show ?thesis
    by (simp add: attrMatchesTarHeader_def entry_attr_def attrFromZtocEntry_def header_of_def)
qed

lemma stored_xattrs_shorter:
  assumes "1 < length (filter (\<lambda>(k, v). v = '''') xs)"
  shows "length (stored_xattrs xs) < length xs"
proof (cases xs)
  case (Cons x ys)
  then have "0 < length (filter (\<lambda>(k, v). v = '''') ys)" using assms by (auto split: if_splits)
  then have "\<exists>y \<in> set ys. \<not> (\<lambda>(k, v). v \<noteq> '''') y" by (auto simp: filter_empty_conv)
  then show ?thesis using Cons length_filter_less [of _ ys] by fastforce
qed (use assms in simp)

lemma attr_mismatch:
  assumes "header_of e h" and "1 < length (filter (\<lambda>(k, v). v = '''') (entry_xattrs e))"
  shows "\<not> attrMatchesTarHeader (entry_attr e n) h"
  using stored_xattrs_shorter [OF assms(2)] assms(1)
  by (auto simp: attrMatchesTarHeader_def entry_attr_def attrFromZtocEntry_def header_of_def Let_def)

text \<open>A node that \<^const>\<open>serves_entry\<close> promises, opened.\<close>

definition opened :: "md_reader \<Rightarrow> bolt_db \<Rightarrow> fileMetadata \<Rightarrow> gr_file \<Rightarrow> bool" where
  "opened r db e f \<longleftrightarrow> \<not> is_link e \<and> serves_entry r db e \<and>
     lookup_path r db (r_rootID r) (epath e) = Inr (gf_id f) \<and> OpenFile r db (gf_id f) = Inr (gf_fr f)"

lemma openedD:
  assumes "opened r db e f"
  shows "f_tarName (gf_fr f) = fm_Name e" and "f_uncompressedOffset (gf_fr f) = fm_UncompressedOffset e"
    and "f_uncompressedSize (gf_fr f) = fm_UncompressedSize e" and "f_tarHeaderOffset (gf_fr f) = fm_TarHeaderOffset e"
    and "f_tarHeaderSize (gf_fr f) = wrap64 (fm_UncompressedOffset e - fm_TarHeaderOffset e)"
    and "\<exists>n. GetAttr r db (gf_id f) = Inr (entry_attr e n)"
proof -
  have "gf_fr f = \<lparr>f_tarName = fm_Name e, f_uncompressedOffset = fm_UncompressedOffset e,
      f_uncompressedSize = fm_UncompressedSize e, f_tarHeaderOffset = fm_TarHeaderOffset e,
      f_tarHeaderSize = wrap64 (fm_UncompressedOffset e - fm_TarHeaderOffset e)\<rparr>"
    using assms by (auto simp: opened_def serves_entry_def split: if_splits)
  then show "f_tarName (gf_fr f) = fm_Name e" "f_uncompressedOffset (gf_fr f) = fm_UncompressedOffset e"
      "f_uncompressedSize (gf_fr f) = fm_UncompressedSize e" "f_tarHeaderOffset (gf_fr f) = fm_TarHeaderOffset e"
      "f_tarHeaderSize (gf_fr f) = wrap64 (fm_UncompressedOffset e - fm_TarHeaderOffset e)"
    by simp_all
  show "\<exists>n. GetAttr r db (gf_id f) = Inr (entry_attr e n)"
    using assms by (auto simp: opened_def serves_entry_def split: if_splits)
qed

text \<open>The member lies inside the archive, after its header, and is not the end of the archive.\<close>

definition member_in :: "bytes \<Rightarrow> fileMetadata \<Rightarrow> bool" where
  "member_in udata e \<longleftrightarrow> 0 \<le> fm_TarHeaderOffset e \<and> fm_TarHeaderOffset e \<le> fm_UncompressedOffset e \<and>
     0 \<le> fm_UncompressedSize e \<and> fm_UncompressedOffset e + fm_UncompressedSize e < int (length udata) \<and>
     int (length udata) \<le> max_int64"

lemma GetContents_is_step:
  assumes "sm_inv ok cont env cdata udata m" and "0 \<le> a" and "a \<le> b" and "b < int (length udata)"
    and "\<forall>n. set (sched n) = {0..<n}" and "GetContents env sched a b m = (m', r)"
  shows "sm_step env udata m m'"
proof -
  obtain j where j: "UncompressedOffsetToSpanID (sm_zinfo m) b = Some j" "j \<le> zt_MaxSpanID (sm_ztoc m)"
    using span_of_end [OF assms(1) _ assms(4)] assms(2,3) by auto
  show ?thesis by (rule step_contents [OF assms(2,3) _ j assms(5,6)]) (use assms(4) in simp)
qed

context blob_cache
begin

lemma Verify_reaches:
  assumes "se_cache env = ops" and "sm_inv ok contents env cdata udata (gr_spanManager gr)" and "opened (gr_r gr) db e f"
    and "member_in udata e" and "\<forall>n. set (sched n) = {0..<n}" and "gf_Verify env nxt sched db f gr = (gr', f', r)"
  shows "sm_inv ok contents env cdata udata (gr_spanManager gr')" and "gf_fr f' = gf_fr f" and "gf_id f' = gf_id f"
    and "gr_r gr' = gr_r gr" and "(sm_step env udata)\<^sup>*\<^sup>* (gr_spanManager gr) (gr_spanManager gr')"
proof -
  let ?off = "fm_TarHeaderOffset e" and ?hi = "fm_UncompressedOffset e"
  note O = openedD [OF assms(3)]
  have M: "0 \<le> ?off" "?off \<le> ?hi" "?hi < int (length udata)" "int (length udata) \<le> max_int64"
    using assms(4) by (auto simp: member_in_def)
  have w: "wrap64 (?hi - ?off) = ?hi - ?off" "wrap64 (?off + (?hi - ?off)) = ?hi" using M by (simp_all add: wrap64_id)
  show "gf_fr f' = gf_fr f" "gf_id f' = gf_id f" "gr_r gr' = gr_r gr"
    using assms(6) by (auto simp: gf_Verify_def Let_def split: if_splits sum.splits prod.splits option.splits)
  obtain m' d where g: "GetContents env sched ?off ?hi (gr_spanManager gr) = (m', d)" by fastforce
  have "gr_spanManager gr' = gr_spanManager gr \<or> gr_spanManager gr' = m'"
    using assms(6) g O(4,5) w by (auto simp: gf_Verify_def Let_def split: if_splits sum.splits prod.splits option.splits)
  then have "(sm_step env udata)\<^sup>*\<^sup>* (gr_spanManager gr) (gr_spanManager gr')"
    using GetContents_is_step [OF assms(2) M(1-3) assms(5) g] by auto
  then show "sm_inv ok contents env cdata udata (gr_spanManager gr')" "(sm_step env udata)\<^sup>*\<^sup>* (gr_spanManager gr) (gr_spanManager gr')"
    using sm_reachable_inv [OF assms(1) _ assms(2)] by blast+
qed

end

context blob_cache
begin

lemma read_verified_sound:
  assumes "se_cache env = ops" and "sm_inv ok contents env cdata udata (gr_spanManager gr)" and "opened r db e f"
    and "member_in udata e" and "\<forall>n. set (sched n) = {0..<n}" and "0 \<le> offset"
    and "read_verified env sched now f len offset gr = (gr', Inr d)"
  shows "d = sub udata (fm_UncompressedOffset e + offset) (fm_UncompressedOffset e + min (fm_UncompressedSize e) (offset + int len))"
proof (cases "len = 0 \<or> fm_UncompressedSize e \<le> offset")
  case True
  note O = openedD [OF assms(3)]
  have "len = 0" "d = []" using True assms(7) O(3) by (auto simp: read_verified_def Let_def split: if_splits)
  then show ?thesis by (simp add: sub_def)
next
  case False
  let ?a = "fm_UncompressedOffset e + offset" and ?n = "min (fm_UncompressedSize e - offset) (int len)"
  note O = openedD [OF assms(3)]
  have M: "0 \<le> fm_UncompressedOffset e" "fm_UncompressedOffset e + fm_UncompressedSize e < int (length udata)"
      "int (length udata) \<le> max_int64"
    using assms(4) by (auto simp: member_in_def)
  have n: "0 < ?n" "?a + ?n < int (length udata)" "0 \<le> ?a" using False M assms(6) by auto
  have w: "wrap64 (fm_UncompressedSize e - offset) = fm_UncompressedSize e - offset" "wrap64 ?a = ?a"
    using M n False assms(6) by (simp_all add: wrap64_id)
  have w3: "wrap64 (?a + ?n) = ?a + ?n" by (rule wrap64_id) (use M n in linarith)+
  obtain m' b where g: "GetContents env sched ?a (?a + ?n) (gr_spanManager gr) = (m', Inr b)" and d: "d = take (nat ?n) b"
    using assms(7) False O(2,3) w w3 by (auto simp: read_verified_def Let_def split: if_splits prod.splits sum.splits)
  obtain j where j: "UncompressedOffsetToSpanID (sm_zinfo (gr_spanManager gr)) (?a + ?n) = Some j"
      "j \<le> zt_MaxSpanID (sm_ztoc (gr_spanManager gr))"
    using span_of_end [OF assms(2) _ n(2)] n(1,3) by auto
  have "b = sub udata ?a (?a + ?n)"
    using GetContents_sound [OF assms(1,2) n(3) _ _ j assms(5) g] n(1,2) by simp
  then have "int (length b) = ?n" "b = sub udata ?a (?a + ?n)" using n by (simp_all add: length_sub)
  then have "d = sub udata ?a (?a + ?n)" using d by simp
  moreover have "?a + ?n = fm_UncompressedOffset e + min (fm_UncompressedSize e) (offset + int len)" by simp
  ultimately show ?thesis by simp
qed

end

lemma ReadAt_split:
  assumes "gf_ReadAt env nxt sched now db f len offset gr = (gr', f', Inr d)"
  obtains gr1 f1 where "gr_disableVerification gr \<and> gr1 = gr \<and> f1 = f \<or> gf_Verify env nxt sched db f gr = (gr1, f1, None)"
    and "read_verified env sched now f1 len offset gr1 = (gr', Inr d)" and "f' = f1"
  using assms by (auto simp: gf_ReadAt_def split: if_splits prod.splits option.splits)

text \<open>
  C2: a read of a file that succeeds returns exactly the bytes of that file in the layer: from
  \<open>offset\<close>, as many as the buffer takes and the file has. This holds whatever the registry
  sends, whatever was read before, with and without verification, and for every order of the
  goroutines that fetch the spans.
\<close>

theorem file_read_correct:
  assumes "blob_cache (se_cache env) ok cont" and "ztoc_of env zt z cdata udata" and "ok c" and "retries < max_int64"
    and "sm_New env zt r c retries = Inr m0" and "(sm_step env udata)\<^sup>*\<^sup>* m0 (gr_spanManager gr)"
    and "opened (gr_r gr) db e f" and "member_in udata e" and "0 \<le> offset" and "\<forall>n. set (sched n) = {0..<n}"
    and "gf_ReadAt env nxt sched now db f len offset gr = (gr', f', Inr d)"
  shows "d = sub udata (fm_UncompressedOffset e + offset) (fm_UncompressedOffset e + min (fm_UncompressedSize e) (offset + int len))"
proof -
  have "sm_inv ok cont env cdata udata m0" using sm_New_inv [where ok = ok, OF assms(2-5)] by blast
  then have inv: "sm_inv ok cont env cdata udata (gr_spanManager gr)"
    using blob_cache.sm_reachable_inv [OF assms(1) refl assms(6)] by blast
  obtain gr1 f1 where R: "gr_disableVerification gr \<and> gr1 = gr \<and> f1 = f \<or> gf_Verify env nxt sched db f gr = (gr1, f1, None)"
      "read_verified env sched now f1 len offset gr1 = (gr', Inr d)"
    using ReadAt_split [OF assms(11)] by metis
  have "sm_inv ok cont env cdata udata (gr_spanManager gr1)" "opened (gr_r gr) db e f1"
    using R(1) inv assms(7) blob_cache.Verify_reaches [OF assms(1) refl inv assms(7,8,10), of nxt gr1 f1 None]
    by (auto simp: opened_def)
  then show ?thesis using blob_cache.read_verified_sound [OF assms(1) refl _ _ assms(8,10,9) R(2)] by blast
qed

context live_blob_cache
begin

lemma contents_works:
  assumes "se_cache env = ops" and "sm_inv ok contents env cdata udata m" and "0 \<le> a" and "a \<le> b" and "b < int (length udata)"
    and "\<forall>n. set (sched n) = {0..<n}" and "serves env cdata"
  shows "\<exists>m'. GetContents env sched a b m = (m', Inr (sub udata a b)) \<and> sm_inv ok contents env cdata udata m'"
proof -
  obtain j where "UncompressedOffsetToSpanID (sm_zinfo m) b = Some j" "j \<le> zt_MaxSpanID (sm_ztoc m)"
    using span_of_end [OF assms(2) _ assms(5)] assms(3,4) by auto
  then show ?thesis using GetContents_works [OF assms(1-4) _ _ _ assms(6,7)] assms(5) by auto
qed

text \<open>What \<^const>\<open>gf_Verify\<close> says when the layer can be read and the header is where the entry says.\<close>

lemma Verify_result:
  assumes "se_cache env = ops" and "sm_inv ok contents env cdata udata (gr_spanManager gr)" and "opened (gr_r gr) db e f"
    and "member_in udata e" and "\<forall>n. set (sched n) = {0..<n}" and "serves env cdata" and "\<not> gf_verified f"
    and "nxt (sub udata (fm_TarHeaderOffset e) (fm_UncompressedOffset e)) =
      Some (h, nat (fm_UncompressedOffset e - fm_TarHeaderOffset e))" and "header_of e h"
  shows "\<exists>m' n. sm_inv ok contents env cdata udata m' \<and> gf_Verify env nxt sched db f gr =
    (if attrMatchesTarHeader (entry_attr e n) h then (gr\<lparr>gr_spanManager := m'\<rparr>, f\<lparr>gf_verified := True\<rparr>, None)
     else (gr\<lparr>gr_spanManager := m'\<rparr>, f, Some AttributesMismatch))"
proof -
  let ?off = "fm_TarHeaderOffset e" and ?hi = "fm_UncompressedOffset e"
  note O = openedD [OF assms(3)]
  have M: "0 \<le> ?off" "?off \<le> ?hi" "?hi < int (length udata)" "int (length udata) \<le> max_int64"
    using assms(4) by (auto simp: member_in_def)
  have w: "wrap64 (?hi - ?off) = ?hi - ?off" "wrap64 (?off + (?hi - ?off)) = ?hi" using M by (simp_all add: wrap64_id)
  obtain n where n: "GetAttr (gr_r gr) db (gf_id f) = Inr (entry_attr e n)" using O(6) by blast
  obtain m' where m': "GetContents env sched ?off ?hi (gr_spanManager gr) = (m', Inr (sub udata ?off ?hi))"
      "sm_inv ok contents env cdata udata m'"
    using contents_works [OF assms(1,2) M(1-3) assms(5,6)] by blast
  have "fm_Name e = h_Name h" using assms(9) by (simp add: header_of_def)
  then have "gf_Verify env nxt sched db f gr =
      (if attrMatchesTarHeader (entry_attr e n) h then (gr\<lparr>gr_spanManager := m'\<rparr>, f\<lparr>gf_verified := True\<rparr>, None)
       else (gr\<lparr>gr_spanManager := m'\<rparr>, f, Some AttributesMismatch))"
    using assms(7,8) n m'(1) O(1,4,5) w M by (simp add: gf_Verify_def Let_def)
  then show ?thesis using m'(2) by blast
qed

lemma read_verified_works:
  assumes "se_cache env = ops" and "sm_inv ok contents env cdata udata (gr_spanManager gr)" and "opened r db e f"
    and "member_in udata e" and "\<forall>n. set (sched n) = {0..<n}" and "0 \<le> offset" and "offset < fm_UncompressedSize e"
    and "serves env cdata"
  shows "\<exists>gr' d. read_verified env sched now f len offset gr = (gr', Inr d)"
proof (cases "len = 0")
  case False
  let ?a = "fm_UncompressedOffset e + offset" and ?n = "min (fm_UncompressedSize e - offset) (int len)"
  note O = openedD [OF assms(3)]
  have M: "0 \<le> fm_UncompressedOffset e" "fm_UncompressedOffset e + fm_UncompressedSize e < int (length udata)"
      "int (length udata) \<le> max_int64"
    using assms(4) by (auto simp: member_in_def)
  have n: "0 < ?n" "?a + ?n < int (length udata)" "0 \<le> ?a" using False M assms(6,7) by auto
  have w: "wrap64 (fm_UncompressedSize e - offset) = fm_UncompressedSize e - offset" "wrap64 ?a = ?a"
    using M n False assms(6,7) by (simp_all add: wrap64_id)
  have w3: "wrap64 (?a + ?n) = ?a + ?n" by (rule wrap64_id) (use M n in linarith)+
  obtain m' where m': "GetContents env sched ?a (?a + ?n) (gr_spanManager gr) = (m', Inr (sub udata ?a (?a + ?n)))"
    using contents_works [OF assms(1,2) n(3) _ n(2) assms(5,8)] n(1) by auto
  define k where "k = ?n"
  define b where "b = sub udata ?a (?a + ?n)"
  have "int (length b) = k" "0 < k" using n by (simp_all add: length_sub b_def k_def)
  then show ?thesis using m' [folded b_def k_def] w3 [folded k_def] False assms(7) O(2,3) w(1,2)
    by (simp add: read_verified_def Let_def k_def [symmetric])
qed (simp add: read_verified_def)

end

text \<open>
  C16: a regular file can be read: with a registry that serves the layer and a cache whose store
  works, the first read of an opened file passes the comparison with its tar header and returns
  the bytes of the file, provided the mode field of the header holds no type bits and no extended
  attribute is empty.
\<close>

theorem file_read_succeeds:
  assumes "live_blob_cache (se_cache env) ok cont" and "ztoc_of env zt z cdata udata" and "ok c" and "retries < max_int64"
    and "sm_New env zt r c retries = Inr m0" and "(sm_step env udata)\<^sup>*\<^sup>* m0 (gr_spanManager gr)" and "serves env cdata"
    and "opened (gr_r gr) db e f" and "member_in udata e" and "ent_ok e" and "0 \<le> offset" and "offset < fm_UncompressedSize e"
    and "\<forall>n. set (sched n) = {0..<n}" and "header_of e h" and "tar_mode_type (h_Mode h) = 0"
    and "list_all (\<lambda>(k, v). v \<noteq> '''') (entry_xattrs e)"
    and "nxt (sub udata (fm_TarHeaderOffset e) (fm_UncompressedOffset e)) =
      Some (h, nat (fm_UncompressedOffset e - fm_TarHeaderOffset e))"
  shows "\<exists>gr' f'. gf_ReadAt env nxt sched now db f len offset gr =
    (gr', f', Inr (sub udata (fm_UncompressedOffset e + offset) (fm_UncompressedOffset e + min (fm_UncompressedSize e) (offset + int len))))"
proof -
  note bc = live_blob_cache.axioms(1) [OF assms(1)]
  have "sm_inv ok cont env cdata udata m0" using sm_New_inv [where ok = ok, OF assms(2-5)] by blast
  then have inv: "sm_inv ok cont env cdata udata (gr_spanManager gr)"
    using blob_cache.sm_reachable_inv [OF bc refl assms(6)] by blast
  obtain m1 f1 where V: "sm_inv ok cont env cdata udata m1" "opened (gr_r gr) db e f1"
      "(if gr_disableVerification gr then (gr, f, None) else gf_Verify env nxt sched db f gr) = (gr\<lparr>gr_spanManager := m1\<rparr>, f1, None)"
  proof (cases "gr_disableVerification gr \<or> gf_verified f")
    case True
    then show ?thesis using that [of "gr_spanManager gr" f, OF inv assms(8)] by (auto simp: gf_Verify_def)
  next
    case False
    then obtain m' where "sm_inv ok cont env cdata udata m'"
        "gf_Verify env nxt sched db f gr = (gr\<lparr>gr_spanManager := m'\<rparr>, f\<lparr>gf_verified := True\<rparr>, None)"
      using live_blob_cache.Verify_result [where nxt = nxt, OF assms(1) refl inv assms(8,9,13,7) _ assms(17,14)]
        attr_matches [OF assms(14,15,10,16)] by auto
    then show ?thesis using that [of m' "f\<lparr>gf_verified := True\<rparr>"] False assms(8) by (simp add: opened_def)
  qed
  obtain gr' d where R: "read_verified env sched now f1 len offset (gr\<lparr>gr_spanManager := m1\<rparr>) = (gr', Inr d)"
    using live_blob_cache.read_verified_works [OF assms(1) refl _ V(2) assms(9,13,11,12,7), of "gr\<lparr>gr_spanManager := m1\<rparr>" now len]
      V(1) by auto
  have "d = sub udata (fm_UncompressedOffset e + offset) (fm_UncompressedOffset e + min (fm_UncompressedSize e) (offset + int len))"
    by (rule blob_cache.read_verified_sound [where cdata = cdata, OF bc refl _ V(2) assms(9,13,11) R]) (simp add: V(1))
  then show ?thesis using R V(3) by (simp add: gf_ReadAt_def)
qed

text \<open>
  C35: a file with two or more empty extended attributes cannot be read at all: the metadata store
  keeps at most one of them, so the number of attributes differs from that in the tar header and
  every read fails with a mismatch.
\<close>

theorem empty_xattrs_unreadable:
  assumes "live_blob_cache (se_cache env) ok cont" and "ztoc_of env zt z cdata udata" and "ok c" and "retries < max_int64"
    and "sm_New env zt r c retries = Inr m0" and "(sm_step env udata)\<^sup>*\<^sup>* m0 (gr_spanManager gr)" and "serves env cdata"
    and "opened (gr_r gr) db e f" and "member_in udata e" and "\<not> gf_verified f" and "\<not> gr_disableVerification gr"
    and "\<forall>n. set (sched n) = {0..<n}" and "header_of e h"
    and "1 < length (filter (\<lambda>(k, v). v = '''') (entry_xattrs e))"
    and "nxt (sub udata (fm_TarHeaderOffset e) (fm_UncompressedOffset e)) =
      Some (h, nat (fm_UncompressedOffset e - fm_TarHeaderOffset e))"
  shows "\<exists>gr'. gf_ReadAt env nxt sched now db f len offset gr = (gr', f, Inl AttributesMismatch)"
proof -
  have "sm_inv ok cont env cdata udata m0" using sm_New_inv [where ok = ok, OF assms(2-5)] by blast
  then have inv: "sm_inv ok cont env cdata udata (gr_spanManager gr)"
    using blob_cache.sm_reachable_inv [OF live_blob_cache.axioms(1) [OF assms(1)] refl assms(6)] by blast
  obtain m' where "gf_Verify env nxt sched db f gr = (gr\<lparr>gr_spanManager := m'\<rparr>, f, Some AttributesMismatch)"
    using live_blob_cache.Verify_result [where nxt = nxt, OF assms(1) refl inv assms(8,9,12,7,10,15,13)] attr_mismatch [OF assms(13,14)] by auto
  then show ?thesis using assms(11) by (simp add: gf_ReadAt_def)
qed

section \<open>Sample files\<close>

lemma opened_exists:
  assumes "serves_entry r db e" and "\<not> is_link e" and "IsRegular (FileMode e)"
  shows "\<exists>f. opened r db e f \<and> \<not> gf_verified f \<and> gr_OpenFile (gr_NewReader r m d) db (gf_id f) = Inr f"
proof -
  obtain i fr where i: "lookup_path r db (r_rootID r) (epath e) = Inr i" "OpenFile r db i = Inr fr"
    using assms unfolding serves_entry_def by auto
  let ?f = "\<lparr>gf_id = i, gf_fr = fr, gf_verified = False\<rparr>"
  have "opened r db e ?f" "gr_OpenFile (gr_NewReader r m d) db (gf_id ?f) = Inr ?f"
    using assms(1,2) i by (simp_all add: opened_def gr_OpenFile_def gr_NewReader_def)
  then show ?thesis by (intro exI [of _ ?f]) simp
qed

definition ten_header :: "headers \<Rightarrow> tarHeader" where
  "ten_header pax = \<lparr>h_Name = ''a'', h_Typeflag = 48, h_Size = 3, h_Linkname = '''', h_Mode = 420, h_Uid = 0, h_Gid = 0,
     h_Uname = '''', h_Gname = '''', h_ModTime = 7, h_Devmajor = 0, h_Devminor = 0, h_PAXRecords = pax\<rparr>"

definition ten_file :: "headers \<Rightarrow> fileMetadata" where
  "ten_file pax = (sample_entry ''a'' ''reg'' '''' 2)\<lparr>fm_TarHeaderOffset := 0, fm_PAXHeaders := pax\<rparr>"

definition two_empty :: headers where
  "two_empty = [(''SCHILY.xattr.user.a'', ''''), (''SCHILY.xattr.user.b'', '''')]"

lemma ten_file_facts:
  "member_in ten (ten_file pax)" "header_of (ten_file pax) (ten_header pax)" "\<not> is_link (ten_file pax)"
  "fm_UncompressedOffset (ten_file pax) = 2" "fm_TarHeaderOffset (ten_file pax) = 0" "fm_UncompressedSize (ten_file pax) = 3"
  "fm_PAXHeaders (ten_file pax) = pax"
  by (simp_all add: member_in_def ten_file_def sample_entry_def ten_def header_of_def ten_header_def getType_def)

lemma ten_file_regular: "IsRegular (FileMode (ten_file pax))"
  by (simp add: IsRegular_def ModeType_def FileMode_def tar_mode_bits_def mode_defs ten_file_def sample_entry_def)

lemma two_empty_xattrs: "Xattrs two_empty = Some [(''user.a'', ''''), (''user.b'', '''')]"
  by (simp add: two_empty_def Xattrs_def schilyXattrPrefix_def)

lemma ten_file_ok: "ent_ok (ten_file [])" "ent_ok (ten_file two_empty)"
  by (simp_all add: ent_ok_def ten_file_def sample_entry_def comps_def clean_step_def attr_ok_def attrFromZtocEntry_def
      xattrs_ok_def two_empty_xattrs bolt_Put_def Xattrs_def [of "[]"])

lemma ten_toc_ok: "ent_ok (ten_file pax) \<Longrightarrow> toc_ok [ten_file pax]"
  by (simp add: toc_ok_def ten_file_facts strict_prefix_def)
     (simp add: ten_file_def sample_entry_def comps_def clean_step_def)

lemma ten_opened:
  assumes "ent_ok (ten_file pax)"
  obtains r db f where "opened r db (ten_file pax) f" and "\<not> gf_verified f"
    and "gr_OpenFile (gr_NewReader r m d) db (gf_id f) = Inr f"
proof -
  obtain r db where "serves_entry r db (ten_file pax)"
    using md_init_serves [OF ten_toc_ok [OF assms], of None "''fs1''" "[]" 0] by auto
  from opened_exists [OF this ten_file_facts(3) ten_file_regular, of m d] show ?thesis using that by blast
qed

lemmas ten_live = mem_cache.live_blob_cache_axioms [folded ten_cache]
lemmas ten_blob_cache = mem_cache.blob_cache_axioms [folded ten_cache]

theorem file_read_correct_witness:
  "\<exists>m0 r db f gr' f'. sm_New ten_env ten_ztoc () NewMemoryCache 3 = Inr m0 \<and>
     gr_OpenFile (gr_NewReader r m0 True) db (gf_id f) = Inr f \<and>
     gf_ReadAt ten_env (\<lambda>b. None) (\<lambda>n. rev [0..<n]) 0 db f 8 1 (gr_NewReader r m0 True) = (gr', f', Inr [3, 4])"
proof -
  obtain m0 where m0: "sm_New ten_env ten_ztoc () NewMemoryCache 3 = Inr m0" using ten_New .
  obtain r db f where f: "opened r db (ten_file []) f" "gr_OpenFile (gr_NewReader r m0 True) db (gf_id f) = Inr f"
    using ten_opened [OF ten_file_ok(1), of m0 True] by metis
  let ?gr = "gr_NewReader r m0 True"
  have gr: "gr_spanManager ?gr = m0" "gr_r ?gr = r" "gr_disableVerification ?gr" by (simp_all add: gr_NewReader_def)
  have inv: "sm_inv (\<lambda>c. True) Membuf ten_env ten ten (gr_spanManager ?gr)"
    using sm_New_inv [where ok = "\<lambda>c. True", OF ten_ztoc_of _ _ m0] gr(1) by auto
  obtain gr' d where g: "read_verified ten_env (\<lambda>n. rev [0..<n]) 0 f 8 1 ?gr = (gr', Inr d)"
    using live_blob_cache.read_verified_works [OF ten_live refl inv f(1) ten_file_facts(1) _ _ _ ten_serves, of "\<lambda>n. rev [0..<n]" 1 0 8]
    by (auto simp: ten_file_facts)
  then have R: "gf_ReadAt ten_env (\<lambda>b. None) (\<lambda>n. rev [0..<n]) 0 db f 8 1 ?gr = (gr', f, Inr d)"
    using gr(3) by (simp add: gf_ReadAt_def)
  have "d = sub ten 3 5"
    using file_read_correct [OF ten_blob_cache ten_ztoc_of _ _ m0 _ _ ten_file_facts(1) _ _ R] gr f(1)
    by (simp add: ten_file_facts)
  then have "d = [3, 4]" by (simp add: ten_def sub_def)
  then show ?thesis using m0 f(2) R by blast
qed

theorem file_read_succeeds_witness:
  "\<exists>m0 r db f gr' f'. sm_New ten_env ten_ztoc () NewMemoryCache 3 = Inr m0 \<and>
     gr_OpenFile (gr_NewReader r m0 False) db (gf_id f) = Inr f \<and>
     gf_ReadAt ten_env (\<lambda>b. Some (ten_header [], 2)) (\<lambda>n. [0..<n]) 0 db f 2 0 (gr_NewReader r m0 False) = (gr', f', Inr [2, 3])"
proof -
  obtain m0 where m0: "sm_New ten_env ten_ztoc () NewMemoryCache 3 = Inr m0" using ten_New .
  obtain r db f where f: "opened r db (ten_file []) f" "gr_OpenFile (gr_NewReader r m0 False) db (gf_id f) = Inr f"
    using ten_opened [OF ten_file_ok(1), of m0 False] by metis
  let ?gr = "gr_NewReader r m0 False"
  have gr: "gr_spanManager ?gr = m0" "gr_r ?gr = r" by (simp_all add: gr_NewReader_def)
  have "\<exists>gr' f'. gf_ReadAt ten_env (\<lambda>b. Some (ten_header [], 2)) (\<lambda>n. [0..<n]) 0 db f 2 0 ?gr = (gr', f',
      Inr (sub ten (fm_UncompressedOffset (ten_file []) + 0)
        (fm_UncompressedOffset (ten_file []) + min (fm_UncompressedSize (ten_file [])) (0 + int 2))))"
    by (rule file_read_succeeds [OF ten_live ten_ztoc_of _ _ m0 _ ten_serves _ ten_file_facts(1) ten_file_ok(1) _ _ _ ten_file_facts(2)])
       (simp_all add: gr f(1) ten_file_facts tar_mode_type_def ten_header_def Xattrs_def)
  moreover have "sub ten (fm_UncompressedOffset (ten_file []) + 0)
      (fm_UncompressedOffset (ten_file []) + min (fm_UncompressedSize (ten_file [])) (0 + int 2)) = [2, 3]"
    by (simp add: ten_file_facts ten_def sub_def)
  ultimately show ?thesis using m0 f(2) by metis
qed

theorem empty_xattrs_unreadable_witness:
  "\<exists>m0 r db f gr'. sm_New ten_env ten_ztoc () NewMemoryCache 3 = Inr m0 \<and>
     gr_OpenFile (gr_NewReader r m0 False) db (gf_id f) = Inr f \<and>
     gf_ReadAt ten_env (\<lambda>b. Some (ten_header two_empty, 2)) (\<lambda>n. [0..<n]) 0 db f 2 0 (gr_NewReader r m0 False) =
       (gr', f, Inl AttributesMismatch)"
proof -
  obtain m0 where m0: "sm_New ten_env ten_ztoc () NewMemoryCache 3 = Inr m0" using ten_New .
  obtain r db f where f: "opened r db (ten_file two_empty) f" "\<not> gf_verified f"
      "gr_OpenFile (gr_NewReader r m0 False) db (gf_id f) = Inr f"
    using ten_opened [OF ten_file_ok(2), of m0 False] by metis
  let ?gr = "gr_NewReader r m0 False"
  have gr: "gr_spanManager ?gr = m0" "gr_r ?gr = r" "\<not> gr_disableVerification ?gr" by (simp_all add: gr_NewReader_def)
  have "\<exists>gr'. gf_ReadAt ten_env (\<lambda>b. Some (ten_header two_empty, 2)) (\<lambda>n. [0..<n]) 0 db f 2 0 ?gr = (gr', f, Inl AttributesMismatch)"
    by (rule empty_xattrs_unreadable [OF ten_live ten_ztoc_of _ _ m0 _ ten_serves _ ten_file_facts(1) f(2) gr(3) _ ten_file_facts(2)])
       (simp_all add: gr f(1) ten_file_facts two_empty_xattrs)
  then show ?thesis using m0 f(3) by blast
qed

end
