(* ===== verification/Idmap.thy ===== *)
theory Idmap
  imports Prelude
begin

text \<open>
  Translation of container user and group IDs to host IDs (\<^verbatim>\<open>idtools/idmap.go\<close>): the mapping
  ranges with their 32-bit overflow checks, the parser of the snapshot labels, and the walk that
  changes the owners of a directory tree. Files are paths to inodes, so that hard links share one
  owner.
\<close>

section \<open>Mapping one ID\<close>

record linuxIDMapping =
  ContainerID :: "32 word"
  HostID :: "32 word"
  Size :: "32 word"

record user =
  Uid :: "32 word"
  Gid :: "32 word"

record iDMap =
  UidMap :: "linuxIDMapping list"
  GidMap :: "linuxIDMapping list"

datatype id_error = IDOverflow | CannotBeMapped "32 word" | Unparsable string | InvalidMapping string

definition invalidID :: "32 word" where
  "invalidID = 4294967295"

definition invalidUser :: user where
  "invalidUser = \<lparr>Uid = invalidID, Gid = invalidID\<rparr>"

definition safeSum :: "32 word \<Rightarrow> 32 word \<Rightarrow> id_error + 32 word" where
  "safeSum x y = (let z = x + y in if z < x \<or> z < y then Inl IDOverflow else Inr z)"

text \<open>The loop leaves with an error at the first range that overflows and at the first range of the ID.\<close>

fun toHost_loop :: "32 word \<Rightarrow> linuxIDMapping list \<Rightarrow> id_error + 32 word" where
  "toHost_loop contID [] = Inl (CannotBeMapped contID)"
| "toHost_loop contID (m # ms) =
     (case safeSum (ContainerID m) (Size m) of
        Inl e \<Rightarrow> Inl (CannotBeMapped contID)
      | Inr high \<Rightarrow>
          if ContainerID m \<le> contID \<and> contID < high
          then (case safeSum (HostID m) (contID - ContainerID m) of
                  Inl e \<Rightarrow> Inl (CannotBeMapped contID)
                | Inr hostID \<Rightarrow> if hostID = invalidID then Inl (CannotBeMapped contID) else Inr hostID)
          else toHost_loop contID ms)"

text \<open>A list without elements is the nil slice: \<^verbatim>\<open>Unmarshal\<close> only ever appends.\<close>

definition toHost :: "32 word \<Rightarrow> linuxIDMapping list \<Rightarrow> id_error + 32 word" where
  "toHost contID idMap = (if idMap = [] then Inr contID else toHost_loop contID idMap)"

definition idmap_Empty :: "iDMap \<Rightarrow> bool" where
  "idmap_Empty i \<longleftrightarrow> length (UidMap i) = 0 \<and> length (GidMap i) = 0"

text \<open>The result is a pair in Go: with an error comes the invalid user.\<close>

definition ToHost :: "iDMap \<Rightarrow> user \<Rightarrow> user \<times> id_error option" where
  "ToHost i pair =
     (if idmap_Empty i then (pair, None)
      else case toHost (Uid pair) (UidMap i) of
             Inl e \<Rightarrow> (invalidUser, Some e)
           | Inr u \<Rightarrow> (case toHost (Gid pair) (GidMap i) of
                         Inl e \<Rightarrow> (invalidUser, Some e)
                       | Inr g \<Rightarrow> (\<lparr>Uid = u, Gid = g\<rparr>, None)))"

section \<open>Labels\<close>

text \<open>
  \<^verbatim>\<open>fmt.Sscanf\<close> with the verb \<^verbatim>\<open>%d\<close>: spaces are skipped, then a sign and the longest
  run of digits are read as a 64-bit integer. Input after the last verb is ignored.
\<close>

definition is_digit :: "char \<Rightarrow> bool" where
  "is_digit c \<longleftrightarrow> 48 \<le> (of_char c :: nat) \<and> (of_char c :: nat) \<le> 57"

definition digits_val :: "string \<Rightarrow> int" where
  "digits_val ds = foldl (\<lambda>n c. 10 * n + (of_char c - 48)) 0 ds"

definition scan_int :: "string \<Rightarrow> (int \<times> string) option" where
  "scan_int s0 =
     (let s = dropWhile (\<lambda>c. c = CHR '' '') s0;
          (neg, s1) = (case s of [] \<Rightarrow> (False, s)
             | c # r \<Rightarrow> if c = CHR ''-'' then (True, r) else if c = CHR ''+'' then (False, r) else (False, s));
          ds = takeWhile is_digit s1;
          n = (if neg then - digits_val ds else digits_val ds)
      in if ds = [] \<or> \<not> in64 n then None else Some (n, dropWhile is_digit s1))"

definition scan_lit :: "char \<Rightarrow> string \<Rightarrow> string option" where
  "scan_lit c s = (case s of [] \<Rightarrow> None | d # r \<Rightarrow> if d = c then Some r else None)"

definition scan_mapping :: "string \<Rightarrow> (int \<times> int \<times> int) option" where
  "scan_mapping s =
     (case scan_int s of None \<Rightarrow> None
      | Some (a, s1) \<Rightarrow> (case scan_lit CHR '':'' s1 of None \<Rightarrow> None
        | Some s2 \<Rightarrow> (case scan_int s2 of None \<Rightarrow> None
          | Some (b, s3) \<Rightarrow> (case scan_lit CHR '':'' s3 of None \<Rightarrow> None
            | Some s4 \<Rightarrow> (case scan_int s4 of None \<Rightarrow> None | Some (c, s5) \<Rightarrow> Some (a, b, c))))))"

definition deserializeLinuxIDMapping :: "string \<Rightarrow> id_error + linuxIDMapping" where
  "deserializeLinuxIDMapping str =
     (case scan_mapping str of None \<Rightarrow> Inl (Unparsable str)
      | Some (ctrID, hostID, len) \<Rightarrow>
          if ctrID < 0 \<or> ctrID \<ge> 4294967295 \<or> hostID < 0 \<or> hostID \<ge> 4294967295 \<or> len < 0 \<or> len \<ge> 4294967295
          then Inl (InvalidMapping str)
          else Inr \<lparr>ContainerID = word_of_int ctrID, HostID = word_of_int hostID, Size = word_of_int len\<rparr>)"

fun split_on :: "char \<Rightarrow> string \<Rightarrow> string list" where
  "split_on sep [] = [[]]"
| "split_on sep (c # s) = (if c = sep then [] # split_on sep s
     else (case split_on sep s of [] \<Rightarrow> [[c]] | w # ws \<Rightarrow> (c # w) # ws))"

fun unmarshal_all :: "string list \<Rightarrow> linuxIDMapping list \<Rightarrow> id_error + linuxIDMapping list" where
  "unmarshal_all [] acc = Inr acc"
| "unmarshal_all (s # ss) acc = bind_res (deserializeLinuxIDMapping s) (\<lambda>m. unmarshal_all ss (acc @ [m]))"

definition unmarshal_map :: "string \<Rightarrow> linuxIDMapping list \<Rightarrow> id_error + linuxIDMapping list" where
  "unmarshal_map str acc = (if str = [] then Inr acc else unmarshal_all (split_on CHR '','' str) acc)"

definition idmap_Unmarshal :: "iDMap \<Rightarrow> string \<Rightarrow> string \<Rightarrow> id_error + iDMap" where
  "idmap_Unmarshal i uidMap gidMap =
     bind_res (unmarshal_map uidMap (UidMap i)) (\<lambda>u.
     bind_res (unmarshal_map gidMap (GidMap i)) (\<lambda>g. Inr \<lparr>UidMap = u, GidMap = g\<rparr>))"

definition LabelSnapshotUIDMapping :: string where
  "LabelSnapshotUIDMapping = ''containerd.io/snapshot/uidmapping''"

definition LabelSnapshotGIDMapping :: string where
  "LabelSnapshotGIDMapping = ''containerd.io/snapshot/gidmapping''"

definition LoadIDMap :: "(string \<rightharpoonup> string) \<Rightarrow> id_error + iDMap" where
  "LoadIDMap labels =
     (case (labels LabelSnapshotUIDMapping, labels LabelSnapshotGIDMapping) of
        (Some u, Some g) \<Rightarrow> idmap_Unmarshal \<lparr>UidMap = [], GidMap = []\<rparr> u g
      | _ \<Rightarrow> Inr \<lparr>UidMap = [], GidMap = []\<rparr>)"

section \<open>Changing the owners of a tree\<close>

record inode =
  in_user :: user
  in_mode :: "32 word"

definition ModeSymlink_bit :: "32 word" where
  "ModeSymlink_bit = push_bit 27 1"

definition special_bits :: "32 word" where
  "special_bits = or (push_bit 23 1) (or (push_bit 22 1) (push_bit 20 1))"

datatype walk_error = MapError id_error | LchownFailed string | ChmodFailed string

text \<open>
  What the system does: whether \<^verbatim>\<open>Lchown\<close> and \<^verbatim>\<open>Chmod\<close> of a path succeed, and which mode
  bits the kernel leaves to a file whose owner changes.
\<close>

record chown_env =
  ce_lchown :: "string \<Rightarrow> bool"
  ce_chmod :: "string \<Rightarrow> bool"
  ce_kept :: "32 word \<Rightarrow> 32 word"

definition chown :: "chown_env \<Rightarrow> iDMap \<Rightarrow> string \<Rightarrow> inode \<Rightarrow> walk_error option \<times> inode" where
  "chown env idMap path info =
     (case ToHost idMap (in_user info) of
        (h, Some e) \<Rightarrow> (Some (MapError e), info)
      | (h, None) \<Rightarrow>
          if \<not> ce_lchown env path then (Some (LchownFailed path), info)
          else let info1 = info\<lparr>in_user := h, in_mode := ce_kept env (in_mode info)\<rparr> in
               if and (in_mode info) ModeSymlink_bit = 0 \<and> and (in_mode info) special_bits \<noteq> 0
               then if ce_chmod env path then (None, info1\<lparr>in_mode := in_mode info\<rparr>) else (Some (ChmodFailed path), info1)
               else (None, info1))"

text \<open>
  \<^verbatim>\<open>filepath.Walk\<close> visits the paths in order and reads the inode of each when it comes to it; it stops
  at the first error.
\<close>

fun RemapRoot ::
    "chown_env \<Rightarrow> iDMap \<Rightarrow> (string \<times> nat) list \<Rightarrow> (nat \<Rightarrow> inode) \<Rightarrow> walk_error option \<times> (nat \<Rightarrow> inode)" where
  "RemapRoot env idMap [] st = (None, st)"
| "RemapRoot env idMap ((path, i) # tree) st =
     (case chown env idMap path (st i) of
        (Some e, n) \<Rightarrow> (Some e, st(i := n))
      | (None, n) \<Rightarrow> RemapRoot env idMap tree (st(i := n)))"

section \<open>Mapped IDs\<close>

definition range_of :: "linuxIDMapping \<Rightarrow> nat set" where
  "range_of m = {unat (ContainerID m)..<unat (ContainerID m) + unat (Size m)}"

definition host_range :: "linuxIDMapping \<Rightarrow> nat set" where
  "host_range m = {unat (HostID m)..<unat (HostID m) + unat (Size m)}"

lemma unat32_less: "unat (x :: 32 word) < 4294967296"
proof -
  have "unat x < 2 ^ LENGTH(32)" by (rule unsigned_less)
  then show ?thesis by simp
qed

lemma safeSum_Inr: "safeSum x y = Inr z \<longleftrightarrow> unat z = unat x + unat y"
proof -
  have "unat (x + y) = (unat x + unat y) mod 4294967296" by (simp add: unat_word_ariths)
  moreover have b: "unat x < 4294967296" "unat y < 4294967296" "unat z < 4294967296"
    using unat32_less by blast+
  moreover have "(unat x + unat y) mod 4294967296 =
      (if unat x + unat y < 4294967296 then unat x + unat y else unat x + unat y - 4294967296)"
    using b by (simp add: mod_if)
  ultimately have "\<not> (x + y < x \<or> x + y < y) \<longleftrightarrow> unat (x + y) = unat x + unat y"
    by (auto simp: word_less_nat_alt split: if_splits)
  moreover have "unat z = unat x + unat y \<Longrightarrow> unat (x + y) = unat x + unat y"
    using \<open>unat (x + y) = _\<close> b(3) by simp
  ultimately show ?thesis by (auto simp: safeSum_def Let_def word_unat_eq_iff)
qed

lemma toHost_loop_sound:
  "toHost_loop c ms = Inr h \<Longrightarrow> \<exists>m \<in> set ms. unat c \<in> range_of m \<and> unat h \<in> host_range m \<and>
     unat h + unat (ContainerID m) = unat (HostID m) + unat c \<and> h \<noteq> invalidID"
proof (induction ms)
  case (Cons m ms)
  show ?case
  proof (cases "\<exists>high. safeSum (ContainerID m) (Size m) = Inr high \<and> ContainerID m \<le> c \<and> c < high")
    case True
    then obtain high where hi: "unat high = unat (ContainerID m) + unat (Size m)" "ContainerID m \<le> c" "c < high"
        "safeSum (ContainerID m) (Size m) = Inr high"
      using safeSum_Inr by blast
    then have "safeSum (HostID m) (c - ContainerID m) = Inr h" "h \<noteq> invalidID"
      using Cons.prems by (auto split: sum.splits if_splits)
    moreover have "unat (c - ContainerID m) = unat c - unat (ContainerID m)" using hi(2) by (rule unat_sub)
    ultimately show ?thesis
      using hi(1-3) safeSum_Inr [of "HostID m" "c - ContainerID m" h]
      by (auto simp: range_of_def host_range_def word_le_nat_alt word_less_nat_alt)
  next
    case False
    then have "toHost_loop c ms = Inr h" using Cons.prems by (auto split: sum.splits if_splits)
    then show ?thesis using Cons.IH by auto
  qed
qed simp

text \<open>The ranges of a mapping do not overlap, neither in the container nor on the host.\<close>

definition disjoint_ranges :: "linuxIDMapping list \<Rightarrow> bool" where
  "disjoint_ranges ms \<longleftrightarrow> (\<forall>i < length ms. \<forall>j < length ms. i \<noteq> j \<longrightarrow> host_range (ms ! i) \<inter> host_range (ms ! j) = {})"

lemma toHost_loop_inject:
  assumes "disjoint_ranges ms" and "toHost_loop c ms = Inr h" and "toHost_loop c' ms = Inr h"
  shows "c = c'"
proof -
  obtain i where i: "i < length ms" "unat h \<in> host_range (ms ! i)"
      "unat h + unat (ContainerID (ms ! i)) = unat (HostID (ms ! i)) + unat c"
    using toHost_loop_sound [OF assms(2)] by (metis in_set_conv_nth)
  obtain j where j: "j < length ms" "unat h \<in> host_range (ms ! j)"
      "unat h + unat (ContainerID (ms ! j)) = unat (HostID (ms ! j)) + unat c'"
    using toHost_loop_sound [OF assms(3)] by (metis in_set_conv_nth)
  have "i = j" using assms(1) i(1,2) j(1,2) unfolding disjoint_ranges_def by blast
  then show ?thesis using i(3) j(3) by (simp add: word_unat_eq_iff)
qed

text \<open>
  C24: with mappings whose host ranges do not overlap, two different users of the container never
  become the same host user, no user becomes the invalid one, and each ID is translated by a range
  that contains it, at the same distance from the start, without wrapping around.
\<close>

theorem ToHost_injective:
  assumes "\<not> idmap_Empty i" and "UidMap i \<noteq> []" and "GidMap i \<noteq> []"
    and "disjoint_ranges (UidMap i)" and "disjoint_ranges (GidMap i)"
    and "ToHost i p = (h, None)"
  shows "h \<noteq> invalidUser \<and> (\<forall>q. ToHost i q = (h, None) \<longrightarrow> q = p) \<and>
    (\<exists>m \<in> set (UidMap i). unat (Uid p) \<in> range_of m \<and> unat (Uid h) + unat (ContainerID m) = unat (HostID m) + unat (Uid p)) \<and>
    (\<exists>m \<in> set (GidMap i). unat (Gid p) \<in> range_of m \<and> unat (Gid h) + unat (ContainerID m) = unat (HostID m) + unat (Gid p))"
proof -
  have T: "toHost_loop (Uid q) (UidMap i) = Inr (Uid h) \<and> toHost_loop (Gid q) (GidMap i) = Inr (Gid h)"
    if "ToHost i q = (h, None)" for q
    using that assms(1-3) by (auto simp: ToHost_def toHost_def split: sum.splits)
  note T = T [THEN conjunct1] T [THEN conjunct2]
  have "q = p" if "ToHost i q = (h, None)" for q
    using toHost_loop_inject [OF assms(4) T(1) [OF that] T(1) [OF assms(6)]]
      toHost_loop_inject [OF assms(5) T(2) [OF that] T(2) [OF assms(6)]] by (cases p, cases q) simp
  moreover have "h \<noteq> invalidUser" using toHost_loop_sound [OF T(1) [OF assms(6)]] by (auto simp: invalidUser_def)
  ultimately show ?thesis
    using toHost_loop_sound [OF T(1) [OF assms(6)]] toHost_loop_sound [OF T(2) [OF assms(6)]] by blast
qed

definition sample_idmap :: iDMap where
  "sample_idmap = \<lparr>UidMap = [\<lparr>ContainerID = 0, HostID = 1000, Size = 2\<rparr>, \<lparr>ContainerID = 2, HostID = 5000, Size = 100\<rparr>],
     GidMap = [\<lparr>ContainerID = 0, HostID = 1000, Size = 200\<rparr>]\<rparr>"

theorem ToHost_injective_witness:
  "ToHost sample_idmap \<lparr>Uid = 3, Gid = 4\<rparr> = (\<lparr>Uid = 5001, Gid = 1004\<rparr>, None) \<and>
   ToHost sample_idmap \<lparr>Uid = 1, Gid = 4\<rparr> \<noteq> (\<lparr>Uid = 5001, Gid = 1004\<rparr>, None)"
proof -
  have t: "ToHost sample_idmap \<lparr>Uid = 3, Gid = 4\<rparr> = (\<lparr>Uid = 5001, Gid = 1004\<rparr>, None)"
    by (simp add: sample_idmap_def ToHost_def idmap_Empty_def toHost_def safeSum_def invalidID_def Let_def)
  have d: "disjoint_ranges (UidMap sample_idmap)" "disjoint_ranges (GidMap sample_idmap)"
    by (auto simp: disjoint_ranges_def sample_idmap_def host_range_def less_Suc_eq nth_Cons')
  have ne: "\<not> idmap_Empty sample_idmap" "UidMap sample_idmap \<noteq> []" "GidMap sample_idmap \<noteq> []"
    by (simp_all add: idmap_Empty_def sample_idmap_def)
  have "ToHost sample_idmap \<lparr>Uid = 1, Gid = 4\<rparr> = (\<lparr>Uid = 5001, Gid = 1004\<rparr>, None) \<Longrightarrow>
      \<lparr>Uid = 1, Gid = 4\<rparr> = \<lparr>Uid = 3 :: 32 word, Gid = 4\<rparr>"
    using ToHost_injective [OF ne d t] by blast
  moreover have "\<lparr>Uid = 1, Gid = 4\<rparr> \<noteq> \<lparr>Uid = 3 :: 32 word, Gid = 4\<rparr>" by simp
  ultimately show ?thesis using t by blast
qed

text \<open>A file whose owner was changed once.\<close>

lemma RemapRoot_frame: "i \<notin> snd ` set tree \<Longrightarrow> RemapRoot env m tree st = (r, st') \<Longrightarrow> st' i = st i"
  by (induction env m tree st rule: RemapRoot.induct) (auto split: prod.splits option.splits)

lemma chown_ok:
  assumes "chown env m path info = (None, n)"
  shows "ToHost m (in_user info) = (in_user n, None)"
    and "and (in_mode info) ModeSymlink_bit = 0 \<and> and (in_mode info) special_bits \<noteq> 0 \<Longrightarrow> in_mode n = in_mode info"
  using assms by (auto simp: chown_def Let_def split: prod.splits option.splits if_splits)

text \<open>
  When no two paths of a tree share an inode and the walk succeeds, every file has the host
  owner of its container owner, and files with setuid, setgid or sticky bits keep their mode.
\<close>

theorem RemapRoot_maps_once:
  assumes "distinct (map snd tree)" and "RemapRoot env m tree st = (None, st')" and "(path, i) \<in> set tree"
  shows "ToHost m (in_user (st i)) = (in_user (st' i), None) \<and>
    (and (in_mode (st i)) ModeSymlink_bit = 0 \<and> and (in_mode (st i)) special_bits \<noteq> 0 \<longrightarrow> in_mode (st' i) = in_mode (st i))"
  using assms
proof (induction env m tree st rule: RemapRoot.induct)
  case (2 env m p j tree st)
  obtain n where n: "chown env m p (st j) = (None, n)" "RemapRoot env m tree (st(j := n)) = (None, st')"
    using "2.prems"(2) by (auto split: prod.splits option.splits)
  show ?case
  proof (cases "i = j")
    case True
    have "st' j = n" using RemapRoot_frame [OF _ n(2), of j] "2.prems"(1) by simp
    then show ?thesis using chown_ok [OF n(1)] True by auto
  next
    case False
    have "(path, i) \<in> set tree" using False "2.prems"(3) by auto
    then show ?thesis using "2.IH" [OF n(1) [symmetric] refl _ n(2)] "2.prems"(1) False by simp
  qed
qed simp

theorem RemapRoot_maps_once_witness:
  "\<exists>st'. RemapRoot \<lparr>ce_lchown = \<lambda>p. True, ce_chmod = \<lambda>p. True, ce_kept = \<lambda>m. m\<rparr> sample_idmap [(''/a'', 7)]
       (\<lambda>i. \<lparr>in_user = \<lparr>Uid = 0, Gid = 0\<rparr>, in_mode = 420\<rparr>) = (None, st') \<and>
     ToHost sample_idmap \<lparr>Uid = 0, Gid = 0\<rparr> = (in_user (st' 7), None)"
proof -
  let ?env = "\<lparr>ce_lchown = \<lambda>p. True, ce_chmod = \<lambda>p. True, ce_kept = \<lambda>m. m\<rparr>"
  let ?st = "\<lambda>i :: nat. \<lparr>in_user = \<lparr>Uid = 0, Gid = 0\<rparr>, in_mode = 420\<rparr>"
  have "\<exists>st'. RemapRoot ?env sample_idmap [(''/a'', 7)] ?st = (None, st')"
    by (simp add: chown_def ToHost_def sample_idmap_def idmap_Empty_def toHost_def safeSum_def invalidID_def Let_def)
  then obtain st' where r: "RemapRoot ?env sample_idmap [(''/a'', 7)] ?st = (None, st')" by blast
  show ?thesis using RemapRoot_maps_once [OF _ r, of "''/a''" 7] r by auto
qed

text \<open>Two paths of one inode: the owner is mapped twice.\<close>

lemma RemapRoot_hard_link:
  "\<exists>st'. RemapRoot \<lparr>ce_lchown = \<lambda>p. True, ce_chmod = \<lambda>p. True, ce_kept = \<lambda>m. m\<rparr>
      \<lparr>UidMap = [\<lparr>ContainerID = 0, HostID = 1, Size = 10\<rparr>], GidMap = []\<rparr> [(''/a'', 7), (''/b'', 7)]
      (\<lambda>i. \<lparr>in_user = \<lparr>Uid = 0, Gid = 0\<rparr>, in_mode = 420\<rparr>) = (None, st') \<and> Uid (in_user (st' 7)) = 2"
  by (simp add: chown_def ToHost_def idmap_Empty_def toHost_def safeSum_def invalidID_def Let_def)

end
