(* ===== verification/Fuse_Node.thy ===== *)
theory Fuse_Node
  imports File_Reader Idmap "HOL-Library.List_Lexorder" "HOL-Library.Char_ord"
begin

text \<open>
  The FUSE file system of a layer (\<^verbatim>\<open>fs/layer/node.go\<close>): inode numbers, directory listings,
  lookups with overlayfs whiteouts, attributes and the state directory. The inodes that go-fuse
  keeps in memory below a node are an argument of \<^verbatim>\<open>Lookup\<close>; messages of reported errors are
  reduced to the operation that failed.
\<close>

section \<open>Constants and attributes\<close>

definition blockSize :: "64 word" where "blockSize = 4096"
definition physicalBlockRatio :: "64 word" where "physicalBlockRatio = 8"
definition whiteoutPrefix :: string where "whiteoutPrefix = ''.wh.''"
definition whiteoutOpaqueDir :: string where "whiteoutOpaqueDir = ''.wh..wh..opq''"
definition opaqueXattrValue :: string where "opaqueXattrValue = ''y''"
definition stateDirName :: string where "stateDirName = ''.soci-snapshotter''"

definition S_IFBLK :: "32 word" where "S_IFBLK = 24576"
definition S_IFCHR :: "32 word" where "S_IFCHR = 8192"
definition S_IFDIR :: "32 word" where "S_IFDIR = 16384"
definition S_IFIFO :: "32 word" where "S_IFIFO = 4096"
definition S_IFLNK :: "32 word" where "S_IFLNK = 40960"
definition S_IFSOCK :: "32 word" where "S_IFSOCK = 49152"
definition S_IFREG :: "32 word" where "S_IFREG = 32768"

lemmas S_IF_defs = S_IFBLK_def S_IFCHR_def S_IFDIR_def S_IFIFO_def S_IFLNK_def S_IFSOCK_def S_IFREG_def

definition statFileMode :: "32 word" where "statFileMode = or S_IFREG 256"
definition stateDirMode :: "32 word" where "stateDirMode = or S_IFDIR 320"

datatype overlayOpaqueType = OverlayOpaqueAll | OverlayOpaqueTrusted | OverlayOpaqueUser

fun opaqueXattrs :: "overlayOpaqueType \<Rightarrow> string list" where
  "opaqueXattrs OverlayOpaqueAll = [''trusted.overlay.opaque'', ''user.overlay.opaque'']"
| "opaqueXattrs OverlayOpaqueTrusted = [''trusted.overlay.opaque'']"
| "opaqueXattrs OverlayOpaqueUser = [''user.overlay.opaque'']"

definition FuseOpsList :: "string list" where
  "FuseOpsList = [''node.Getattr'', ''node.Getxattr'', ''node.Listxattr'', ''node.Lookup'', ''node.Open'', ''node.Readdir'',
     ''node.Readlink'', ''file.Read'', ''file.Getattr'', ''whiteout.Getattr'']"

datatype errno = EIO | ENOENT | ERANGE | ENODATA

text \<open>A modification time that is not set is \<^const>\<open>None\<close>.\<close>

record fuse_attr =
  fa_Ino :: "64 word"
  fa_Size :: "64 word"
  fa_Blocks :: "64 word"
  fa_Blksize :: "64 word"
  fa_Mtime :: "gotime option"
  fa_Mode :: "32 word"
  fa_Nlink :: "32 word"
  fa_Uid :: "32 word"
  fa_Gid :: "32 word"
  fa_Rdev :: "32 word"

record dirEntry =
  de_Mode :: "32 word"
  de_Name :: string
  de_Ino :: "64 word"

text \<open>The file system of one layer, with the counters of its operations and the state file.\<close>

record fuse_fs =
  ff_baseInode :: "32 word"
  ff_rootID :: nat
  ff_opaqueXattrs :: "string list"
  ff_counter :: "(string \<rightharpoonup> int) option"
  ff_statError :: string
  ff_statSize :: int
  ff_statDigest :: string

record fuse_node =
  nd_id :: nat
  nd_attr :: attr
  nd_idMapper :: iDMap
  nd_ents :: "dirEntry list"
  nd_entsCached :: bool

text \<open>Nodes that go-fuse holds or that a lookup returns.\<close>

datatype fuse_child = NodeChild fuse_node | WhiteoutChild nat attr | StateChild | StatFileChild

section \<open>Inode numbers and counters\<close>

definition inode_of :: "32 word \<Rightarrow> 32 word \<Rightarrow> 64 word" where
  "inode_of base low = or (push_bit 32 (ucast base)) (ucast low)"

definition inodeOfState :: "fuse_fs \<Rightarrow> 64 word" where
  "inodeOfState fs = inode_of (ff_baseInode fs) 1"

definition inodeOfStatFile :: "fuse_fs \<Rightarrow> 64 word" where
  "inodeOfStatFile fs = inode_of (ff_baseInode fs) 2"

definition inodeOfID :: "fuse_fs \<Rightarrow> nat \<Rightarrow> 64 word option" where
  "inodeOfID fs i = (if i > 4294967295 - 3 then None else Some (inode_of (ff_baseInode fs) (3 + of_nat i)))"

definition Inc :: "string \<Rightarrow> (string \<rightharpoonup> int) \<Rightarrow> (string \<rightharpoonup> int)" where
  "Inc op opCounts = (case opCounts op of None \<Rightarrow> opCounts | Some n \<Rightarrow> opCounts(op \<mapsto> wrap32 (n + 1)))"

definition NewFuseOperationCounter :: "string \<rightharpoonup> int" where
  "NewFuseOperationCounter = (\<lambda>op. if op \<in> set FuseOpsList then Some 0 else None)"

definition logAndIncrementOpCounter :: "string \<Rightarrow> fuse_fs \<Rightarrow> fuse_fs" where
  "logAndIncrementOpCounter op fs = fs\<lparr>ff_counter := map_option (Inc op) (ff_counter fs)\<rparr>"

definition reportFailure :: "string \<Rightarrow> fuse_fs \<Rightarrow> fuse_fs" where
  "reportFailure op fs = fs\<lparr>ff_statError := op\<rparr>"

section \<open>Attributes\<close>

definition ModePerm :: "32 word" where "ModePerm = 511"

text \<open>\<^verbatim>\<open>os.ModeType\<close> is \<^const>\<open>ModeType\<close>; the cases of the switch in their order.\<close>

definition fileModeToSystemMode :: "32 word \<Rightarrow> 32 word" where
  "fileModeToSystemMode m =
     (let t = and m ModeType;
          res = or (and m ModePerm)
            (if t = ModeDevice then S_IFBLK else if t = or ModeDevice ModeCharDevice then S_IFCHR
             else if t = ModeDir then S_IFDIR else if t = ModeNamedPipe then S_IFIFO
             else if t = ModeSymlink then S_IFLNK else if t = ModeSocket then S_IFSOCK else S_IFREG);
          res = (if and m ModeSetuid \<noteq> 0 then or res 2048 else res);
          res = (if and m ModeSetgid \<noteq> 0 then or res 1024 else res)
      in if and m ModeSticky \<noteq> 0 then or res 512 else res)"

definition blocks_of :: "64 word \<Rightarrow> 64 word" where
  "blocks_of sz = (sz + blockSize - 1) div blockSize * physicalBlockRatio"

text \<open>\<open>mkdev\<close> is \<^verbatim>\<open>unix.Mkdev\<close>. A mapping error is ignored: the owner is then the invalid user.\<close>

type_synonym mkdev = "32 word \<Rightarrow> 32 word \<Rightarrow> 32 word"

definition entryToAttr :: "mkdev \<Rightarrow> iDMap \<Rightarrow> 64 word \<Rightarrow> attr \<Rightarrow> fuse_attr" where
  "entryToAttr mkdev idMapper ino e =
     (let sz = (if and (a_Mode e) ModeSymlink \<noteq> 0 then of_nat (length (a_LinkName e)) else word_of_int (a_Size e));
          mappedID = fst (ToHost idMapper \<lparr>Uid = word_of_int (a_UID e), Gid = word_of_int (a_GID e)\<rparr>);
          nlink = word_of_int (a_NumLink e) :: 32 word
      in \<lparr>fa_Ino = ino, fa_Size = sz, fa_Blocks = blocks_of sz, fa_Blksize = blockSize, fa_Mtime = Some (a_ModTime e),
          fa_Mode = fileModeToSystemMode (a_Mode e), fa_Nlink = (if nlink = 0 then 1 else nlink),
          fa_Uid = Uid mappedID, fa_Gid = Gid mappedID,
          fa_Rdev = mkdev (word_of_int (a_DevMajor e)) (word_of_int (a_DevMinor e))\<rparr>)"

definition entryToWhAttr :: "mkdev \<Rightarrow> 64 word \<Rightarrow> attr \<Rightarrow> fuse_attr" where
  "entryToWhAttr mkdev ino e =
     \<lparr>fa_Ino = ino, fa_Size = 0, fa_Blocks = 0, fa_Blksize = blockSize, fa_Mtime = Some (a_ModTime e), fa_Mode = S_IFCHR,
      fa_Nlink = 1, fa_Uid = 0, fa_Gid = 0, fa_Rdev = mkdev 0 0\<rparr>"

definition stateToAttr :: "fuse_fs \<Rightarrow> fuse_attr" where
  "stateToAttr fs =
     \<lparr>fa_Ino = inodeOfState fs, fa_Size = 0, fa_Blocks = 0, fa_Blksize = blockSize, fa_Mtime = None, fa_Mode = stateDirMode,
      fa_Nlink = 1, fa_Uid = 0, fa_Gid = 0, fa_Rdev = 0\<rparr>"

definition statFileToAttr :: "fuse_fs \<Rightarrow> 64 word \<Rightarrow> fuse_attr" where
  "statFileToAttr fs sz =
     \<lparr>fa_Ino = inodeOfStatFile fs, fa_Size = sz, fa_Blocks = blocks_of sz, fa_Blksize = blockSize, fa_Mtime = None,
      fa_Mode = statFileMode, fa_Nlink = 1, fa_Uid = 0, fa_Gid = 0, fa_Rdev = 0\<rparr>"

section \<open>Directories\<close>

definition has_prefix :: "string \<Rightarrow> string \<Rightarrow> bool" where
  "has_prefix s p \<longleftrightarrow> take (length p) s = p"

definition isRootNode :: "fuse_fs \<Rightarrow> fuse_node \<Rightarrow> bool" where
  "isRootNode fs n \<longleftrightarrow> nd_id n = ff_rootID fs"

definition isOpaque :: "md_reader \<Rightarrow> bolt_db \<Rightarrow> fuse_node \<Rightarrow> bool" where
  "isOpaque r db n = is_ok (GetChild r db (nd_id n) whiteoutOpaqueDir)"

text \<open>What the callback of \<^verbatim>\<open>ForeachChild\<close> collects.\<close>

record dir_scan =
  ds_ents :: "dirEntry list"
  ds_whiteouts :: "(string \<times> nat) list"
  ds_normalEnts :: "string list"
  ds_lastErr :: bool

definition scan_child :: "fuse_fs \<Rightarrow> string \<times> nat \<times> 32 word \<Rightarrow> dir_scan \<Rightarrow> bool \<times> dir_scan" where
  "scan_child fs = (\<lambda>(name, i, mode) d.
     if has_prefix name whiteoutPrefix
     then if name = whiteoutOpaqueDir then (True, d)
          else (True, d\<lparr>ds_whiteouts := AList.update name i (ds_whiteouts d)\<rparr>)
     else let d1 = d\<lparr>ds_normalEnts := name # ds_normalEnts d\<rparr> in
          case inodeOfID fs i of None \<Rightarrow> (False, d1\<lparr>ds_lastErr := True\<rparr>)
          | Some ino \<Rightarrow> (True, d1\<lparr>ds_ents := ds_ents d @
              [\<lparr>de_Mode = fileModeToSystemMode mode, de_Name = name, de_Ino = ino\<rparr>]\<rparr>))"

fun add_whiteouts :: "fuse_fs \<Rightarrow> string list \<Rightarrow> (string \<times> nat) list \<Rightarrow> dirEntry list \<Rightarrow> dirEntry list option" where
  "add_whiteouts fs normal [] ents = Some ents"
| "add_whiteouts fs normal ((w, i) # ws) ents =
     (let target = drop (length whiteoutPrefix) w in
      if target \<in> set normal then add_whiteouts fs normal ws ents
      else case inodeOfID fs i of None \<Rightarrow> None
           | Some ino \<Rightarrow> add_whiteouts fs normal ws (ents @ [\<lparr>de_Mode = S_IFCHR, de_Name = target, de_Ino = ino\<rparr>]))"

definition empty_scan :: dir_scan where
  "empty_scan = \<lparr>ds_ents = [], ds_whiteouts = [], ds_normalEnts = [], ds_lastErr = False\<rparr>"

definition readdir ::
    "md_reader \<Rightarrow> bolt_db \<Rightarrow> fuse_node \<Rightarrow> fuse_fs \<Rightarrow> fuse_fs \<times> fuse_node \<times> (errno + dirEntry list)" where
  "readdir r db n fs =
     (if nd_entsCached n then (fs, n, Inr (nd_ents n))
      else case ForeachChild r db (nd_id n) (scan_child fs) empty_scan of
             Inl e \<Rightarrow> (reportFailure ''node.Readdir'' fs, n, Inl EIO)
           | Inr d \<Rightarrow>
               if ds_lastErr d then (reportFailure ''node.Readdir'' fs, n, Inl EIO)
               else case add_whiteouts fs (ds_normalEnts d) (ds_whiteouts d) (ds_ents d) of
                      None \<Rightarrow> (reportFailure ''node.Readdir'' fs, n, Inl EIO)
                    | Some ents \<Rightarrow>
                        (let sorted = sort_key de_Name ents
                         in (fs, n\<lparr>nd_ents := sorted, nd_entsCached := True\<rparr>, Inr sorted)))"

definition node_Readdir ::
    "md_reader \<Rightarrow> bolt_db \<Rightarrow> fuse_node \<Rightarrow> fuse_fs \<Rightarrow> fuse_fs \<times> fuse_node \<times> (errno + dirEntry list)" where
  "node_Readdir r db n fs = readdir r db n (logAndIncrementOpCounter ''node.Readdir'' fs)"

text \<open>The attributes that \<^verbatim>\<open>Lookup\<close> reports for a child that go-fuse already holds.\<close>

definition lookup_memory ::
    "mkdev \<Rightarrow> fuse_node \<Rightarrow> fuse_child \<Rightarrow> fuse_fs \<Rightarrow> fuse_fs \<times> (errno + fuse_child \<times> fuse_attr)" where
  "lookup_memory mkdev n cn fs =
     (case cn of
        NodeChild tn \<Rightarrow>
          (case inodeOfID fs (nd_id tn) of None \<Rightarrow> (reportFailure ''node.Lookup'' fs, Inl EIO)
           | Some ino \<Rightarrow> (fs, Inr (cn, entryToAttr mkdev (nd_idMapper n) ino (nd_attr tn))))
      | WhiteoutChild i a \<Rightarrow>
          (case inodeOfID fs i of None \<Rightarrow> (reportFailure ''node.Lookup'' fs, Inl EIO)
           | Some ino \<Rightarrow> (fs, Inr (cn, entryToAttr mkdev (nd_idMapper n) ino a)))
      | _ \<Rightarrow> (reportFailure ''node.Lookup'' fs, Inl EIO))"

definition new_child :: "fuse_node \<Rightarrow> nat \<Rightarrow> attr \<Rightarrow> fuse_node" where
  "new_child n i ce = \<lparr>nd_id = i, nd_attr = ce, nd_idMapper = nd_idMapper n, nd_ents = [], nd_entsCached = False\<rparr>"

text \<open>The part of \<^verbatim>\<open>Lookup\<close> that asks the metadata store.\<close>

definition lookup_store ::
    "mkdev \<Rightarrow> md_reader \<Rightarrow> bolt_db \<Rightarrow> fuse_node \<Rightarrow> string \<Rightarrow> fuse_fs \<Rightarrow>
     fuse_fs \<times> fuse_node \<times> (errno + fuse_child \<times> fuse_attr)" where
  "lookup_store mkdev r db n name fs =
     (case GetChild r db (nd_id n) name of
        Inl e \<Rightarrow>
          (case GetChild r db (nd_id n) (whiteoutPrefix @ name) of
             Inr (whID, wh) \<Rightarrow>
               (case inodeOfID fs whID of None \<Rightarrow> (reportFailure ''node.Lookup'' fs, n, Inl EIO)
                | Some ino \<Rightarrow> (fs, n, Inr (WhiteoutChild whID wh, entryToWhAttr mkdev ino wh)))
           | Inl e' \<Rightarrow> (case readdir r db n fs of (fs1, n1, res) \<Rightarrow> (fs1, n1, Inl ENOENT)))
      | Inr (i, ce) \<Rightarrow>
          (case inodeOfID fs i of None \<Rightarrow> (reportFailure ''node.Lookup'' fs, n, Inl EIO)
           | Some ino \<Rightarrow> (fs, n, Inr (NodeChild (new_child n i ce), entryToAttr mkdev (nd_idMapper n) ino ce))))"

definition node_Lookup ::
    "mkdev \<Rightarrow> md_reader \<Rightarrow> bolt_db \<Rightarrow> (string \<rightharpoonup> fuse_child) \<Rightarrow> fuse_node \<Rightarrow> string \<Rightarrow> fuse_fs \<Rightarrow>
     fuse_fs \<times> fuse_node \<times> (errno + fuse_child \<times> fuse_attr)" where
  "node_Lookup mkdev r db memory n name fs0 =
     (let fs = logAndIncrementOpCounter ''node.Lookup'' fs0 in
      if has_prefix name whiteoutPrefix then (fs, n, Inl ENOENT)
      else if isRootNode fs n \<and> name = stateDirName then (fs, n, Inr (StateChild, stateToAttr fs))
      else case memory name of
             Some cn \<Rightarrow> (case lookup_memory mkdev n cn fs of (fs1, res) \<Rightarrow> (fs1, n, res))
           | None \<Rightarrow>
               if nd_entsCached n \<and> \<not> list_ex (\<lambda>e. de_Name e = name) (nd_ents n) then (fs, n, Inl ENOENT)
               else lookup_store mkdev r db n name fs)"

section \<open>Other operations of a node\<close>

definition newNode ::
    "md_reader \<Rightarrow> bolt_db \<Rightarrow> 32 word \<Rightarrow> iDMap \<Rightarrow> overlayOpaqueType \<Rightarrow> (string \<rightharpoonup> int) option \<Rightarrow> string \<Rightarrow> int \<Rightarrow>
     md_error + fuse_fs \<times> fuse_node" where
  "newNode r db baseInode idMapper opq counter layerDigest blobSize =
     bind_res (GetAttr r db (r_rootID r)) (\<lambda>rootAttr. Inr
       (\<lparr>ff_baseInode = baseInode, ff_rootID = r_rootID r, ff_opaqueXattrs = opaqueXattrs opq, ff_counter = counter,
         ff_statError = '''', ff_statSize = blobSize, ff_statDigest = layerDigest\<rparr>,
        \<lparr>nd_id = r_rootID r, nd_attr = rootAttr, nd_idMapper = idMapper, nd_ents = [], nd_entsCached = False\<rparr>))"

definition node_Open ::
    "('c, 'r) gr_reader \<Rightarrow> bolt_db \<Rightarrow> fuse_node \<Rightarrow> fuse_fs \<Rightarrow> fuse_fs \<times> (errno + gr_file)" where
  "node_Open gr db n fs0 =
     (let fs = logAndIncrementOpCounter ''node.Open'' fs0 in
      case gr_OpenFile gr db (nd_id n) of Inl e \<Rightarrow> (reportFailure ''node.Open'' fs, Inl EIO) | Inr ra \<Rightarrow> (fs, Inr ra))"

text \<open>\<^verbatim>\<open>node.Getattr\<close>, \<^verbatim>\<open>file.Getattr\<close> and \<^verbatim>\<open>whiteout.Getattr\<close> differ in the operation they count and in the attributes.\<close>

definition getattr_as :: "string \<Rightarrow> nat \<Rightarrow> (64 word \<Rightarrow> fuse_attr) \<Rightarrow> fuse_fs \<Rightarrow> fuse_fs \<times> (errno + fuse_attr)" where
  "getattr_as op i toAttr fs0 =
     (let fs = logAndIncrementOpCounter op fs0 in
      case inodeOfID fs i of None \<Rightarrow> (reportFailure op fs, Inl EIO) | Some ino \<Rightarrow> (fs, Inr (toAttr ino)))"

definition node_Getattr :: "mkdev \<Rightarrow> fuse_node \<Rightarrow> fuse_fs \<Rightarrow> fuse_fs \<times> (errno + fuse_attr)" where
  "node_Getattr mkdev n = getattr_as ''node.Getattr'' (nd_id n) (\<lambda>ino. entryToAttr mkdev (nd_idMapper n) ino (nd_attr n))"

definition file_Getattr :: "mkdev \<Rightarrow> fuse_node \<Rightarrow> fuse_fs \<Rightarrow> fuse_fs \<times> (errno + fuse_attr)" where
  "file_Getattr mkdev n = getattr_as ''file.Getattr'' (nd_id n) (\<lambda>ino. entryToAttr mkdev (nd_idMapper n) ino (nd_attr n))"

definition whiteout_Getattr :: "mkdev \<Rightarrow> nat \<Rightarrow> attr \<Rightarrow> fuse_fs \<Rightarrow> fuse_fs \<times> (errno + fuse_attr)" where
  "whiteout_Getattr mkdev i a = getattr_as ''whiteout.Getattr'' i (\<lambda>ino. entryToWhAttr mkdev ino a)"

text \<open>The bytes put into a buffer of \<open>len\<close> bytes, or the length that is needed.\<close>

definition fill :: "nat \<Rightarrow> string \<Rightarrow> (nat \<times> errno) + string" where
  "fill len v = (if len < length v then Inl (length v, ERANGE) else Inr v)"

definition node_Getxattr ::
    "md_reader \<Rightarrow> bolt_db \<Rightarrow> fuse_node \<Rightarrow> string \<Rightarrow> nat \<Rightarrow> fuse_fs \<Rightarrow> fuse_fs \<times> ((nat \<times> errno) + string)" where
  "node_Getxattr r db n attr len fs0 =
     (let fs = logAndIncrementOpCounter ''node.Getxattr'' fs0 in
      (fs, if attr \<in> set (ff_opaqueXattrs fs) \<and> isOpaque r db n then fill len opaqueXattrValue
           else case map_of (a_Xattrs (nd_attr n)) attr of Some v \<Rightarrow> fill len v | None \<Rightarrow> Inl (0, ENODATA)))"

definition xattr_names :: "md_reader \<Rightarrow> bolt_db \<Rightarrow> fuse_node \<Rightarrow> fuse_fs \<Rightarrow> string list" where
  "xattr_names r db n fs = (if isOpaque r db n then ff_opaqueXattrs fs else []) @ map fst (a_Xattrs (nd_attr n))"

definition node_Listxattr ::
    "md_reader \<Rightarrow> bolt_db \<Rightarrow> fuse_node \<Rightarrow> nat \<Rightarrow> fuse_fs \<Rightarrow> fuse_fs \<times> ((nat \<times> errno) + string)" where
  "node_Listxattr r db n len fs0 =
     (let fs = logAndIncrementOpCounter ''node.Listxattr'' fs0
      in (fs, fill len (concat (map (\<lambda>k. k @ [CHR 0x00]) (xattr_names r db n fs)))))"

definition node_Readlink :: "fuse_node \<Rightarrow> fuse_fs \<Rightarrow> fuse_fs \<times> string" where
  "node_Readlink n fs = (logAndIncrementOpCounter ''node.Readlink'' fs, a_LinkName (nd_attr n))"

text \<open>\<^verbatim>\<open>file.Read\<close>: the end of the file is not an error, its data are empty.\<close>

definition file_Read ::
    "('c, 'w, 'r) sm_env \<Rightarrow> tar_parser \<Rightarrow> (nat \<Rightarrow> nat list) \<Rightarrow> int \<Rightarrow> bolt_db \<Rightarrow> gr_file \<Rightarrow> nat \<Rightarrow> int \<Rightarrow>
     ('c, 'r) gr_reader \<Rightarrow> fuse_fs \<Rightarrow> ('c, 'r) gr_reader \<times> gr_file \<times> fuse_fs \<times> (errno + bytes)" where
  "file_Read env nxt sched now db ra len off gr fs0 =
     (let fs = logAndIncrementOpCounter ''file.Read'' fs0 in
      case gf_ReadAt env nxt sched now db ra len off gr of
        (gr', ra', Inr b) \<Rightarrow> (gr', ra', fs, Inr b)
      | (gr', ra', Inl FrEOF) \<Rightarrow> (gr', ra', fs, Inr [])
      | (gr', ra', Inl e) \<Rightarrow> (gr', ra', reportFailure ''file.Read'' fs, Inl EIO))"

section \<open>The state directory\<close>

text \<open>\<open>json\<close> is \<^verbatim>\<open>json.Marshal\<close> of the state, with the percentage that the code computes as a float.\<close>

type_synonym stat_json = "string \<Rightarrow> string \<Rightarrow> int \<Rightarrow> int \<Rightarrow> string option"

definition statFile_name :: "fuse_fs \<Rightarrow> string" where
  "statFile_name fs = ff_statDigest fs @ ''.json''"

definition updateStatUnlocked :: "stat_json \<Rightarrow> int \<Rightarrow> fuse_fs \<Rightarrow> string option" where
  "updateStatUnlocked json fetchedSize fs =
     map_option (\<lambda>j. j @ [CHR 0x0A]) (json (ff_statError fs) (ff_statDigest fs) (ff_statSize fs) fetchedSize)"

definition statFile_attr :: "stat_json \<Rightarrow> int \<Rightarrow> fuse_fs \<Rightarrow> errno + fuse_attr" where
  "statFile_attr json fetchedSize fs =
     (case updateStatUnlocked json fetchedSize fs of None \<Rightarrow> Inl EIO | Some st \<Rightarrow> Inr (statFileToAttr fs (of_nat (length st))))"

definition statFile_Read :: "stat_json \<Rightarrow> int \<Rightarrow> nat \<Rightarrow> int \<Rightarrow> fuse_fs \<Rightarrow> errno + string" where
  "statFile_Read json fetchedSize len off fs =
     (case updateStatUnlocked json fetchedSize fs of None \<Rightarrow> Inl EIO
      | Some st \<Rightarrow> if off < 0 then Inl EIO else Inr (take len (drop (nat off) st)))"

definition state_Readdir :: "fuse_fs \<Rightarrow> dirEntry list" where
  "state_Readdir fs = [\<lparr>de_Mode = statFileMode, de_Name = statFile_name fs, de_Ino = inodeOfStatFile fs\<rparr>]"

definition state_Lookup :: "stat_json \<Rightarrow> int \<Rightarrow> string \<Rightarrow> fuse_fs \<Rightarrow> errno + fuse_child \<times> fuse_attr" where
  "state_Lookup json fetchedSize name fs =
     (if name \<noteq> statFile_name fs then Inl ENOENT
      else bind_res (statFile_attr json fetchedSize fs) (\<lambda>a. Inr (StatFileChild, a)))"

section \<open>File system statistics\<close>

record statfs_out =
  so_Blocks :: "64 word"
  so_Bfree :: "64 word"
  so_Bavail :: "64 word"
  so_Files :: "64 word"
  so_Ffree :: "64 word"
  so_Bsize :: "32 word"
  so_NameLen :: "32 word"
  so_Frsize :: "32 word"

definition defaultStatfs :: statfs_out where
  "defaultStatfs = \<lparr>so_Blocks = 0, so_Bfree = 0, so_Bavail = 0, so_Files = 0, so_Ffree = 0, so_Bsize = 4096,
     so_NameLen = 255, so_Frsize = 4096\<rparr>"

text \<open>\<open>statfs\<close> is the system call on the directory of the snapshotter.\<close>

definition fillStatfs :: "(string \<Rightarrow> statfs_out option) \<Rightarrow> string \<Rightarrow> statfs_out" where
  "fillStatfs statfs statfsBase =
     (if statfsBase = '''' then defaultStatfs
      else case statfs statfsBase of None \<Rightarrow> defaultStatfs | Some s \<Rightarrow> s\<lparr>so_NameLen := 255\<rparr>)"

section \<open>Inode numbers are unique\<close>

lemma bit_inode_of:
  "n < 32 \<Longrightarrow> bit (inode_of base low) n = bit low n" "n < 32 \<Longrightarrow> bit (inode_of base low) (n + 32) = bit base n"
proof -
  have low: "\<not> bit low m" if "32 \<le> m" for m using bit_imp_le_length [of low m] that by auto
  show "n < 32 \<Longrightarrow> bit (inode_of base low) n = bit low n"
    by (simp add: inode_of_def bit_or_iff bit_push_bit_iff bit_ucast_iff)
  show "n < 32 \<Longrightarrow> bit (inode_of base low) (n + 32) = bit base n"
    using low [of "n + 32"] by (simp add: inode_of_def bit_or_iff bit_push_bit_iff bit_ucast_iff)
qed

lemma inode_of_inject: "inode_of base low = inode_of base' low' \<Longrightarrow> base = base' \<and> low = low'"
proof -
  assume eq: "inode_of base low = inode_of base' low'"
  have "bit low n = bit low' n" "bit base n = bit base' n" if "n < 32" for n
    using bit_inode_of [OF that, of base low] bit_inode_of [OF that, of base' low'] eq by simp_all
  then show ?thesis by (intro conjI; intro bit_word_eqI) simp_all
qed

text \<open>
  C23: within one mounted layer inode numbers do not clash: different nodes have different numbers, none of them is that
  of the state directory or the state file, these two differ, and every ID up to 4294967292 has a number.
\<close>

theorem inodes_unique:
  assumes "inodeOfID fs i = Some a" and "inodeOfID fs j = Some b"
  shows "(a = b \<longleftrightarrow> i = j) \<and> a \<noteq> inodeOfState fs \<and> a \<noteq> inodeOfStatFile fs \<and> inodeOfState fs \<noteq> inodeOfStatFile fs \<and>
    ((\<exists>c. inodeOfID fs k = Some c) \<longleftrightarrow> k \<le> 4294967292)"
proof -
  let ?base = "ff_baseInode fs"
  have ij: "i \<le> 4294967292" "j \<le> 4294967292" "a = inode_of ?base (3 + of_nat i)" "b = inode_of ?base (3 + of_nat j)"
    using assms by (auto simp: inodeOfID_def split: if_splits)
  have n: "unat (3 + of_nat k :: 32 word) = 3 + k" if "k \<le> 4294967292" for k
    using that by (simp add: unat_word_ariths unat_of_nat)
  have "i = j" if "a = b"
  proof -
    have "(3 + of_nat i :: 32 word) = 3 + of_nat j" using inode_of_inject [of ?base "3 + of_nat i" ?base "3 + of_nat j"] ij(3,4) that by simp
    then show ?thesis using n [OF ij(1)] n [OF ij(2)] by (metis add_left_cancel)
  qed
  moreover have "(3 + of_nat i :: 32 word) \<noteq> 1" "(3 + of_nat i :: 32 word) \<noteq> 2"
    using n [OF ij(1)] by (auto simp: word_unat_eq_iff)
  ultimately show ?thesis
    using inode_of_inject [of ?base "3 + of_nat i" ?base 1] inode_of_inject [of ?base "3 + of_nat i" ?base 2]
      inode_of_inject [of ?base 1 ?base 2] ij(3) assms
    by (auto simp: inodeOfState_def inodeOfStatFile_def inodeOfID_def)
qed

text \<open>
  Numbers of different layers are kept apart only by different base inodes, and \<^verbatim>\<open>Mount\<close> and \<^verbatim>\<open>IDMapMount\<close> give every
  layer the base 0.
\<close>

lemma same_base_same_inodes: "ff_baseInode fs = ff_baseInode fs' \<Longrightarrow> inodeOfID fs i = inodeOfID fs' i \<and> inodeOfState fs = inodeOfState fs'"
  by (simp add: inodeOfID_def inodeOfState_def)

lemma other_base_other_inodes:
  assumes "ff_baseInode fs \<noteq> ff_baseInode fs'" and "inodeOfID fs i = Some a" and "inodeOfID fs' j = Some b"
  shows "a \<noteq> b"
  using assms inode_of_inject by (auto simp: inodeOfID_def split: if_splits)

definition sample_fs :: fuse_fs where
  "sample_fs = \<lparr>ff_baseInode = 1, ff_rootID = 1, ff_opaqueXattrs = opaqueXattrs OverlayOpaqueTrusted, ff_counter = None,
     ff_statError = '''', ff_statSize = 10, ff_statDigest = ''sha256:1''\<rparr>"

theorem inodes_unique_witness:
  "inodeOfID sample_fs 4 = Some 4294967303 \<and> (4294967303 :: 64 word) \<noteq> inodeOfState sample_fs"
proof -
  have i: "inodeOfID sample_fs 4 = Some 4294967303" by (simp add: inodeOfID_def sample_fs_def inode_of_def)
  show ?thesis using inodes_unique [OF i i] i by simp
qed

section \<open>Listings and lookups agree\<close>

definition normal_child :: "string \<times> nat \<times> 32 word \<Rightarrow> bool" where
  "normal_child = (\<lambda>(c, i, m). \<not> has_prefix c whiteoutPrefix)"

definition whiteout_child :: "string \<times> nat \<times> 32 word \<Rightarrow> bool" where
  "whiteout_child = (\<lambda>(c, i, m). has_prefix c whiteoutPrefix \<and> c \<noteq> whiteoutOpaqueDir)"

definition entry_of :: "fuse_fs \<Rightarrow> string \<times> nat \<times> 32 word \<Rightarrow> dirEntry" where
  "entry_of fs = (\<lambda>(c, i, m). \<lparr>de_Mode = fileModeToSystemMode m, de_Name = c, de_Ino = the (inodeOfID fs i)\<rparr>)"

lemma scan_children:
  assumes "foreach (scan_child fs) cs d = d'" and "\<not> ds_lastErr d'" and "distinct (map fst (ds_whiteouts d) @ map fst cs)"
  shows "ds_ents d' = ds_ents d @ map (entry_of fs) (filter normal_child cs)"
    and "ds_whiteouts d' = ds_whiteouts d @ map (\<lambda>(c, i, m). (c, i)) (filter whiteout_child cs)"
    and "set (ds_normalEnts d') = set (ds_normalEnts d) \<union> fst ` set (filter normal_child cs)"
    and "\<forall>(c, i, m) \<in> set (filter normal_child cs). inodeOfID fs i \<noteq> None"
proof -
  have "ds_ents d' = ds_ents d @ map (entry_of fs) (filter normal_child cs) \<and>
      ds_whiteouts d' = ds_whiteouts d @ map (\<lambda>(c, i, m). (c, i)) (filter whiteout_child cs) \<and>
      set (ds_normalEnts d') = set (ds_normalEnts d) \<union> fst ` set (filter normal_child cs) \<and>
      (\<forall>(c, i, m) \<in> set (filter normal_child cs). inodeOfID fs i \<noteq> None)"
    using assms
  proof (induction cs arbitrary: d)
    case (Cons x cs)
    obtain c i m where x: "x = (c, i, m)" by (cases x)
    show ?case
    proof (cases "has_prefix c whiteoutPrefix")
      case True
      let ?d = "if c = whiteoutOpaqueDir then d else d\<lparr>ds_whiteouts := AList.update c i (ds_whiteouts d)\<rparr>"
      have u: "AList.update c i (ds_whiteouts d) = ds_whiteouts d @ [(c, i)]"
        using Cons.prems(3) x by (intro update_fresh) auto
      have "foreach (scan_child fs) cs ?d = d'" using Cons.prems(1) True x by (auto simp: scan_child_def split: if_splits)
      from Cons.IH [OF this Cons.prems(2)] Cons.prems(3) True x u show ?thesis
        by (auto simp: normal_child_def whiteout_child_def)
    next
      case False
      show ?thesis
      proof (cases "inodeOfID fs i")
        case None
        then show ?thesis using Cons.prems(1,2) False x by (auto simp: scan_child_def Let_def)
      next
        case (Some ino)
        let ?d = "d\<lparr>ds_normalEnts := c # ds_normalEnts d, ds_ents := ds_ents d @ [entry_of fs x]\<rparr>"
        have "foreach (scan_child fs) cs ?d = d'"
          using Cons.prems(1) False Some x by (simp add: scan_child_def Let_def entry_of_def)
        from Cons.IH [OF this Cons.prems(2)] Cons.prems(3) False x Some show ?thesis
          by (auto simp: normal_child_def whiteout_child_def)
      qed
    qed
  qed simp
  then show "ds_ents d' = ds_ents d @ map (entry_of fs) (filter normal_child cs)"
    "ds_whiteouts d' = ds_whiteouts d @ map (\<lambda>(c, i, m). (c, i)) (filter whiteout_child cs)"
    "set (ds_normalEnts d') = set (ds_normalEnts d) \<union> fst ` set (filter normal_child cs)"
    "\<forall>(c, i, m) \<in> set (filter normal_child cs). inodeOfID fs i \<noteq> None" by blast+
qed

definition whiteout_entry :: "fuse_fs \<Rightarrow> string \<times> nat \<Rightarrow> dirEntry" where
  "whiteout_entry fs = (\<lambda>(w, i). \<lparr>de_Mode = S_IFCHR, de_Name = drop (length whiteoutPrefix) w, de_Ino = the (inodeOfID fs i)\<rparr>)"

lemma add_whiteouts_Some:
  "add_whiteouts fs normal ws ents = Some ents' \<Longrightarrow>
     ents' = ents @ map (whiteout_entry fs) (filter (\<lambda>(w, i). drop (length whiteoutPrefix) w \<notin> set normal) ws) \<and>
     (\<forall>(w, i) \<in> set ws. drop (length whiteoutPrefix) w \<notin> set normal \<longrightarrow> inodeOfID fs i \<noteq> None)"
  by (induction fs normal ws ents rule: add_whiteouts.induct)
     (auto simp: Let_def whiteout_entry_def split: if_splits option.splits)

text \<open>The entries of a listing, over the children of the directory.\<close>

lemma readdir_entries:
  assumes "\<not> nd_entsCached n" and "readdir r db n fs = (fs', n', Inr ents)"
    and "children_of r db (nd_id n) = Inr cs" and "distinct (map fst cs)"
  shows "fs' = fs" and "n' = n\<lparr>nd_ents := ents, nd_entsCached := True\<rparr>"
    and "e \<in> set ents \<longleftrightarrow> (\<exists>c i m. (c, i, m) \<in> set cs \<and> \<not> has_prefix c whiteoutPrefix \<and> e = entry_of fs (c, i, m)) \<or>
       (\<exists>c i m. (c, i, m) \<in> set cs \<and> has_prefix c whiteoutPrefix \<and> c \<noteq> whiteoutOpaqueDir \<and>
          (\<forall>i' m'. (drop (length whiteoutPrefix) c, i', m') \<in> set cs \<longrightarrow> has_prefix (drop (length whiteoutPrefix) c) whiteoutPrefix) \<and>
          e = whiteout_entry fs (c, i))"
    and "(c, i, m) \<in> set cs \<Longrightarrow> \<not> has_prefix c whiteoutPrefix \<Longrightarrow> inodeOfID fs i \<noteq> None"
    and "(c, i, m) \<in> set cs \<Longrightarrow> has_prefix c whiteoutPrefix \<Longrightarrow> c \<noteq> whiteoutOpaqueDir \<Longrightarrow>
       \<forall>i' m'. (drop (length whiteoutPrefix) c, i', m') \<notin> set cs \<Longrightarrow> inodeOfID fs i \<noteq> None"
proof -
  let ?t = "drop (length whiteoutPrefix)"
  define d where "d = foreach (scan_child fs) cs empty_scan"
  have F: "ForeachChild r db (nd_id n) (scan_child fs) empty_scan = Inr d"
    using assms(3) by (simp add: ForeachChild_def d_def)
  obtain ents0 where A: "\<not> ds_lastErr d" "add_whiteouts fs (ds_normalEnts d) (ds_whiteouts d) (ds_ents d) = Some ents0"
      "ents = sort_key de_Name ents0" "fs' = fs" "n' = n\<lparr>nd_ents := ents, nd_entsCached := True\<rparr>"
    using assms(1,2) F by (auto simp: readdir_def Let_def split: if_splits option.splits)
  have D: "distinct (map fst (ds_whiteouts empty_scan) @ map fst cs)" using assms(4) by (simp add: empty_scan_def)
  note S = scan_children [OF d_def [symmetric] A(1) D, unfolded empty_scan_def, simplified]
  note W = add_whiteouts_Some [OF A(2)]
  show "fs' = fs" "n' = n\<lparr>nd_ents := ents, nd_entsCached := True\<rparr>" using A(4,5) by simp_all
  have N: "c \<notin> set (ds_normalEnts d) \<longleftrightarrow> (\<forall>i m. (c, i, m) \<in> set cs \<longrightarrow> has_prefix c whiteoutPrefix)" for c
    using S(3) by (force simp: normal_child_def)
  have wh: "(w, i) \<in> set (ds_whiteouts d) \<longleftrightarrow> (\<exists>m. (w, i, m) \<in> set cs \<and> whiteout_child (w, i, m))" for w i
    unfolding S(2) by force
  have "set ents = set ents0" using A(3) by simp
  also have "\<dots> = entry_of fs ` {x \<in> set cs. normal_child x} \<union>
      whiteout_entry fs ` {(w, i). (w, i) \<in> set (ds_whiteouts d) \<and> ?t w \<notin> set (ds_normalEnts d)}"
    unfolding conjunct1 [OF W] S(1) by (auto simp: image_iff)
  also have "\<dots> = entry_of fs ` {x \<in> set cs. normal_child x} \<union>
      whiteout_entry fs ` {(w, i). (\<exists>m. (w, i, m) \<in> set cs \<and> whiteout_child (w, i, m)) \<and> ?t w \<notin> set (ds_normalEnts d)}"
    unfolding wh ..
  finally show "e \<in> set ents \<longleftrightarrow> (\<exists>c i m. (c, i, m) \<in> set cs \<and> \<not> has_prefix c whiteoutPrefix \<and> e = entry_of fs (c, i, m)) \<or>
       (\<exists>c i m. (c, i, m) \<in> set cs \<and> has_prefix c whiteoutPrefix \<and> c \<noteq> whiteoutOpaqueDir \<and>
          (\<forall>i' m'. (?t c, i', m') \<in> set cs \<longrightarrow> has_prefix (?t c) whiteoutPrefix) \<and> e = whiteout_entry fs (c, i))"
    unfolding N by (auto simp: normal_child_def whiteout_child_def image_iff)
  show "(c, i, m) \<in> set cs \<Longrightarrow> \<not> has_prefix c whiteoutPrefix \<Longrightarrow> inodeOfID fs i \<noteq> None"
    using S(4) by (auto simp: normal_child_def)
  assume c: "(c, i, m) \<in> set cs" "has_prefix c whiteoutPrefix" "c \<noteq> whiteoutOpaqueDir" "\<forall>i' m'. (?t c, i', m') \<notin> set cs"
  have "(c, i) \<in> set (ds_whiteouts d)" using wh c(1-3) by (auto simp: whiteout_child_def)
  moreover have "?t c \<notin> set (ds_normalEnts d)" unfolding N using c(4) by blast
  ultimately show "inodeOfID fs i \<noteq> None" using conjunct2 [OF W] by blast
qed

lemma has_prefix_append [simp]: "has_prefix (p @ s) p"
  by (simp add: has_prefix_def)

lemma whiteout_of_name:
  assumes "\<not> has_prefix name whiteoutPrefix"
  shows "whiteoutPrefix @ name \<noteq> whiteoutOpaqueDir"
proof
  assume "whiteoutPrefix @ name = whiteoutOpaqueDir"
  then have "name = ''.wh..opq''" by (simp add: whiteoutPrefix_def whiteoutOpaqueDir_def)
  then show False using assms by (simp add: has_prefix_def whiteoutPrefix_def)
qed

lemma prefix_split: "has_prefix c p \<Longrightarrow> c = p @ drop (length p) c"
  unfolding has_prefix_def by (metis append_take_drop_id)

lemma fs_log [simp]:
  "inodeOfID (logAndIncrementOpCounter op fs) i = inodeOfID fs i"
  "isRootNode (logAndIncrementOpCounter op fs) n = isRootNode fs n"
  by (simp_all add: inodeOfID_def isRootNode_def logAndIncrementOpCounter_def)

text \<open>
  What a lookup in the metadata store finds: a child with this name, or else a whiteout of it.
\<close>

definition found_as :: "mkdev \<Rightarrow> (errno + fuse_child \<times> fuse_attr) \<Rightarrow> 32 word \<Rightarrow> 64 word \<Rightarrow> bool" where
  "found_as mkdev res mode ino \<longleftrightarrow> (\<exists>child at. res = Inr (child, at) \<and> fa_Mode at = mode \<and> fa_Ino at = ino)"

lemma lookup_store_listed:
  assumes "stored_dir r db (nd_id n)" and "children_of r db (nd_id n) = Inr cs"
    and "\<not> nd_entsCached n0" and "nd_id n0 = nd_id n" and "readdir r db n0 fs0 = (fs', n', Inr ents)"
    and "\<forall>i. inodeOfID fs i = inodeOfID fs0 i" and "\<not> has_prefix name whiteoutPrefix" and "name \<noteq> ''''"
    and "lookup_store mkdev r db n name fs = (fs1, n1, res)"
  shows "found_as mkdev res mode ino \<longleftrightarrow> \<lparr>de_Mode = mode, de_Name = name, de_Ino = ino\<rparr> \<in> set ents"
proof -
  let ?t = "drop (length whiteoutPrefix)" and ?e = "\<lparr>de_Mode = mode, de_Name = name, de_Ino = ino\<rparr>"
  have d: "distinct (map fst cs)" using md_dir.children_ok [OF assms(1)] assms(2) by auto
  have cs0: "children_of r db (nd_id n0) = Inr cs" using assms(2,4) by simp
  note E = readdir_entries [OF assms(3,5) cs0 d]
  have C: "(c, j, m) \<in> set cs \<longleftrightarrow> (\<exists>a. GetChild r db (nd_id n) c = Inr (j, a) \<and> a_Mode a = m)" if "c \<noteq> ''''" for c j m
    using md_dir.child_iff [OF assms(1,2) that] .
  have wh: "whiteoutPrefix @ name \<noteq> ''''" "has_prefix (whiteoutPrefix @ name) whiteoutPrefix"
      "whiteoutPrefix @ name \<noteq> whiteoutOpaqueDir" "?t (whiteoutPrefix @ name) = name"
    using whiteout_of_name [OF assms(7)] by (auto simp: whiteoutPrefix_def has_prefix_def)
  have mem: "?e \<in> set ents \<longleftrightarrow>
      (\<exists>i m. (name, i, m) \<in> set cs \<and> mode = fileModeToSystemMode m \<and> ino = the (inodeOfID fs0 i)) \<or>
      (\<exists>i m. (whiteoutPrefix @ name, i, m) \<in> set cs \<and> (\<forall>i' m'. (name, i', m') \<notin> set cs) \<and> mode = S_IFCHR \<and>
         ino = the (inodeOfID fs0 i))"
    (is "_ \<longleftrightarrow> ?N \<or> ?W")
  proof -
    have "(\<exists>c i m. (c, i, m) \<in> set cs \<and> \<not> has_prefix c whiteoutPrefix \<and> ?e = entry_of fs0 (c, i, m)) \<longleftrightarrow> ?N"
      using assms(7) by (auto simp: entry_of_def)
    moreover have "(\<exists>c i m. (c, i, m) \<in> set cs \<and> has_prefix c whiteoutPrefix \<and> c \<noteq> whiteoutOpaqueDir \<and>
        (\<forall>i' m'. (?t c, i', m') \<in> set cs \<longrightarrow> has_prefix (?t c) whiteoutPrefix) \<and> ?e = whiteout_entry fs0 (c, i)) \<longleftrightarrow> ?W"
      (is "?L \<longleftrightarrow> _")
    proof
      assume ?L
      then obtain c i m where c: "(c, i, m) \<in> set cs" "has_prefix c whiteoutPrefix"
          "\<forall>i' m'. (?t c, i', m') \<in> set cs \<longrightarrow> has_prefix (?t c) whiteoutPrefix" "?e = whiteout_entry fs0 (c, i)" by blast
      have t: "?t c = name" and mi: "mode = S_IFCHR" "ino = the (inodeOfID fs0 i)" using c(4) by (simp_all add: whiteout_entry_def)
      have "c = whiteoutPrefix @ name" using prefix_split [OF c(2)] t by simp
      then have "(whiteoutPrefix @ name, i, m) \<in> set cs" using c(1) by simp
      moreover have "\<forall>i' m'. (name, i', m') \<notin> set cs" using c(3) assms(7) unfolding t by blast
      ultimately show ?W using mi by blast
    next
      assume ?W
      then obtain i m where "(whiteoutPrefix @ name, i, m) \<in> set cs" "\<forall>i' m'. (name, i', m') \<notin> set cs" "mode = S_IFCHR"
          "ino = the (inodeOfID fs0 i)" by blast
      then show ?L using wh by (intro exI [of _ "whiteoutPrefix @ name"] exI [of _ i] exI [of _ m]) (auto simp: whiteout_entry_def)
    qed
    ultimately show ?thesis unfolding E(3) by simp
  qed
  show ?thesis
  proof (cases "GetChild r db (nd_id n) name")
    case (Inr ja)
    obtain j a where ja: "ja = (j, a)" by (cases ja)
    have "(name, j, a_Mode a) \<in> set cs" using C [OF assms(8)] Inr ja by blast
    then obtain x where x: "inodeOfID fs0 j = Some x" using E(4) assms(7) by blast
    have "?N \<longleftrightarrow> mode = fileModeToSystemMode (a_Mode a) \<and> ino = x" "\<not> ?W" using C [OF assms(8)] Inr ja x by auto
    moreover have "res = Inr (NodeChild (new_child n j a), entryToAttr mkdev (nd_idMapper n) x a)"
      using assms(6,9) Inr ja x by (auto simp: lookup_store_def)
    ultimately show ?thesis using mem by (auto simp: found_as_def entryToAttr_def Let_def)
  next
    case (Inl e)
    then have none: "\<forall>i' m'. (name, i', m') \<notin> set cs" using C [OF assms(8)] by auto
    show ?thesis
    proof (cases "GetChild r db (nd_id n) (whiteoutPrefix @ name)")
      case (Inr ja)
      obtain j a where ja: "ja = (j, a)" by (cases ja)
      have "(whiteoutPrefix @ name, j, a_Mode a) \<in> set cs" using C [OF wh(1)] Inr ja by blast
      then have "inodeOfID fs0 j \<noteq> None" by (rule E(5) [OF _ wh(2,3)]) (use none wh(4) in simp)
      then obtain x where x: "inodeOfID fs0 j = Some x" by blast
      have "?W \<longleftrightarrow> mode = S_IFCHR \<and> ino = x" using C [OF wh(1)] none Inr ja x by auto
      moreover have "res = Inr (WhiteoutChild j a, entryToWhAttr mkdev x a)"
        using assms(6,9) Inl Inr ja x by (auto simp: lookup_store_def)
      ultimately show ?thesis using mem none by (auto simp: found_as_def entryToWhAttr_def)
    next
      case (Inl e')
      then have "\<not> ?W" using C [OF wh(1)] by auto
      moreover have "res = Inl ENOENT"
        using assms(9) Inl \<open>GetChild r db (nd_id n) name = Inl e\<close> by (auto simp: lookup_store_def split: prod.splits)
      ultimately show ?thesis using mem none by (auto simp: found_as_def)
    qed
  qed
qed

text \<open>
  C9: listing and lookup agree. In a directory of the metadata store a non-empty name without the whiteout prefix, other
  than the state directory of the root, for which go-fuse holds no inode yet, is found by \<^verbatim>\<open>Lookup\<close> exactly if
  \<^verbatim>\<open>Readdir\<close> lists it, with the same inode number and mode, before and after the listing is cached.
\<close>

theorem readdir_lookup_agree:
  assumes "stored_dir r db (nd_id n)" and "\<not> nd_entsCached n" and "readdir r db n fs = (fs', n', Inr ents)"
    and "\<not> has_prefix name whiteoutPrefix" and "name \<noteq> ''''" and "\<not> (isRootNode fs n \<and> name = stateDirName)"
    and "memory name = None" and "m = n \<or> m = n'" and "node_Lookup mkdev r db memory m name fs = (fs1, m1, res)"
  shows "found_as mkdev res mode ino \<longleftrightarrow> \<lparr>de_Mode = mode, de_Name = name, de_Ino = ino\<rparr> \<in> set ents"
proof -
  obtain cs where cs: "children_of r db (nd_id n) = Inr cs" "distinct (map fst cs)"
    using md_dir.children_ok [OF assms(1)] by blast
  note E = readdir_entries [OF assms(2,3) cs]
  have m: "nd_id m = nd_id n" "isRootNode fs m = isRootNode fs n" using assms(8) E(2) by (auto simp: isRootNode_def)
  show ?thesis
  proof (cases "nd_entsCached m \<and> \<not> list_ex (\<lambda>e. de_Name e = name) (nd_ents m)")
    case True
    then have "m = n'" using assms(2,8) by auto
    then have "\<not> list_ex (\<lambda>e. de_Name e = name) ents" using True E(2) by simp
    then have "\<lparr>de_Mode = mode, de_Name = name, de_Ino = ino\<rparr> \<notin> set ents" by (auto simp: list_ex_iff)
    moreover have "res = Inl ENOENT" using assms(4,6,7,9) m True by (auto simp: node_Lookup_def Let_def)
    ultimately show ?thesis by (simp add: found_as_def)
  next
    case False
    then have "lookup_store mkdev r db m name (logAndIncrementOpCounter ''node.Lookup'' fs) = (fs1, m1, res)"
      using assms(4,6,7,9) m by (auto simp: node_Lookup_def Let_def split: if_splits)
    note L = this
    have s: "stored_dir r db (nd_id m)" "children_of r db (nd_id m) = Inr cs" "nd_id n = nd_id m"
      using assms(1) cs(1) m(1) by simp_all
    have fs: "\<forall>i. inodeOfID (logAndIncrementOpCounter ''node.Lookup'' fs) i = inodeOfID fs i" by simp
    show ?thesis by (rule lookup_store_listed [OF s(1,2) assms(2) s(3) assms(3) fs assms(4,5) L])
  qed
qed

lemma scan_no_error:
  "\<forall>c i m. (c, i, m) \<in> set cs \<longrightarrow> inodeOfID fs i \<noteq> None \<Longrightarrow> \<not> ds_lastErr d \<Longrightarrow> \<not> ds_lastErr (foreach (scan_child fs) cs d)"
proof (induction cs arbitrary: d)
  case (Cons x cs)
  obtain c i m where x: "x = (c, i, m)" by (cases x)
  obtain ino where i: "inodeOfID fs i = Some ino" using Cons.prems(1) x by fastforce
  have "\<exists>d1. scan_child fs x d = (True, d1) \<and> \<not> ds_lastErr d1"
    using Cons.prems(2) x i by (auto simp: scan_child_def Let_def)
  then show ?case using Cons.IH Cons.prems(1) by fastforce
qed simp

lemma add_whiteouts_total:
  "\<forall>(w, i) \<in> set ws. inodeOfID fs i \<noteq> None \<Longrightarrow> add_whiteouts fs normal ws ents \<noteq> None"
  by (induction fs normal ws ents rule: add_whiteouts.induct) (auto simp: Let_def)

lemma readdir_works:
  assumes "children_of r db (nd_id n) = Inr cs" and "distinct (map fst cs)"
    and "\<forall>c i m. (c, i, m) \<in> set cs \<longrightarrow> inodeOfID fs i \<noteq> None"
  shows "\<exists>n' ents. readdir r db n fs = (fs, n', Inr ents)"
proof -
  let ?d = "foreach (scan_child fs) cs empty_scan"
  have e: "\<not> ds_lastErr ?d" by (rule scan_no_error [OF assms(3)]) (simp add: empty_scan_def)
  have "distinct (map fst (ds_whiteouts empty_scan) @ map fst cs)" using assms(2) by (simp add: empty_scan_def)
  from scan_children(2) [OF refl e this] have "\<forall>(w, i) \<in> set (ds_whiteouts ?d). inodeOfID fs i \<noteq> None"
    using assms(3) by (auto simp: empty_scan_def)
  from add_whiteouts_total [OF this] obtain ents where
    "add_whiteouts fs (ds_normalEnts ?d) (ds_whiteouts ?d) (ds_ents ?d) = Some ents" by blast
  then show ?thesis using e assms(1) by (auto simp: readdir_def ForeachChild_def Let_def)
qed

lemma stored_child_bound:
  assumes "tree_inv root L s" and "get_fs db (r_fsID r) = Inr (stored s)" and "GetChild r db i c = Inr (j, a)"
  shows "j \<le> b_cur s"
proof -
  have "b_nodes s j \<noteq> None"
    using assms(2,3)
    by (auto simp: GetChild_def getMetadataBucket_def getNodesBucket_def node_by_id_def stored_def bind_res_Inr_iff
        split: option.splits)
  then show ?thesis using tree_invD(1) [OF assms(1)] by blast
qed

text \<open>A root directory with a file and the whiteout of another.\<close>

definition wh_toc :: tOC where
  "wh_toc = [sample_entry ''a'' ''reg'' '''' 512, sample_entry ''.wh.b'' ''reg'' '''' 1536, sample_entry ''.wh..wh.c'' ''reg'' '''' 2560]"

lemma wh_toc_ok: "toc_ok wh_toc"
  by (simp add: toc_ok_def wh_toc_def sample_entry_def ent_ok_def comps_def clean_step_def attr_ok_def attrFromZtocEntry_def
      xattrs_ok_def Xattrs_def strict_prefix_def)

definition root_node :: "md_reader \<Rightarrow> fuse_node" where
  "root_node r = \<lparr>nd_id = r_rootID r, nd_attr = dir_attr, nd_idMapper = \<lparr>UidMap = [], GidMap = []\<rparr>, nd_ents = [],
     nd_entsCached = False\<rparr>"

lemma wh_dir:
  obtains r db n' ents where "stored_dir r db (nd_id (root_node r))" and "readdir r db (root_node r) sample_fs = (sample_fs, n', Inr ents)"
    and "is_ok (GetChild r db (r_rootID r) ''a'')" and "is_ok (GetChild r db (r_rootID r) ''.wh..wh.c'')"
proof -
  obtain r db s where "md_init 0 [] [''fs1''] wh_toc 0 None = Inr (r, db)" and S: "get_fs db (r_fsID r) = Inr (stored s)"
      "build_inv (r_rootID r) (leaves wh_toc) (rev wh_toc) s" "b_cur s \<le> 1 + sum_list (map (\<lambda>e. length (epath e)) wh_toc)"
    using md_init_build [OF wh_toc_ok, of None "''fs1''" "[]" 0] by auto
  note T = build_invD(1) [OF S(2)]
  have D: "stored_dir r db (r_rootID r)" unfolding stored_dir_def using T S(1) by (intro exI [of _ "[]"] exI conjI) auto
  obtain cs where cs: "children_of r db (r_rootID r) = Inr cs" "distinct (map fst cs)" using md_dir.children_ok [OF D] by blast
  have small: "b_cur s \<le> 10" using S(3) by (simp add: wh_toc_def sample_entry_def comps_def clean_step_def)
  have "\<forall>c i m. (c, i, m) \<in> set cs \<longrightarrow> inodeOfID sample_fs i \<noteq> None"
  proof (intro allI impI)
    fix c i m
    assume c: "(c, i, m) \<in> set cs"
    have "c \<noteq> ''''" using md_dir.children_ids [OF D cs(1) c] by blast
    then obtain a where "GetChild r db (r_rootID r) c = Inr (i, a)" using md_dir.child_iff [OF D cs(1)] c by blast
    from stored_child_bound [OF T S(1) this] small show "inodeOfID sample_fs i \<noteq> None" by (simp add: inodeOfID_def)
  qed
  from readdir_works [of r db "root_node r", OF _ cs(2) this] cs(1) obtain n' ents where
    R: "readdir r db (root_node r) sample_fs = (sample_fs, n', Inr ents)" by (auto simp: root_node_def)
  have serve: "serves_entry r db (sample_entry ''a'' ''reg'' '''' 512)" "serves_entry r db (sample_entry ''.wh..wh.c'' ''reg'' '''' 2560)"
    using build_serves [OF S(2,1)] by (simp_all add: wh_toc_def)
  have "is_ok (GetChild r db (r_rootID r) ''a'')" "is_ok (GetChild r db (r_rootID r) ''.wh..wh.c'')"
    using serve by (auto simp: serves_entry_def sample_entry_def comps_def clean_step_def is_ok_iff bind_res_Inr_iff)
  with D R show ?thesis using that by (simp add: root_node_def)
qed

theorem readdir_lookup_agree_witness:
  "\<exists>r db n' ents fs1 m1 res mode ino. readdir r db (root_node r) sample_fs = (sample_fs, n', Inr ents) \<and>
     node_Lookup (\<lambda>a b. 0) r db Map.empty n' ''a'' sample_fs = (fs1, m1, res) \<and>
     found_as (\<lambda>a b. 0) res mode ino \<and> \<lparr>de_Mode = mode, de_Name = ''a'', de_Ino = ino\<rparr> \<in> set ents"
proof -
  obtain r db n' ents where W: "stored_dir r db (nd_id (root_node r))"
      "readdir r db (root_node r) sample_fs = (sample_fs, n', Inr ents)" "is_ok (GetChild r db (r_rootID r) ''a'')"
    using wh_dir by metis
  obtain fs1 m1 res where L: "node_Lookup (\<lambda>a b. 0) r db Map.empty (root_node r) ''a'' sample_fs = (fs1, m1, res)" by (metis prod_cases3)
  obtain fs2 m2 res2 where L2: "node_Lookup (\<lambda>a b. 0) r db Map.empty n' ''a'' sample_fs = (fs2, m2, res2)" by (metis prod_cases3)
  have pre: "\<not> nd_entsCached (root_node r)" "\<not> has_prefix ''a'' whiteoutPrefix" "''a'' \<noteq> ''''"
      "\<not> (isRootNode sample_fs (root_node r) \<and> ''a'' = stateDirName)" "Map.empty ''a'' = None"
    by (simp_all add: root_node_def has_prefix_def whiteoutPrefix_def stateDirName_def)
  note A = readdir_lookup_agree [OF W(1) pre(1) W(2) pre(2-5)]
  obtain i a where g: "GetChild r db (r_rootID r) ''a'' = Inr (i, a)" using W(3) by (auto simp: is_ok_iff)
  obtain cs where cs: "children_of r db (r_rootID r) = Inr cs" "distinct (map fst cs)"
    using md_dir.children_ok [OF W(1)] by (auto simp: root_node_def)
  have "(''a'', i, a_Mode a) \<in> set cs" using md_dir.child_iff [OF W(1)] cs g by (auto simp: root_node_def)
  moreover have "children_of r db (nd_id (root_node r)) = Inr cs" using cs(1) by (simp add: root_node_def)
  ultimately have "inodeOfID sample_fs i \<noteq> None"
    using readdir_entries(4) [OF pre(1) W(2) _ cs(2)] pre(2) by blast
  then obtain x where x: "inodeOfID sample_fs i = Some x" by blast
  have "found_as (\<lambda>a b. 0) res (fileModeToSystemMode (a_Mode a)) x"
    using L g x pre(2,4) by (auto simp: node_Lookup_def lookup_store_def root_node_def Let_def found_as_def entryToAttr_def)
  then have "\<lparr>de_Mode = fileModeToSystemMode (a_Mode a), de_Name = ''a'', de_Ino = x\<rparr> \<in> set ents"
    using A [OF disjI1 [OF refl] L] by blast
  then show ?thesis using W(2) L2 A [OF disjI2 [OF refl] L2] by blast
qed

section \<open>Whiteouts\<close>

text \<open>
  A file whose name has the whiteout prefix twice, like the \<^verbatim>\<open>.wh..wh.plnk\<close> that aufs writes, makes
  a directory inconsistent: its listing shows the name without the first prefix, and every lookup
  of that name answers that it does not exist.
\<close>

theorem double_whiteout_listed_not_found:
  assumes "stored_dir r db (nd_id n)" and "\<not> nd_entsCached n" and "readdir r db n fs = (fs', n', Inr ents)"
    and "is_ok (GetChild r db (nd_id n) (whiteoutPrefix @ whiteoutPrefix @ name))" and "name \<noteq> ''.opq''"
  shows "(\<exists>ino. \<lparr>de_Mode = S_IFCHR, de_Name = whiteoutPrefix @ name, de_Ino = ino\<rparr> \<in> set ents) \<and>
    (\<forall>m memory. \<exists>fs1. node_Lookup mkdev r db memory m (whiteoutPrefix @ name) fs = (fs1, m, Inl ENOENT))"
proof -
  let ?w = "whiteoutPrefix @ whiteoutPrefix @ name"
  obtain cs where cs: "children_of r db (nd_id n) = Inr cs" "distinct (map fst cs)"
    using md_dir.children_ok [OF assms(1)] by blast
  obtain i a where "GetChild r db (nd_id n) ?w = Inr (i, a)" using assms(4) by (auto simp: is_ok_iff)
  moreover have ne: "?w \<noteq> ''''" "?w \<noteq> whiteoutOpaqueDir" "has_prefix ?w whiteoutPrefix"
      "drop (length whiteoutPrefix) ?w = whiteoutPrefix @ name"
    using assms(5) by (auto simp: whiteoutPrefix_def whiteoutOpaqueDir_def has_prefix_def)
  ultimately have w: "(?w, i, a_Mode a) \<in> set cs" using md_dir.child_iff [OF assms(1) cs(1) ne(1)] by blast
  have "whiteout_entry fs (?w, i) \<in> set ents"
    unfolding readdir_entries(3) [OF assms(2,3) cs] ne(4)
    by (intro disjI2 exI [of _ ?w] exI [of _ i] exI [of _ "a_Mode a"] conjI) (use w ne in \<open>simp_all\<close>)
  then have "\<exists>ino. \<lparr>de_Mode = S_IFCHR, de_Name = whiteoutPrefix @ name, de_Ino = ino\<rparr> \<in> set ents"
    using ne(4) by (auto simp: whiteout_entry_def)
  then show ?thesis by (simp add: node_Lookup_def Let_def)
qed

theorem double_whiteout_listed_not_found_witness:
  "\<exists>r db n' ents ino fs1. readdir r db (root_node r) sample_fs = (sample_fs, n', Inr ents) \<and>
     \<lparr>de_Mode = S_IFCHR, de_Name = ''.wh.c'', de_Ino = ino\<rparr> \<in> set ents \<and>
     node_Lookup (\<lambda>a b. 0) r db Map.empty (root_node r) ''.wh.c'' sample_fs = (fs1, root_node r, Inl ENOENT)"
proof -
  obtain r db n' ents where W: "stored_dir r db (nd_id (root_node r))"
      "readdir r db (root_node r) sample_fs = (sample_fs, n', Inr ents)" "is_ok (GetChild r db (r_rootID r) ''.wh..wh.c'')"
    using wh_dir by metis
  have "\<not> nd_entsCached (root_node r)" "is_ok (GetChild r db (nd_id (root_node r)) (whiteoutPrefix @ whiteoutPrefix @ ''c''))"
    using W(3) by (simp_all add: root_node_def whiteoutPrefix_def)
  from double_whiteout_listed_not_found [OF W(1) this(1) W(2) this(2), of "\<lambda>a b. 0"] W(2) show ?thesis
    by (auto simp: whiteoutPrefix_def) blast
qed

text \<open>
  The attributes of a whiteout change when it is looked up again: once go-fuse holds its inode,
  \<^verbatim>\<open>Lookup\<close> reports the attributes of the marker file, a regular file with its size, while the first
  lookup and \<^verbatim>\<open>Getattr\<close> report an empty character device.
\<close>

theorem whiteout_lookup_again:
  assumes "inodeOfID fs i = Some ino" and "and (a_Mode a) ModeType = 0" and "memory name = Some (WhiteoutChild i a)"
    and "\<not> has_prefix name whiteoutPrefix" and "\<not> (isRootNode fs n \<and> name = stateDirName)"
  shows "\<exists>fs1 fs2 at wh. node_Lookup mkdev r db memory n name fs = (fs1, n, Inr (WhiteoutChild i a, at)) \<and>
    whiteout_Getattr mkdev i a fs = (fs2, Inr wh) \<and> and (fa_Mode at) 61440 = S_IFREG \<and> and (fa_Mode wh) 61440 = S_IFCHR \<and>
    fa_Size at = word_of_int (a_Size a) \<and> fa_Size wh = 0"
proof -
  let ?m = "a_Mode a"
  have "ModeSymlink = and ModeType ModeSymlink" by (simp add: ModeType_def mode_defs)
  then have "and ?m ModeSymlink = and (and ?m ModeType) ModeSymlink" by (simp only: and.assoc)
  then have sym: "and ?m ModeSymlink = 0" using assms(2) by simp
  have t: "(if and ?m ModeType = ModeDevice then S_IFBLK else if and ?m ModeType = or ModeDevice ModeCharDevice then S_IFCHR
      else if and ?m ModeType = ModeDir then S_IFDIR else if and ?m ModeType = ModeNamedPipe then S_IFIFO
      else if and ?m ModeType = ModeSymlink then S_IFLNK else if and ?m ModeType = ModeSocket then S_IFSOCK else S_IFREG) = S_IFREG"
    by (simp add: assms(2) mode_defs ModeSocket_def)
  have "and (fileModeToSystemMode ?m) 61440 = S_IFREG"
    unfolding fileModeToSystemMode_def Let_def t
    by (simp add: bit.conj_disj_distrib2 and.assoc S_IFREG_def ModePerm_def)
  then show ?thesis
    using assms sym
    by (auto simp: node_Lookup_def lookup_memory_def whiteout_Getattr_def getattr_as_def Let_def entryToAttr_def entryToWhAttr_def
        S_IFCHR_def)
qed

theorem whiteout_lookup_again_witness:
  "\<exists>fs1 fs2 at wh. node_Lookup (\<lambda>a b. 0) \<lparr>r_fsID = ''fs1'', r_rootID = 1, r_curID = 0\<rparr> None
       [''b'' \<mapsto> WhiteoutChild 3 (zero_attr\<lparr>a_Mode := 420, a_Size := 5\<rparr>)]
       (root_node \<lparr>r_fsID = ''fs1'', r_rootID = 1, r_curID = 0\<rparr>) ''b'' sample_fs =
       (fs1, root_node \<lparr>r_fsID = ''fs1'', r_rootID = 1, r_curID = 0\<rparr>,
        Inr (WhiteoutChild 3 (zero_attr\<lparr>a_Mode := 420, a_Size := 5\<rparr>), at)) \<and>
     whiteout_Getattr (\<lambda>a b. 0) 3 (zero_attr\<lparr>a_Mode := 420, a_Size := 5\<rparr>) sample_fs = (fs2, Inr wh) \<and>
     fa_Size at = 5 \<and> fa_Size wh = 0"
proof -
  let ?a = "zero_attr\<lparr>a_Mode := 420, a_Size := 5\<rparr>" and ?r = "\<lparr>r_fsID = ''fs1'', r_rootID = 1, r_curID = 0\<rparr>"
  have i: "inodeOfID sample_fs 3 = Some (inode_of 1 6)" by (simp add: inodeOfID_def sample_fs_def)
  have m: "and (a_Mode ?a) ModeType = 0" by (simp add: ModeType_def mode_defs)
  have p: "\<not> has_prefix ''b'' whiteoutPrefix" "\<not> (isRootNode sample_fs (root_node ?r) \<and> ''b'' = stateDirName)"
    by (simp_all add: has_prefix_def whiteoutPrefix_def stateDirName_def)
  from whiteout_lookup_again [OF i m, of "[''b'' \<mapsto> WhiteoutChild 3 ?a]" "''b''" "root_node ?r" "\<lambda>a b. 0" ?r None] p
  show ?thesis by auto
qed

end
