(* ===== verification/Unpack_Jobs.thy ===== *)
theory Unpack_Jobs
  imports Prelude "HOL-Library.AList"
begin

text \<open>
  The jobs of a parallel pull, \<^verbatim>\<open>fs/adaptive_fetch_image_layers.go\<close>: one job per image, one per layer to
  unpack, a directory on disk for each, the garbage collector that removes expired jobs and
  directories without a job, and the limits on concurrent downloads and unpacks.

  Layer jobs are shared by pointer between the table and the goroutines that work on them, so they
  live in a heap; the table refers to them by address. An operation holds the lock of the table from
  its first line to its last, so a schedule is a sequence of operations; the garbage collector takes the
  lock only for its snapshot and for each image that it cancels.
\<close>

section \<open>Storage\<close>

datatype job_error =
    EmptyJobID | UniqueIDFailure | JobNotFound | DiskFailed | ImageJobNotFound string | ImageHasNoLayers string
  | LayerHasNoJobs string | NoClaimableLayerJobs | LayerJobNotFound | CannotBeCleaned string | JobPanic

text \<open>The outcomes of the system calls of one operation, and the random keys that it draws.\<close>

record disk_outcome =
  do_keys :: "string list"
  do_mkdir :: bool
  do_readdir :: bool
  do_removed :: bool

text \<open>The interface \<^verbatim>\<open>LayerUnpackJobStorage\<close>.\<close>

record 'd job_storage_ops =
  st_Create :: "disk_outcome \<Rightarrow> 'd \<Rightarrow> 'd \<times> (job_error + string)"
  st_GetJobPath :: "string \<Rightarrow> 'd \<Rightarrow> job_error + string"
  st_Keys :: "disk_outcome \<Rightarrow> 'd \<Rightarrow> job_error + string list"
  st_Delete :: "disk_outcome \<Rightarrow> string \<Rightarrow> 'd \<Rightarrow> 'd \<times> job_error option"

text \<open>\<^verbatim>\<open>LayerUnpackDiskStorage\<close>: the names of the directories below \<^verbatim>\<open>unpackRoot\<close>.\<close>

definition maxRetriesUniqueID :: nat where
  "maxRetriesUniqueID = 10"

definition disk_contains :: "string \<Rightarrow> string list \<Rightarrow> bool" where
  "disk_contains i disk \<longleftrightarrow> i \<in> set disk"

definition generateUniqueKey :: "string list \<Rightarrow> string list \<Rightarrow> job_error + string" where
  "generateUniqueKey keys disk =
     (case find (\<lambda>k. k \<noteq> '''' \<and> \<not> disk_contains k disk) (take maxRetriesUniqueID keys) of
        None \<Rightarrow> Inl UniqueIDFailure | Some k \<Rightarrow> Inr k)"

definition disk_Create :: "disk_outcome \<Rightarrow> string list \<Rightarrow> string list \<times> (job_error + string)" where
  "disk_Create oc disk =
     (case generateUniqueKey (do_keys oc) disk of
        Inl e \<Rightarrow> (disk, Inl e)
      | Inr key \<Rightarrow> if do_mkdir oc then (disk @ [key], Inr key) else (disk, Inl DiskFailed))"

definition disk_GetJobPath :: "string \<Rightarrow> string list \<Rightarrow> job_error + string" where
  "disk_GetJobPath i disk = (if disk_contains i disk then Inr i else Inl JobNotFound)"

definition disk_Keys :: "disk_outcome \<Rightarrow> string list \<Rightarrow> job_error + string list" where
  "disk_Keys oc disk = (if do_readdir oc then Inr disk else Inl DiskFailed)"

definition disk_Delete :: "disk_outcome \<Rightarrow> string \<Rightarrow> string list \<Rightarrow> string list \<times> job_error option" where
  "disk_Delete oc i disk =
     (if i = '''' then (disk, Some EmptyJobID)
      else if do_removed oc then (removeAll i disk, None) else (disk, Some DiskFailed))"

definition LayerUnpackDiskStorage :: "string list job_storage_ops" where
  "LayerUnpackDiskStorage = \<lparr>st_Create = disk_Create, st_GetJobPath = disk_GetJobPath, st_Keys = disk_Keys, st_Delete = disk_Delete\<rparr>"

section \<open>Jobs\<close>

datatype job_status = InProgress | Claimed | JobDone | JobFailed | JobCancelled

record layer_job =
  lj_image :: string
  lj_layer :: string
  lj_id :: string
  lj_time :: int
  lj_ctx :: nat
  lj_status :: job_status

record image_job =
  ij_digest :: string
  ij_time :: int
  ij_ctx :: nat
  ij_layers :: "(string \<times> nat list) list"

text \<open>\<open>uj_cancelled\<close> are the contexts whose cancel function was called.\<close>

record 'd unpack_jobs =
  uj_images :: "(string \<times> image_job) list"
  uj_heap :: "layer_job list"
  uj_cancelled :: "nat set"
  uj_storage :: 'd

definition newImageUnpackJob :: "string \<Rightarrow> nat \<Rightarrow> int \<Rightarrow> image_job" where
  "newImageUnpackJob imageDigest ctx now = \<lparr>ij_digest = imageDigest, ij_time = now, ij_ctx = ctx, ij_layers = []\<rparr>"

definition imageExists :: "string \<Rightarrow> 'd unpack_jobs \<Rightarrow> bool" where
  "imageExists imageDigest jobs \<longleftrightarrow> map_of (uj_images jobs) imageDigest \<noteq> None"

definition GetOrAddImageJob :: "string \<Rightarrow> nat \<Rightarrow> int \<Rightarrow> 'd unpack_jobs \<Rightarrow> 'd unpack_jobs \<times> image_job" where
  "GetOrAddImageJob imageDigest ctx now jobs =
     (case map_of (uj_images jobs) imageDigest of
        Some ij \<Rightarrow> (jobs, ij)
      | None \<Rightarrow> let ij = newImageUnpackJob imageDigest ctx now in
          (jobs\<lparr>uj_images := AList.update imageDigest ij (uj_images jobs)\<rparr>, ij))"

definition layer_jobs :: "image_job \<Rightarrow> string \<Rightarrow> nat list" where
  "layer_jobs ij layer = (case map_of (ij_layers ij) layer of None \<Rightarrow> [] | Some js \<Rightarrow> js)"

definition newLayerUnpackJob ::
    "'d job_storage_ops \<Rightarrow> disk_outcome \<Rightarrow> image_job \<Rightarrow> string \<Rightarrow> 'd \<Rightarrow> 'd \<times> (job_error + layer_job)" where
  "newLayerUnpackJob st oc imageJob layerDigest d =
     (case st_Create st oc d of
        (d', Inl e) \<Rightarrow> (d', Inl e)
      | (d', Inr i) \<Rightarrow>
        (case st_GetJobPath st i d' of
           Inl e \<Rightarrow> (d', Inl e)
         | Inr path \<Rightarrow> (d', Inr \<lparr>lj_image = ij_digest imageJob, lj_layer = layerDigest, lj_id = i, lj_time = ij_time imageJob,
             lj_ctx = ij_ctx imageJob, lj_status = InProgress\<rparr>)))"

text \<open>
  \<^verbatim>\<open>AddLayerJob\<close> looks the image up by the digest of the job that it is given; when the image has been
  removed since, the lookup is a nil pointer and reading its \<^verbatim>\<open>layers\<close> panics.
\<close>

definition AddLayerJob ::
    "'d job_storage_ops \<Rightarrow> disk_outcome \<Rightarrow> image_job \<Rightarrow> string \<Rightarrow> 'd unpack_jobs \<Rightarrow> 'd unpack_jobs \<times> (job_error + nat)" where
  "AddLayerJob st oc imageJob layerDigest jobs =
     (case newLayerUnpackJob st oc imageJob layerDigest (uj_storage jobs) of
        (d, Inl e) \<Rightarrow> (jobs\<lparr>uj_storage := d\<rparr>, Inl e)
      | (d, Inr lj) \<Rightarrow>
        (case map_of (uj_images jobs) (ij_digest imageJob) of
           None \<Rightarrow> (jobs\<lparr>uj_storage := d\<rparr>, Inl JobPanic)
         | Some ij \<Rightarrow>
             let a = length (uj_heap jobs);
                 ij' = ij\<lparr>ij_layers := AList.update layerDigest (layer_jobs ij layerDigest @ [a]) (ij_layers ij)\<rparr> in
             (jobs\<lparr>uj_storage := d, uj_heap := uj_heap jobs @ [lj],
                uj_images := AList.update (ij_digest imageJob) ij' (uj_images jobs)\<rparr>, Inr a)))"

definition checkLayerExists :: "string \<Rightarrow> string \<Rightarrow> 'd unpack_jobs \<Rightarrow> job_error + image_job" where
  "checkLayerExists imageDigest layerDigest jobs =
     (case map_of (uj_images jobs) imageDigest of
        None \<Rightarrow> Inl (ImageJobNotFound imageDigest)
      | Some ij \<Rightarrow>
          if ij_layers ij = [] then Inl (ImageHasNoLayers imageDigest)
          else if layer_jobs ij layerDigest = [] then Inl (LayerHasNoJobs layerDigest)
          else Inr ij)"

definition set_status :: "nat \<Rightarrow> job_status \<Rightarrow> 'd unpack_jobs \<Rightarrow> 'd unpack_jobs" where
  "set_status a s jobs = jobs\<lparr>uj_heap := (uj_heap jobs)[a := (uj_heap jobs ! a)\<lparr>lj_status := s\<rparr>]\<rparr>"

text \<open>\<^verbatim>\<open>Claim\<close> of one job: a compare-and-swap from in progress to claimed.\<close>

definition claimable :: "'d unpack_jobs \<Rightarrow> nat \<Rightarrow> bool" where
  "claimable jobs a \<longleftrightarrow> lj_status (uj_heap jobs ! a) = InProgress"

definition Claim :: "string \<Rightarrow> string \<Rightarrow> 'd unpack_jobs \<Rightarrow> 'd unpack_jobs \<times> (job_error + nat)" where
  "Claim imageDigest layerDigest jobs =
     (case checkLayerExists imageDigest layerDigest jobs of
        Inl e \<Rightarrow> (jobs, Inl e)
      | Inr ij \<Rightarrow>
        (case find (claimable jobs) (layer_jobs ij layerDigest) of
           None \<Rightarrow> (jobs, Inl NoClaimableLayerJobs)
         | Some a \<Rightarrow> (set_status a Claimed jobs, Inr a)))"

definition cancel_ctx :: "nat \<Rightarrow> 'd unpack_jobs \<Rightarrow> 'd unpack_jobs" where
  "cancel_ctx c jobs = jobs\<lparr>uj_cancelled := insert c (uj_cancelled jobs)\<rparr>"

definition layer_Cancel :: "nat \<Rightarrow> 'd unpack_jobs \<Rightarrow> 'd unpack_jobs" where
  "layer_Cancel a jobs = set_status a JobCancelled (cancel_ctx (lj_ctx (uj_heap jobs ! a)) jobs)"

definition RemoveImageWithError :: "string \<Rightarrow> 'd unpack_jobs \<Rightarrow> 'd unpack_jobs \<times> job_error option" where
  "RemoveImageWithError imageDigest jobs =
     (case map_of (uj_images jobs) imageDigest of
        None \<Rightarrow> (jobs, Some (ImageJobNotFound imageDigest))
      | Some ij \<Rightarrow> (cancel_ctx (ij_ctx ij) jobs\<lparr>uj_images := AList.delete imageDigest (uj_images jobs)\<rparr>, None))"

text \<open>\<^verbatim>\<open>remove\<close>: the first job of the layer with the given ID, when it is claimed or cancelled.\<close>

definition remove_job :: "nat \<Rightarrow> 'd unpack_jobs \<Rightarrow> 'd unpack_jobs \<times> job_error option" where
  "remove_job job jobs =
     (let j = uj_heap jobs ! job; img = lj_image j; layer = lj_layer j in
      case checkLayerExists img layer jobs of
        Inl e \<Rightarrow> (jobs, Some e)
      | Inr ij \<Rightarrow>
        (case find (\<lambda>a. lj_id (uj_heap jobs ! a) = lj_id j) (layer_jobs ij layer) of
           None \<Rightarrow> (jobs, Some LayerJobNotFound)
         | Some a \<Rightarrow>
             if lj_status (uj_heap jobs ! a) \<noteq> Claimed \<and> lj_status (uj_heap jobs ! a) \<noteq> JobCancelled
             then (jobs, Some (CannotBeCleaned (lj_id j)))
             else
               let rest = remove1 a (layer_jobs ij layer);
                   layers = (if rest = [] then AList.delete layer (ij_layers ij) else AList.update layer rest (ij_layers ij)) in
               if layers = []
               then (cancel_ctx (ij_ctx ij) jobs\<lparr>uj_images := AList.delete img (uj_images jobs)\<rparr>, None)
               else (jobs\<lparr>uj_images := AList.update img (ij\<lparr>ij_layers := layers\<rparr>) (uj_images jobs)\<rparr>, None)))"

section \<open>The garbage collector\<close>

record jobs_snapshot =
  js_inMemory :: "(string \<times> string \<times> int) list"
  js_inStorage :: "string list"

text \<open>The addresses of the jobs in the table.\<close>

definition tracked :: "'d unpack_jobs \<Rightarrow> nat list" where
  "tracked jobs = concat (map (\<lambda>(d, ij). concat (map snd (ij_layers ij))) (uj_images jobs))"

definition Snapshot :: "'d job_storage_ops \<Rightarrow> disk_outcome \<Rightarrow> 'd unpack_jobs \<Rightarrow> job_error + jobs_snapshot" where
  "Snapshot st oc jobs =
     bind_res (st_Keys st oc (uj_storage jobs)) (\<lambda>ks.
       Inr \<lparr>js_inMemory = map (\<lambda>a. let j = uj_heap jobs ! a in (lj_id j, lj_image j, lj_time j)) (tracked jobs),
            js_inStorage = ks\<rparr>)"

text \<open>
  One round of the loop of \<^verbatim>\<open>garbageCollectIfExpired\<close>: whether the entry is dropped from the snapshot,
  with the set of images cancelled in this sweep.
\<close>

definition expire_entry ::
    "int \<Rightarrow> int \<Rightarrow> string \<times> string \<times> int \<Rightarrow> string set \<Rightarrow> 'd unpack_jobs \<Rightarrow> 'd unpack_jobs \<times> string set \<times> bool" where
  "expire_entry now expiry e cancelled jobs =
     (case e of (i, img, t) \<Rightarrow>
        if img \<in> cancelled then (jobs, cancelled, True)
        else if now - t > expiry
        then (case RemoveImageWithError img jobs of
                (jobs', Some err) \<Rightarrow> (jobs', cancelled, False)
              | (jobs', None) \<Rightarrow> (jobs', insert img cancelled, True))
        else (jobs, cancelled, False))"

fun expire_loop ::
    "int \<Rightarrow> int \<Rightarrow> (string \<times> string \<times> int) list \<Rightarrow> string set \<Rightarrow> 'd unpack_jobs \<Rightarrow> 'd unpack_jobs \<times> (string \<times> string \<times> int) list" where
  "expire_loop now expiry [] cancelled jobs = (jobs, [])"
| "expire_loop now expiry (e # es) cancelled jobs =
     (case expire_entry now expiry e cancelled jobs of (jobs1, cancelled1, dropped) \<Rightarrow>
        (case expire_loop now expiry es cancelled1 jobs1 of (jobs2, es') \<Rightarrow> (jobs2, if dropped then es' else e # es')))"

text \<open>One round of \<^verbatim>\<open>garbageCollectIfNotFoundInMemory\<close>: whether the directory was deleted.\<close>

definition sweep_entry ::
    "'d job_storage_ops \<Rightarrow> disk_outcome \<Rightarrow> (string \<times> string \<times> int) list \<Rightarrow> string \<Rightarrow> 'd unpack_jobs \<Rightarrow> 'd unpack_jobs \<times> bool" where
  "sweep_entry st oc inMemory i jobs =
     (if i \<in> fst ` set inMemory then (jobs, False)
      else case st_Delete st oc i (uj_storage jobs) of
        (d, None) \<Rightarrow> (jobs\<lparr>uj_storage := d\<rparr>, True)
      | (d, Some e) \<Rightarrow> (jobs\<lparr>uj_storage := d\<rparr>, False))"

fun sweep_loop ::
    "'d job_storage_ops \<Rightarrow> disk_outcome \<Rightarrow> (string \<times> string \<times> int) list \<Rightarrow> string list \<Rightarrow> 'd unpack_jobs \<Rightarrow> 'd unpack_jobs" where
  "sweep_loop st oc inMemory [] jobs = jobs"
| "sweep_loop st oc inMemory (i # is) jobs = sweep_loop st oc inMemory is (fst (sweep_entry st oc inMemory i jobs))"

definition gc_tick :: "'d job_storage_ops \<Rightarrow> disk_outcome \<Rightarrow> int \<Rightarrow> int \<Rightarrow> 'd unpack_jobs \<Rightarrow> 'd unpack_jobs" where
  "gc_tick st oc now expiry jobs =
     (case Snapshot st oc jobs of
        Inl e \<Rightarrow> jobs
      | Inr snap \<Rightarrow>
        (case expire_loop now expiry (js_inMemory snap) {} jobs of (jobs1, inMemory) \<Rightarrow>
           sweep_loop st oc inMemory (js_inStorage snap) jobs1))"

section \<open>Limits\<close>

text \<open>
  \<^verbatim>\<open>semaphore.Weighted\<close> is a library type, given by its operations. \<open>sw_Acquire\<close> is \<^const>\<open>None\<close> when the context
  ended before the permits were free; the first argument is that context.
\<close>

record ('c, 's) weighted =
  sw_NewWeighted :: "int \<Rightarrow> 's"
  sw_Acquire :: "'c \<Rightarrow> int \<Rightarrow> 's \<Rightarrow> 's option"
  sw_Release :: "int \<Rightarrow> 's \<Rightarrow> 's"

definition unlimited :: int where
  "unlimited = 0"

definition Unbounded :: int where
  "Unbounded = - 1"

text \<open>\<^verbatim>\<open>SemaphoreWithNil\<close>: \<^const>\<open>None\<close> is the nil pointer, no limit.\<close>

definition NewSemaphoreWithNil :: "('c, 's) weighted \<Rightarrow> int \<Rightarrow> 's option" where
  "NewSemaphoreWithNil W n = (if n > unlimited then Some (sw_NewWeighted W n) else None)"

definition Acquire :: "('c, 's) weighted \<Rightarrow> 'c \<Rightarrow> int \<Rightarrow> 's option \<Rightarrow> 's option option" where
  "Acquire W ctx n s = (case s of None \<Rightarrow> Some None | Some smp \<Rightarrow> map_option Some (sw_Acquire W ctx n smp))"

definition Release :: "('c, 's) weighted \<Rightarrow> int \<Rightarrow> 's option \<Rightarrow> 's option" where
  "Release W n s = map_option (sw_Release W n) s"

text \<open>The limits of the configuration.\<close>

record parallel_config =
  pc_Enable :: bool
  pc_AsFallback :: bool
  pc_MaxConcurrentDownloads :: int
  pc_MaxConcurrentDownloadsPerImage :: int
  pc_MaxConcurrentUnpacks :: int
  pc_MaxConcurrentUnpacksPerImage :: int

datatype limit_error = ConfigIsNil | ParallelPullIsDisabled | DownloadLimit | UnpackLimit

definition checkParallelPullUnpack :: "parallel_config option \<Rightarrow> limit_error list" where
  "checkParallelPullUnpack cfg =
     (case cfg of
        None \<Rightarrow> [ConfigIsNil]
      | Some c \<Rightarrow>
          if \<not> pc_Enable c \<and> \<not> pc_AsFallback c then [ParallelPullIsDisabled]
          else
            (if pc_MaxConcurrentDownloads c > unlimited \<and> pc_MaxConcurrentDownloadsPerImage c > pc_MaxConcurrentDownloads c
             then [DownloadLimit] else []) @
            (if pc_MaxConcurrentUnpacks c > unlimited \<and> pc_MaxConcurrentUnpacksPerImage c > pc_MaxConcurrentUnpacks c
             then [UnpackLimit] else []))"

definition limit_of :: "int \<Rightarrow> int" where
  "limit_of limit = (if limit = Unbounded then unlimited else limit)"

text \<open>The limiters that a layer job shares with its image and with all images, for downloads or for unpacks.\<close>

record 's limiters =
  lim_image :: "'s option"
  lim_global :: "'s option"

definition downloads_limiters :: "('c, 's) weighted \<Rightarrow> parallel_config \<Rightarrow> 's limiters" where
  "downloads_limiters W c =
     \<lparr>lim_image = NewSemaphoreWithNil W (limit_of (pc_MaxConcurrentDownloadsPerImage c)),
      lim_global = NewSemaphoreWithNil W (limit_of (pc_MaxConcurrentDownloads c))\<rparr>"

definition unpacks_limiters :: "('c, 's) weighted \<Rightarrow> parallel_config \<Rightarrow> 's limiters" where
  "unpacks_limiters W c =
     \<lparr>lim_image = NewSemaphoreWithNil W (limit_of (pc_MaxConcurrentUnpacksPerImage c)),
      lim_global = NewSemaphoreWithNil W (limit_of (pc_MaxConcurrentUnpacks c))\<rparr>"

text \<open>The context may end between the two calls, so each call has its own.\<close>

definition AcquireDownload :: "('c, 's) weighted \<Rightarrow> 'c \<Rightarrow> 'c \<Rightarrow> int \<Rightarrow> 's limiters \<Rightarrow> 's limiters \<times> bool" where
  "AcquireDownload W ctx1 ctx2 n l =
     (case Acquire W ctx1 n (lim_image l) of
        None \<Rightarrow> (l, False)
      | Some s \<Rightarrow>
        (case Acquire W ctx2 n (lim_global l) of
           None \<Rightarrow> (l\<lparr>lim_image := s\<rparr>, False)
         | Some g \<Rightarrow> (l\<lparr>lim_image := s, lim_global := g\<rparr>, True)))"

definition ReleaseDownload :: "('c, 's) weighted \<Rightarrow> int \<Rightarrow> 's limiters \<Rightarrow> 's limiters" where
  "ReleaseDownload W n l = l\<lparr>lim_image := Release W n (lim_image l), lim_global := Release W n (lim_global l)\<rparr>"

text \<open>The second component is the function that frees the lease, when there is one.\<close>

definition AcquireUnpackLease ::
    "('c, 's) weighted \<Rightarrow> 'c \<Rightarrow> 'c \<Rightarrow> 's limiters \<Rightarrow> 's limiters \<times> ('s limiters \<Rightarrow> 's limiters) option" where
  "AcquireUnpackLease W ctx1 ctx2 l =
     (case Acquire W ctx1 1 (lim_image l) of
        None \<Rightarrow> (l, None)
      | Some s \<Rightarrow>
        (case Acquire W ctx2 1 (lim_global l) of
           None \<Rightarrow> (l\<lparr>lim_image := Release W 1 s\<rparr>, None)
         | Some g \<Rightarrow> (l\<lparr>lim_image := s, lim_global := g\<rparr>,
             Some (\<lambda>l. l\<lparr>lim_image := Release W 1 (lim_image l), lim_global := Release W 1 (lim_global l)\<rparr>))))"

end
