(* ===== verification/Parallel_Fetch.thy ===== *)
theory Parallel_Fetch
  imports Remote_Blob Unpack_Jobs
begin

text \<open>
  Fetching and unpacking a layer in a parallel pull: the ranges of \<^verbatim>\<open>fs/parallel_artifact_fetcher.go\<close> and
  \<^verbatim>\<open>fs/artifact_fetcher.go\<close>, which are fetched by concurrent requests and written into one file, the
  verification of digests in \<^verbatim>\<open>fs/unpacker.go\<close>, and \<^verbatim>\<open>Unpack\<close> of \<^verbatim>\<open>fs/parallel_unpacker.go\<close>. The registry, the
  content store, the decompressor, the extraction of an archive and the digest algorithms are parameters.
\<close>

section \<open>Requests\<close>

datatype pull_error =
    IllogicalRange | RequestFailed | BadStatus int | NoRangeSupport | ReadFailed | ShortBody | WriteFailed
  | AcquireFailed | IngestExists | StatFailed | CreateFailed | TruncateFailed | SeekFailed | OpenFailed
  | ResolveFailed | FetchFailed | DecompressFailed | ApplyFailed | UncompressedMismatch | CompressedMismatch
  | NoLease | NoIngest | DestinationMissing | DestinationHasContent | StoreFailed

record descriptor =
  desc_Digest :: string
  desc_Size :: int

text \<open>A body gives its bytes and then ends, or breaks off with an error.\<close>

record body =
  bd_data :: bytes
  bd_broken :: bool

record http_reply =
  rp_status :: int
  rp_acceptRanges :: string
  rp_body :: body

text \<open>The registry for one layer: a GET with a range, the probe, a GET without a range and the resolver.\<close>

record registry =
  rg_range :: "int \<Rightarrow> int \<Rightarrow> http_reply option"
  rg_header :: "string option"
  rg_fetch :: "body option"
  rg_resolve :: "descriptor option"

definition GetContentWithRange :: "registry \<Rightarrow> int \<Rightarrow> int \<Rightarrow> pull_error + http_reply" where
  "GetContentWithRange rg lower upper =
     (if lower < 0 \<or> upper < lower then Inl IllogicalRange
      else case rg_range rg lower upper of
        None \<Rightarrow> Inl RequestFailed
      | Some resp \<Rightarrow> if rp_status resp = 200 \<or> rp_status resp = 206 then Inr resp else Inl (BadStatus (rp_status resp)))"

definition FetchRange :: "registry \<Rightarrow> int \<Rightarrow> int \<Rightarrow> pull_error + body" where
  "FetchRange rg lower upper =
     bind_res (GetContentWithRange rg lower upper) (\<lambda>resp.
       if rp_acceptRanges resp \<noteq> ''bytes'' then Inl NoRangeSupport else Inr (rp_body resp))"

definition doInitialFetch :: "registry \<Rightarrow> pull_error + bool" where
  "doInitialFetch rg = (case rg_header rg of None \<Rightarrow> Inl RequestFailed | Some h \<Rightarrow> Inr (h = ''bytes''))"

section \<open>Ranges\<close>

definition fetcher_chunkSize :: "int \<Rightarrow> int" where
  "fetcher_chunkSize chunkSize = (if chunkSize \<le> 0 then unlimited else chunkSize)"

definition getRange :: "int \<Rightarrow> int \<Rightarrow> int \<Rightarrow> int \<times> int" where
  "getRange chunkSize i descSize =
     (if chunkSize \<le> unlimited then (0, wrap64 (descSize - 1))
      else
        let lower = wrap64 (i * chunkSize);
            upper = min (wrap64 (lower + chunkSize)) descSize in
        (lower, wrap64 (upper - 1)))"

definition calcNumLoops :: "int \<Rightarrow> int \<Rightarrow> int" where
  "calcNumLoops chunkSize descSize =
     (if chunkSize \<le> 0 then 1
      else case (go_quot descSize chunkSize, go_rem descSize chunkSize) of
        (Some numLoops, Some r) \<Rightarrow> if r \<noteq> 0 then wrap64 (numLoops + 1) else numLoops
      | _ \<Rightarrow> 0)"

text \<open>Writing into a file at an offset: a write beyond the size leaves zeros before it.\<close>

definition pwrite :: "bytes \<Rightarrow> nat \<Rightarrow> bytes \<Rightarrow> bytes" where
  "pwrite file off bs = take off (file @ replicate (off - length file) 0) @ bs @ drop (off + length bs) file"

definition writeToEntireFile :: "bool \<Rightarrow> bytes \<Rightarrow> body \<Rightarrow> pull_error + bytes" where
  "writeToEntireFile works file rc =
     (if \<not> works then Inl WriteFailed
      else if bd_broken rc then Inl ReadFailed else Inr (pwrite file 0 (bd_data rc)))"

definition writeToFileRange :: "bool \<Rightarrow> bytes \<Rightarrow> body \<Rightarrow> int \<Rightarrow> int \<Rightarrow> pull_error + bytes" where
  "writeToFileRange works file rc lower upper =
     (let readSize = wrap64 (wrap64 (upper - lower) + 1) in
      if \<not> works then Inl WriteFailed
      else if int (length (bd_data rc)) < readSize then Inl (if bd_broken rc then ReadFailed else ShortBody)
      else Inr (pwrite file (nat lower) (take (nat readSize) (bd_data rc))))"

text \<open>
  The outcomes of one chunk. \<^verbatim>\<open>multiRequestFetchWrite\<close> starts a goroutine per chunk; they finish in any
  order, given by \<open>order\<close>. It fails when a permit was not acquired or a chunk failed.
\<close>

record chunk_env =
  ce_acquired :: bool
  ce_write :: bool

definition fetch_chunk :: "registry \<Rightarrow> int \<Rightarrow> int \<Rightarrow> chunk_env \<Rightarrow> int \<Rightarrow> bytes \<Rightarrow> pull_error + bytes" where
  "fetch_chunk rg chunkSize descSize ce i file =
     (case getRange chunkSize i descSize of (lower, upper) \<Rightarrow>
        bind_res (FetchRange rg lower upper) (\<lambda>rc. writeToFileRange (ce_write ce) file rc lower upper))"

fun run_chunks :: "registry \<Rightarrow> int \<Rightarrow> int \<Rightarrow> (int \<Rightarrow> chunk_env) \<Rightarrow> int list \<Rightarrow> bytes \<Rightarrow> pull_error + bytes" where
  "run_chunks rg chunkSize descSize env [] file = Inr file"
| "run_chunks rg chunkSize descSize env (i # order) file =
     bind_res (fetch_chunk rg chunkSize descSize (env i) i file) (run_chunks rg chunkSize descSize env order)"

definition multiRequestFetchWrite ::
    "registry \<Rightarrow> int \<Rightarrow> int \<Rightarrow> (int \<Rightarrow> chunk_env) \<Rightarrow> int list \<Rightarrow> int \<Rightarrow> bytes \<Rightarrow> pull_error + bytes" where
  "multiRequestFetchWrite rg chunkSize descSize env order numLoops file =
     (if \<exists>i \<in> set [0..numLoops - 1]. \<not> ce_acquired (env i) then Inl AcquireFailed
      else run_chunks rg chunkSize descSize env order file)"

definition oneRequestFetchWrite :: "registry \<Rightarrow> chunk_env \<Rightarrow> bytes \<Rightarrow> pull_error + bytes" where
  "oneRequestFetchWrite rg ce file =
     (if \<not> ce_acquired ce then Inl AcquireFailed
      else case rg_fetch rg of None \<Rightarrow> Inl FetchFailed | Some rc \<Rightarrow> writeToEntireFile (ce_write ce) file rc)"

section \<open>Fetching a layer\<close>

datatype stat_outcome = Exists | NotExist | StatError

record ingest_env =
  ie_stat :: stat_outcome
  ie_create :: bool
  ie_truncate :: bool
  ie_seek :: bool
  ie_open :: bool
  ie_one :: chunk_env
  ie_chunks :: "int \<Rightarrow> chunk_env"
  ie_order :: "int list"

definition fetchFromRemoteAndWriteToTempDir :: "registry \<Rightarrow> int \<Rightarrow> ingest_env \<Rightarrow> descriptor \<Rightarrow> pull_error + bytes" where
  "fetchFromRemoteAndWriteToTempDir rg chunkSize ie desc =
     (if ie_stat ie = Exists then Inl IngestExists
      else if ie_stat ie = StatError then Inl StatFailed
      else if \<not> ie_create ie then Inl CreateFailed
      else if \<not> ie_truncate ie \<or> desc_Size desc < 0 then Inl TruncateFailed
      else
        let file = replicate (nat (desc_Size desc)) 0;
            numLoops = calcNumLoops chunkSize (desc_Size desc) in
        bind_res (if numLoops > 1 then doInitialFetch rg else Inr False) (\<lambda>doMultipleFetches.
        bind_res (if doMultipleFetches
            then multiRequestFetchWrite rg chunkSize (desc_Size desc) (ie_chunks ie) (ie_order ie) numLoops file
            else oneRequestFetchWrite rg (ie_one ie) file) (\<lambda>file'.
          if \<not> ie_seek ie then Inl SeekFailed
          else if \<not> ie_open ie then Inl OpenFailed
          else Inr file')))"

text \<open>\<^verbatim>\<open>asyncVerifier\<close>: the digest to match and what \<^verbatim>\<open>AsyncVerify\<close> was given; \<^const>\<open>None\<close> is the nil verifier.\<close>

record verifier =
  av_expected :: string
  av_read :: "bytes option"

definition newAsyncVerifier :: "string \<Rightarrow> verifier" where
  "newAsyncVerifier d = \<lparr>av_expected = d, av_read = None\<rparr>"

definition AsyncVerify :: "bytes \<Rightarrow> verifier option \<Rightarrow> verifier option" where
  "AsyncVerify data av = map_option (\<lambda>v. v\<lparr>av_read := Some data\<rparr>) av"

text \<open>\<open>mat d data\<close> is whether the data has the digest; the context may end before the digest is known.\<close>

definition Verified :: "(string \<Rightarrow> bytes \<Rightarrow> bool) \<Rightarrow> bool \<Rightarrow> verifier option \<Rightarrow> bool" where
  "Verified mat ctx_ended av =
     (case av of None \<Rightarrow> True
      | Some v \<Rightarrow> (case av_read v of None \<Rightarrow> False | Some data \<Rightarrow> \<not> ctx_ended \<and> mat (av_expected v) data))"

text \<open>\<^verbatim>\<open>Fetch\<close>: the bytes, whether they are from the local store, and the verifier of the compressed layer.\<close>

definition parallel_Fetch ::
    "registry \<Rightarrow> int \<Rightarrow> ingest_env \<Rightarrow> bytes option \<Rightarrow> verifier option \<Rightarrow> descriptor \<Rightarrow> pull_error + bytes \<times> bool \<times> verifier option" where
  "parallel_Fetch rg chunkSize ie localStore av desc =
     (case localStore of
        Some data \<Rightarrow> Inr (data, True, av)
      | None \<Rightarrow>
        bind_res (if desc_Size desc = 0 then (case rg_resolve rg of None \<Rightarrow> Inl ResolveFailed | Some d \<Rightarrow> Inr d) else Inr desc) (\<lambda>desc'.
        bind_res (fetchFromRemoteAndWriteToTempDir rg chunkSize ie desc') (\<lambda>data. Inr (data, False, AsyncVerify data av))))"

section \<open>Unpacking a layer\<close>

text \<open>
  \<^verbatim>\<open>AsyncTeeReader\<close>: each \<^verbatim>\<open>Read\<close> gives some bytes and possibly an end. The bytes go to the verifier and to the
  pipe; an end that comes together with bytes is replaced by the result of writing them, and the loop
  reads again. A reader at its end keeps saying so.
\<close>

datatype read_result = ReadMore | ReadEOF | ReadErr

fun AsyncTeeReader :: "(bytes \<times> read_result) list \<Rightarrow> bytes \<times> bytes \<times> read_result" where
  "AsyncTeeReader [] = ([], [], ReadEOF)"
| "AsyncTeeReader ((b, r) # rs) =
     (if b \<noteq> [] then (case AsyncTeeReader rs of (w, p, e) \<Rightarrow> (b @ w, b @ p, e))
      else if r = ReadMore then AsyncTeeReader rs
      else ([], [], r))"

text \<open>
  What is given: the decompressor as the reads of its stream, and the extraction of an archive, with what it leaves in the
  destination and whether it succeeded.
\<close>

record 't archiver =
  ar_decompress :: "bytes \<Rightarrow> (bytes \<times> read_result) list option"
  ar_apply :: "bytes \<Rightarrow> read_result \<Rightarrow> 't \<times> bool"

text \<open>\<^verbatim>\<open>Apply\<close> extracts first and looks at the digests afterwards. The second component is what it left in the destination.\<close>

definition layerArchive_Apply ::
    "(string \<Rightarrow> bytes \<Rightarrow> bool) \<Rightarrow> bool \<Rightarrow> 't archiver \<Rightarrow> verifier option \<Rightarrow> verifier \<Rightarrow> bytes \<Rightarrow> (pull_error + 't) \<times> 't option" where
  "layerArchive_Apply mat ctx_ended ar compressed uncompressed r =
     (case ar_decompress ar r of
        None \<Rightarrow> (Inl DecompressFailed, None)
      | Some stream \<Rightarrow>
        (case AsyncTeeReader stream of (w, p, e) \<Rightarrow>
           (case ar_apply ar p e of (t, ok) \<Rightarrow>
              (if \<not> ok then Inl ApplyFailed
               else if \<not> Verified mat ctx_ended (AsyncVerify w (Some uncompressed)) then Inl UncompressedMismatch
               else if \<not> Verified mat ctx_ended compressed then Inl CompressedMismatch
               else Inr t, Some t))))"

text \<open>\<^verbatim>\<open>Push\<close> of the content store, to which an artifact may be known already.\<close>

datatype push_result = Pushed | AlreadyExists | PushFailed

record unpack_env =
  ue_lease :: bool
  ue_ingest :: bool
  ue_entries :: "nat option"
  ue_ctx_ended :: bool
  ue_push :: "bytes \<Rightarrow> push_result"

text \<open>\<^verbatim>\<open>Store\<close> takes an artifact that already exists for a success. The second component is what the store was given.\<close>

definition fetcher_Store :: "(bytes \<Rightarrow> push_result) \<Rightarrow> bytes \<Rightarrow> pull_error option \<times> bytes option" where
  "fetcher_Store push data =
     (case push data of Pushed \<Rightarrow> (None, Some data) | AlreadyExists \<Rightarrow> (None, None) | PushFailed \<Rightarrow> (Some StoreFailed, None))"

definition VerifyUnpackDestinationIsReady :: "nat option \<Rightarrow> pull_error option" where
  "VerifyUnpackDestinationIsReady entries =
     (case entries of None \<Rightarrow> Some DestinationMissing | Some n \<Rightarrow> if n = 0 then None else Some DestinationHasContent)"

text \<open>
  \<^verbatim>\<open>Unpack\<close>: its result, what was extracted into the mountpoint and what went into the content store. The store is
  written by another goroutine, whose error counts only when everything else succeeds.
\<close>

definition parallel_Unpack ::
    "(string \<Rightarrow> bytes \<Rightarrow> bool) \<Rightarrow> 't archiver \<Rightarrow> bool \<Rightarrow> unpack_env \<Rightarrow> verifier \<Rightarrow>
     pull_error + bytes \<times> bool \<times> verifier option \<Rightarrow> (pull_error + 't) \<times> 't option \<times> bytes option" where
  "parallel_Unpack mat ar discardUnpackedLayers ue uncompressed fetched =
     (case fetched of
        Inl e \<Rightarrow> (Inl e, None, None)
      | Inr (data, local, compressed) \<Rightarrow>
          if \<not> ue_lease ue then (Inl NoLease, None, None)
          else
            let storing = \<not> local \<and> \<not> discardUnpackedLayers in
            if storing \<and> \<not> ue_ingest ue then (Inl NoIngest, None, None)
            else
              let (store_err, stored) = (if storing then fetcher_Store (ue_push ue) data else (None, None)) in
              (case VerifyUnpackDestinationIsReady (ue_entries ue) of
                 Some e \<Rightarrow> (Inl e, None, stored)
               | None \<Rightarrow>
                 (case layerArchive_Apply mat (ue_ctx_ended ue) ar compressed uncompressed data of
                    (Inl e, extracted) \<Rightarrow> (Inl e, extracted, stored)
                  | (Inr t, extracted) \<Rightarrow> (case store_err of Some e \<Rightarrow> Inl e | None \<Rightarrow> Inr t, extracted, stored))))"

text \<open>\<^verbatim>\<open>premount\<close> up to its deferred function: the verifier of the compressed layer exists only when layers are discarded.\<close>

definition premount_unpack ::
    "(string \<Rightarrow> bytes \<Rightarrow> bool) \<Rightarrow> 't archiver \<Rightarrow> registry \<Rightarrow> int \<Rightarrow> bool \<Rightarrow> ingest_env \<Rightarrow> unpack_env \<Rightarrow> bytes option \<Rightarrow>
     descriptor \<Rightarrow> string \<Rightarrow> (pull_error + 't) \<times> 't option \<times> bytes option" where
  "premount_unpack mat ar rg chunkSize discardUnpackedLayers ie ue localStore desc diffID =
     (let compressedVerifier = (if discardUnpackedLayers then Some (newAsyncVerifier (desc_Digest desc)) else None) in
      parallel_Unpack mat ar discardUnpackedLayers ue (newAsyncVerifier diffID)
        (parallel_Fetch rg (fetcher_chunkSize chunkSize) ie localStore compressedVerifier desc))"

end
