(* ===== verification/Parallel_Pull.thy ===== *)
theory Parallel_Pull
  imports Parallel_Fetch
begin

text \<open>
  What a parallel pull fetches and unpacks. The chunks of a layer, finished in any order, give the layer; a layer is
  unpacked only into an empty directory and only when its digests match; with layers discarded after
  unpacking, a layer that is already in the content store is refused.
\<close>

section \<open>Chunks\<close>

lemma pwrite_nth:
  assumes "off + length bs \<le> length file"
  shows "length (pwrite file off bs) = length file"
    and "k < length file \<Longrightarrow> pwrite file off bs ! k = (if off \<le> k \<and> k < off + length bs then bs ! (k - off) else file ! k)"
  using assms by (auto simp: pwrite_def nth_append)

text \<open>A registry that serves the layer, with ranges when it says that it has them.\<close>

definition serves_layer :: "registry \<Rightarrow> bytes \<Rightarrow> bool" where
  "serves_layer rg content \<longleftrightarrow> rg_fetch rg = Some \<lparr>bd_data = content, bd_broken = False\<rparr> \<and> rg_header rg \<noteq> None \<and>
     (rg_header rg = Some ''bytes'' \<longrightarrow> (\<forall>lo hi. 0 \<le> lo \<and> lo \<le> hi \<and> hi < int (length content) \<longrightarrow>
        rg_range rg lo hi = Some \<lparr>rp_status = 206, rp_acceptRanges = ''bytes'',
          rp_body = \<lparr>bd_data = sub content lo (hi + 1), bd_broken = False\<rparr>\<rparr>))"

lemma calcNumLoops_pos:
  assumes "0 < c" and "0 \<le> n" and "n + c \<le> max_int64"
  shows "calcNumLoops c n = (n + c - 1) div c"
proof -
  have m: "n div c \<le> n" using assms(1,2) by (metis div_by_1 zdiv_mono2 int_one_le_iff_zero_less zero_less_one)
  have "(n + c - 1) div c = (if n mod c = 0 then n div c else n div c + 1)"
  proof -
    have b: "n = c * (n div c) + n mod c" "0 \<le> n mod c" "n mod c < c" using assms(1) by simp_all
    show ?thesis
      by (rule div_unique_interval [OF assms(1)]) (use b assms(1) in \<open>simp_all add: distrib_left, linarith+\<close>)
  qed
  moreover have "wrap64 (n div c + 1) = n div c + 1"
    using m assms pos_imp_zdiv_nonneg_iff [OF assms(1), of n] by (intro wrap64_id) auto
  ultimately show ?thesis using assms m by (auto simp: calcNumLoops_def go_int)
qed

lemma chunk_bounds:
  fixes c n i :: int
  assumes "0 < c" and "0 \<le> n" and "0 \<le> i" and "i < (n + c - 1) div c"
  shows "i * c < n"
proof -
  have "c * (i + 1) \<le> c * ((n + c - 1) div c)" using assms(1,4) by (intro mult_left_mono) auto
  also have "\<dots> \<le> n + c - 1" by (rule div_interval(1) [OF assms(1)])
  finally show ?thesis by (simp add: algebra_simps)
qed

text \<open>A layer of at most this size has no range that wraps around.\<close>

definition chunks_fit :: "int \<Rightarrow> bytes \<Rightarrow> bool" where
  "chunks_fit c content \<longleftrightarrow> int (length content) + max 0 c \<le> max_int64"

lemma fetch_chunk_ok:
  assumes "serves_layer rg content" and "rg_header rg = Some ''bytes''" and "chunks_fit c content" and "0 < c"
    and i: "0 \<le> i" "i < calcNumLoops c (int (length content))" and "ce_write ce"
  shows "fetch_chunk rg c (int (length content)) ce i file =
    Inr (pwrite file (nat (i * c)) (sub content (i * c) (min (i * c + c) (int (length content)))))"
proof -
  let ?n = "int (length content)"
  have f: "?n + c \<le> max_int64" using assms(3,4) by (simp add: chunks_fit_def)
  have l: "i * c < ?n" using chunk_bounds [of c ?n i] i assms(4) calcNumLoops_pos [of c ?n] f by simp
  have z: "0 \<le> i * c" using i(1) assms(4) by simp
  define u where "u = min (i * c + c) ?n"
  have u: "i * c < u" "u \<le> ?n" using l assms(4) by (auto simp: u_def)
  have g: "getRange c i ?n = (i * c, u - 1)"
    using assms(4) l f z u by (simp add: getRange_def unlimited_def Let_def go_int u_def [symmetric])
  have r: "FetchRange rg (i * c) (u - 1) = Inr \<lparr>bd_data = sub content (i * c) u, bd_broken = False\<rparr>"
    using assms(1,2) u z by (simp add: FetchRange_def GetContentWithRange_def serves_layer_def)
  have "int (length (sub content (i * c) u)) = u - i * c" using u z by (intro length_sub) auto
  moreover from this have "length (sub content (i * c) u) \<le> nat (u - i * c)" by linarith
  moreover have "wrap64 (wrap64 (u - 1 - i * c) + 1) = u - i * c"
  proof -
    have "wrap64 (u - 1 - i * c) = u - 1 - i * c" "wrap64 (u - i * c) = u - i * c"
      using u z f assms(4) by (intro wrap64_id; linarith)+
    then show ?thesis by simp
  qed
  ultimately show ?thesis
    unfolding fetch_chunk_def g using r assms(7) by (simp add: writeToFileRange_def Let_def u_def [symmetric])
qed

lemma run_chunks_ok:
  assumes "serves_layer rg content" and "rg_header rg = Some ''bytes''" and "chunks_fit c content" and "0 < c"
    and "set order \<subseteq> {0..<calcNumLoops c (int (length content))}" and "\<forall>i \<in> set order. ce_write (env i)"
    and "length file = length content"
  shows "\<exists>file'. run_chunks rg c (int (length content)) env order file = Inr file' \<and> length file' = length content \<and>
    (\<forall>k < length content. file' ! k = (if int k div c \<in> set order then content ! k else file ! k))"
  using assms(5-7)
proof (induction order arbitrary: "file")
  case (Cons i order)
  let ?n = "int (length content)"
  define u where "u = min (i * c + c) ?n"
  define file1 where "file1 = pwrite file (nat (i * c)) (sub content (i * c) u)"
  have i: "0 \<le> i" "i < calcNumLoops c ?n" using Cons.prems(1) by auto
  have f: "?n + c \<le> max_int64" using assms(3,4) by (simp add: chunks_fit_def)
  have l: "i * c < ?n" using chunk_bounds [of c ?n i] i assms(4) calcNumLoops_pos [of c ?n] f by simp
  have z: "0 \<le> i * c" using i(1) assms(4) by simp
  have u: "i * c < u" "u \<le> ?n" using l assms(4) by (auto simp: u_def)
  have len: "int (length (sub content (i * c) u)) = u - i * c" using u z by (intro length_sub) auto
  have fetch: "fetch_chunk rg c ?n (env i) i file = Inr file1"
    using fetch_chunk_ok [OF assms(1-4) i] Cons.prems(2) by (simp add: file1_def u_def)
  have fits: "nat (i * c) + length (sub content (i * c) u) \<le> length file" using len u z Cons.prems(3) by linarith
  have file1: "length file1 = length content" "k < length content \<Longrightarrow> file1 ! k = (if int k div c = i then content ! k else file ! k)" for k
  proof -
    show "length file1 = length content" using pwrite_nth(1) [OF fits] Cons.prems(3) by (simp add: file1_def)
    assume k: "k < length content"
    have q: "int k div c = i \<longleftrightarrow> i * c \<le> int k \<and> int k < i * c + c"
      using div_interval [OF assms(4), of "int k"] div_unique_interval [OF assms(4), of i "int k"] by (auto simp: mult.commute)
    have "nat (i * c) \<le> k \<and> k < nat (i * c) + length (sub content (i * c) u) \<longleftrightarrow> int k div c = i"
      unfolding q using len u z k by (auto simp: u_def)
    moreover have "sub content (i * c) u ! (k - nat (i * c)) = content ! k" if "nat (i * c) \<le> k" "k < nat (i * c) + length (sub content (i * c) u)"
      using sub_nth [of "i * c" u content "k - nat (i * c)"] that len u z by simp
    ultimately show "file1 ! k = (if int k div c = i then content ! k else file ! k)"
      using pwrite_nth(2) [OF fits, of k] k Cons.prems(3) by (auto simp: file1_def)
  qed
  obtain file' where "run_chunks rg c ?n env order file1 = Inr file'" "length file' = length content"
    "\<forall>k < length content. file' ! k = (if int k div c \<in> set order then content ! k else file1 ! k)"
    using Cons.IH [of file1] Cons.prems(1,2) file1(1) by auto
  then show ?case using fetch file1(2) by auto
qed simp

text \<open>The system calls work, and every chunk finishes, in any order.\<close>

definition ingest_works :: "int \<Rightarrow> ingest_env \<Rightarrow> bool" where
  "ingest_works numLoops ie \<longleftrightarrow> ie_stat ie = NotExist \<and> ie_create ie \<and> ie_truncate ie \<and> ie_seek ie \<and> ie_open ie \<and>
     ce_acquired (ie_one ie) \<and> ce_write (ie_one ie) \<and> set (ie_order ie) = {0..<numLoops} \<and>
     (\<forall>i \<in> {0..<numLoops}. ce_acquired (ie_chunks ie i) \<and> ce_write (ie_chunks ie i))"

lemma multi_fetch_ok:
  assumes "serves_layer rg content" and "rg_header rg = Some ''bytes''" and "chunks_fit c content" and "0 < c"
    and "ingest_works (calcNumLoops c (int (length content))) ie" and "length file = length content"
  shows "multiRequestFetchWrite rg c (int (length content)) (ie_chunks ie) (ie_order ie) (calcNumLoops c (int (length content))) file =
    Inr content"
proof -
  let ?n = "int (length content)"
  have o: "set (ie_order ie) = {0..<calcNumLoops c ?n}" "\<forall>i \<in> set (ie_order ie). ce_write (ie_chunks ie i)"
    and a: "\<not> (\<exists>i \<in> set [0..calcNumLoops c ?n - 1]. \<not> ce_acquired (ie_chunks ie i))"
    using assms(5) by (simp_all add: ingest_works_def)
  obtain file' where r: "run_chunks rg c ?n (ie_chunks ie) (ie_order ie) file = Inr file'" "length file' = length content"
    "\<forall>k < length content. file' ! k = (if int k div c \<in> set (ie_order ie) then content ! k else file ! k)"
    using run_chunks_ok [OF assms(1-4) equalityD1 [OF o(1)] o(2) assms(6)] by blast
  have "int k div c \<in> set (ie_order ie)" if "k < length content" for k
  proof -
    have "c * (int k div c) \<le> int k" by (rule div_interval(1) [OF assms(4)])
    then have "c * (int k div c + 1) \<le> ?n + c - 1" unfolding distrib_left using that by linarith
    from zdiv_mono1 [OF this assms(4)] have "int k div c + 1 \<le> (?n + c - 1) div c"
      using assms(4) by (subst (asm) nonzero_mult_div_cancel_left) auto
    moreover have "calcNumLoops c ?n = (?n + c - 1) div c"
      using assms(3,4) by (intro calcNumLoops_pos) (simp_all add: chunks_fit_def)
    moreover have "0 \<le> int k div c" using assms(4) by (simp add: pos_imp_zdiv_nonneg_iff)
    ultimately show ?thesis unfolding o(1) by simp
  qed
  then have "file' = content" using r(2,3) by (intro nth_equalityI) auto
  then show ?thesis using r(1) a by (simp only: multiRequestFetchWrite_def if_False)
qed

text \<open>C6: a layer fetched in chunks by concurrent requests is the layer that one request gives, whatever the chunk size, the
  order in which the chunks finish, and whether the registry has ranges.\<close>

theorem fetched_in_chunks_is_layer:
  assumes "serves_layer rg content" and "chunks_fit c content" and "ingest_works (calcNumLoops c (int (length content))) ie"
    and "desc_Size desc = int (length content)"
  shows "fetchFromRemoteAndWriteToTempDir rg c ie desc = Inr content"
proof -
  let ?n = "int (length content)" and ?file = "replicate (length content) 0"
  have one: "oneRequestFetchWrite rg (ie_one ie) ?file = Inr content"
    using assms(1,3) by (simp add: oneRequestFetchWrite_def writeToEntireFile_def serves_layer_def ingest_works_def pwrite_def)
  have "0 < c" if "1 < calcNumLoops c ?n" using that by (simp add: calcNumLoops_def split: if_splits)
  then have "rg_header rg = Some ''bytes'' \<Longrightarrow> 1 < calcNumLoops c ?n \<Longrightarrow>
      multiRequestFetchWrite rg c ?n (ie_chunks ie) (ie_order ie) (calcNumLoops c ?n) ?file = Inr content"
    using multi_fetch_ok [OF assms(1) _ assms(2) _ assms(3)] by simp
  moreover obtain h where "rg_header rg = Some h" using assms(1) by (auto simp: serves_layer_def)
  ultimately show ?thesis using assms(3,4) one
    by (simp add: fetchFromRemoteAndWriteToTempDir_def Let_def ingest_works_def doInitialFetch_def)
qed

text \<open>Ten bytes in chunks of four, the last chunk first.\<close>

definition ex_layer :: bytes where
  "ex_layer = [0, 1, 2, 3, 4, 5, 6, 7, 8, 9]"

definition ex_registry :: "bytes \<Rightarrow> registry" where
  "ex_registry content = \<lparr>rg_range = (\<lambda>lo hi. Some \<lparr>rp_status = 206, rp_acceptRanges = ''bytes'',
       rp_body = \<lparr>bd_data = sub content lo (hi + 1), bd_broken = False\<rparr>\<rparr>),
     rg_header = Some ''bytes'', rg_fetch = Some \<lparr>bd_data = content, bd_broken = False\<rparr>, rg_resolve = None\<rparr>"

definition ex_ingest :: ingest_env where
  "ex_ingest = (let ok = \<lparr>ce_acquired = True, ce_write = True\<rparr> in
     \<lparr>ie_stat = NotExist, ie_create = True, ie_truncate = True, ie_seek = True, ie_open = True, ie_one = ok,
      ie_chunks = (\<lambda>i. ok), ie_order = [2, 0, 1]\<rparr>)"

lemma ex_serves: "serves_layer (ex_registry content) content"
  by (simp add: serves_layer_def ex_registry_def)

lemma ex_numLoops: "calcNumLoops 4 10 = 3"
  by (simp add: calcNumLoops_def go_int)

theorem fetched_in_chunks_is_layer_witness:
  "fetchFromRemoteAndWriteToTempDir (ex_registry ex_layer) 4 ex_ingest \<lparr>desc_Digest = ''d'', desc_Size = 10\<rparr> = Inr ex_layer \<and>
   ie_order ex_ingest = [2, 0, 1] \<and> calcNumLoops 4 10 = 3"
proof -
  have "ingest_works 3 ex_ingest" unfolding ingest_works_def ex_ingest_def Let_def by auto
  moreover have n: "int (length ex_layer) = 10" by (simp add: ex_layer_def)
  ultimately have "ingest_works (calcNumLoops 4 (int (length ex_layer))) ex_ingest" unfolding n ex_numLoops by simp
  then have "fetchFromRemoteAndWriteToTempDir (ex_registry ex_layer) 4 ex_ingest \<lparr>desc_Digest = ''d'', desc_Size = 10\<rparr> = Inr ex_layer"
    by (rule fetched_in_chunks_is_layer [OF ex_serves, rotated]) (simp_all add: chunks_fit_def n)
  moreover have "ie_order ex_ingest = [2, 0, 1]" by (simp add: ex_ingest_def Let_def)
  ultimately show ?thesis using ex_numLoops by blast
qed

section \<open>Unpacking\<close>

lemma tee_same: "AsyncTeeReader stream = (w, p, e) \<Longrightarrow> w = p"
proof -
  have "fst (AsyncTeeReader stream) = fst (snd (AsyncTeeReader stream))"
    by (induction stream rule: AsyncTeeReader.induct) (simp_all add: case_prod_beta)
  then show "AsyncTeeReader stream = (w, p, e) \<Longrightarrow> w = p" by simp
qed

text \<open>
  C7: a layer is extracted only into an existing empty directory. When unpacking succeeds, everything that was
  extracted has the diff ID of the layer; when unpacked layers are discarded, what was fetched has the digest
  of the layer and is not stored; otherwise it came from the content store, was put there, or is there already.
  The digests are known only after the extraction, so what a failed unpacking leaves behind is not verified.
\<close>

theorem unpacked_layer_verified:
  assumes "premount_unpack mat ar rg chunkSize discard ie ue localStore desc diffID = (r, extracted, stored)"
  shows "(extracted \<noteq> None \<longrightarrow> ue_entries ue = Some 0) \<and>
    (\<forall>t. r = Inr t \<longrightarrow> extracted = Some t \<and>
      (\<exists>data stream p e. ar_decompress ar data = Some stream \<and> AsyncTeeReader stream = (p, p, e) \<and> ar_apply ar p e = (t, True) \<and>
        mat diffID p \<and>
        (localStore = None \<longrightarrow> (\<exists>d. fetchFromRemoteAndWriteToTempDir rg (fetcher_chunkSize chunkSize) ie d = Inr data)) \<and>
        (if discard then localStore = None \<and> mat (desc_Digest desc) data \<and> stored = None
         else localStore = Some data \<and> stored = None \<or>
           localStore = None \<and> (ue_push ue data = Pushed \<and> stored = Some data \<or> ue_push ue data = AlreadyExists \<and> stored = None))))"
proof -
  let ?cv = "if discard then Some (newAsyncVerifier (desc_Digest desc)) else None"
  let ?f = "parallel_Fetch rg (fetcher_chunkSize chunkSize) ie localStore ?cv desc"
  have U: "parallel_Unpack mat ar discard ue (newAsyncVerifier diffID) ?f = (r, extracted, stored)"
    using assms by (simp add: premount_unpack_def Let_def)
  show ?thesis
  proof (cases ?f)
    case (Inl e)
    then show ?thesis using U by (auto simp: parallel_Unpack_def)
  next
    case (Inr q)
    obtain data local compressed where q: "q = (data, local, compressed)" by (cases q)
    note f = Inr [unfolded q]
    have c: "localStore = Some data \<and> local \<and> compressed = ?cv \<or>
        localStore = None \<and> \<not> local \<and> compressed = AsyncVerify data ?cv \<and> (\<exists>d. fetchFromRemoteAndWriteToTempDir rg (fetcher_chunkSize chunkSize) ie d = Inr data)"
      using f by (auto simp: parallel_Fetch_def bind_res_Inr_iff split: option.splits)
    have E: "extracted \<noteq> None \<Longrightarrow> ue_entries ue = Some 0"
      using U unfolding f by (auto simp: parallel_Unpack_def Let_def VerifyUnpackDestinationIsReady_def split: option.splits if_splits sum.splits prod.splits)
    have S: "layerArchive_Apply mat (ue_ctx_ended ue) ar compressed (newAsyncVerifier diffID) data = (Inr t, extracted) \<and>
        (local \<or> discard \<longrightarrow> stored = None) \<and>
        (\<not> local \<and> \<not> discard \<longrightarrow> ue_push ue data = Pushed \<and> stored = Some data \<or> ue_push ue data = AlreadyExists \<and> stored = None)"
      if "r = Inr t" for t
      using U that unfolding f
      by (auto simp: parallel_Unpack_def Let_def VerifyUnpackDestinationIsReady_def fetcher_Store_def
          split: option.splits if_splits sum.splits prod.splits push_result.splits)
    have V: "extracted = Some t \<and> (\<exists>stream p e. ar_decompress ar data = Some stream \<and> AsyncTeeReader stream = (p, p, e) \<and> ar_apply ar p e = (t, True) \<and>
        mat diffID p) \<and> Verified mat (ue_ctx_ended ue) compressed" if "r = Inr t" for t
    proof -
      have A: "layerArchive_Apply mat (ue_ctx_ended ue) ar compressed (newAsyncVerifier diffID) data = (Inr t, extracted)" using S [OF that] by blast
      obtain stream where d: "ar_decompress ar data = Some stream" using A by (cases "ar_decompress ar data") (simp_all add: layerArchive_Apply_def)
      obtain w p e where t: "AsyncTeeReader stream = (w, p, e)" by (cases "AsyncTeeReader stream")
      have "ar_apply ar p e = (t, True) \<and> mat diffID w \<and> Verified mat (ue_ctx_ended ue) compressed \<and> extracted = Some t"
        using A d t
        by (auto simp: layerArchive_Apply_def Verified_def AsyncVerify_def newAsyncVerifier_def split: option.splits if_splits prod.splits)
      then show ?thesis using d t unfolding tee_same [OF t] by blast
    qed
    have D: "Verified mat (ue_ctx_ended ue) compressed \<Longrightarrow> discard \<Longrightarrow> localStore = None \<and> mat (desc_Digest desc) data"
      using c by (auto simp: Verified_def AsyncVerify_def newAsyncVerifier_def)
    show ?thesis using E S V D c by (auto split: if_splits) blast+
  qed
qed

text \<open>An archive that is its own content, with one block read at a time.\<close>

definition ex_archiver :: "bytes archiver" where
  "ex_archiver = \<lparr>ar_decompress = (\<lambda>data. Some (map (\<lambda>b. ([b], ReadMore)) data)),
     ar_apply = (\<lambda>p e. (p, e = ReadEOF))\<rparr>"

definition ex_unpack :: unpack_env where
  "ex_unpack = \<lparr>ue_lease = True, ue_ingest = True, ue_entries = Some 0, ue_ctx_ended = False, ue_push = (\<lambda>_. Pushed)\<rparr>"

definition ex_mat :: "string \<Rightarrow> bytes \<Rightarrow> bool" where
  "ex_mat d data \<longleftrightarrow> length d = length data"

theorem unpacked_layer_verified_witness:
  "fst (premount_unpack ex_mat ex_archiver (ex_registry ex_layer) 4 True ex_ingest ex_unpack None
     \<lparr>desc_Digest = ''0123456789'', desc_Size = 10\<rparr> ''sha256:abc'') = Inr ex_layer \<and> ue_entries ex_unpack = Some 0"
proof -
  let ?p = "premount_unpack ex_mat ex_archiver (ex_registry ex_layer) 4 True ex_ingest ex_unpack None
     \<lparr>desc_Digest = ''0123456789'', desc_Size = 10\<rparr> ''sha256:abc''"
  have p: "?p = (Inr ex_layer, Some ex_layer, None)" by code_simp
  show ?thesis using unpacked_layer_verified [OF p] p by simp
qed

text \<open>C39: with layers discarded after unpacking, a layer that is already in the content store cannot be unpacked: its
  compressed digest is never computed, and that counts as a mismatch.\<close>

theorem discarding_refuses_local_layer:
  "\<nexists>t. fst (premount_unpack mat ar rg chunkSize True ie ue (Some data) desc diffID) = Inr t"
  by (auto simp: premount_unpack_def parallel_Unpack_def parallel_Fetch_def layerArchive_Apply_def newAsyncVerifier_def Verified_def
    split: option.splits prod.splits if_splits sum.splits)

end
