(* ===== verification/Snapshotter.thy ===== *)
theory Snapshotter
  imports Go_Path Idmap "HOL-Library.AList"
begin

text \<open>
  The snapshotter of \<^verbatim>\<open>snapshot/snapshot.go\<close>: the directories below \<^verbatim>\<open>root/snapshots\<close>, the
  transactions on the metadata store, and the operations that containerd calls.

  containerd's metadata store (\<^verbatim>\<open>core/snapshots/storage\<close>) is a parameter, the record
  \<open>meta_store\<close>; so is the backing \<^verbatim>\<open>FileSystem\<close> interface, the record \<open>file_system\<close>. The
  outcomes of system calls are functions of the environment. A wrapped error
  (\<^verbatim>\<open>fmt.Errorf\<close> with \<^verbatim>\<open>%w\<close>) is the error it wraps, which is all that the callers look at.
\<close>

section \<open>Data\<close>

datatype snap_kind = KindView | KindActive | KindCommitted

type_synonym labels = "string \<rightharpoonup> string"

record snap_info =
  in_Kind :: snap_kind
  in_Name :: string
  in_Parent :: string
  in_Labels :: labels

record usage =
  us_Inodes :: int
  us_Size :: int

record st_snapshot =
  s_Kind :: snap_kind
  s_ID :: string
  s_ParentIDs :: "string list"

record mount =
  m_Type :: string
  m_Source :: string
  m_Options :: "string list"

text \<open>\<open>Blocked\<close> is not an error value: the call waits for a write transaction that is never ended.\<close>

datatype sn_error =
    SnNotFound | SnAlreadyExists | SnUnavailable | SnNoNamespace | ErrNoIndex | ErrNoZtoc
  | TxFailed | CommitFailed | OsFailed string | SnIDMap id_error | SnOther string
  | Both sn_error sn_error | Blocked

text \<open>\<^verbatim>\<open>errors.Is\<close> for the errors without wrapped text.\<close>

fun err_is :: "sn_error \<Rightarrow> sn_error \<Rightarrow> bool" where
  "err_is (Both a b) e \<longleftrightarrow> err_is a e \<or> err_is b e"
| "err_is a e \<longleftrightarrow> a = e"

type_synonym sn_opt = "snap_info \<Rightarrow> sn_error + snap_info"

text \<open>A directory below \<^verbatim>\<open>snapshots\<close>: which of its two subdirectories exist and who owns \<^verbatim>\<open>fs\<close>.\<close>

record snap_dir =
  sd_fs :: bool
  sd_work :: bool
  sd_owner :: "nat \<times> nat"

text \<open>
  What the snapshotter and the file system share: the directories below \<^verbatim>\<open>root/snapshots\<close> by
  name, in the order in which they are listed, the mount points of the host, and the state of the
  file system.
\<close>

record 'f host =
  h_dirs :: "(string \<times> snap_dir) list"
  h_mounts :: "string list"
  h_fs :: 'f

type_synonym 'f fs_call = "'f host \<Rightarrow> 'f host \<times> sn_error option"

record 'f file_system =
  fs_Mount :: "string \<Rightarrow> labels \<Rightarrow> 'f fs_call"
  fs_Check :: "string \<Rightarrow> labels \<Rightarrow> 'f host \<Rightarrow> sn_error option"
  fs_Unmount :: "string \<Rightarrow> 'f fs_call"
  fs_MountLocal :: "string \<Rightarrow> labels \<Rightarrow> mount list \<Rightarrow> 'f fs_call"
  fs_MountParallel :: "string \<Rightarrow> labels \<Rightarrow> mount list \<Rightarrow> 'f fs_call"
  fs_IDMapMount :: "string \<Rightarrow> string \<Rightarrow> iDMap \<Rightarrow> 'f fs_call"
  fs_IDMapMountLocal :: "string \<Rightarrow> string \<Rightarrow> iDMap \<Rightarrow> 'f fs_call"
  fs_CleanImage :: "string \<Rightarrow> 'f fs_call"

text \<open>The functions of the \<^verbatim>\<open>storage\<close> package, inside a transaction on the database.\<close>

record 'db meta_store =
  ms_GetInfo :: "string \<Rightarrow> 'db \<Rightarrow> sn_error + string \<times> snap_info \<times> usage"
  ms_GetSnapshot :: "string \<Rightarrow> 'db \<Rightarrow> sn_error + st_snapshot"
  ms_CreateSnapshot :: "snap_kind \<Rightarrow> string \<Rightarrow> string \<Rightarrow> sn_opt list \<Rightarrow> 'db \<Rightarrow> sn_error + 'db \<times> st_snapshot"
  ms_CommitActive :: "string \<Rightarrow> string \<Rightarrow> usage \<Rightarrow> sn_opt list \<Rightarrow> 'db \<Rightarrow> sn_error + 'db"
  ms_Remove :: "string \<Rightarrow> 'db \<Rightarrow> sn_error + 'db"
  ms_UpdateInfo :: "snap_info \<Rightarrow> string list \<Rightarrow> 'db \<Rightarrow> sn_error + 'db \<times> snap_info"
  ms_IDMap :: "'db \<Rightarrow> sn_error + (string \<rightharpoonup> string)"
  ms_WalkInfo :: "string list \<Rightarrow> 'db \<Rightarrow> sn_error + snap_info list"
  ms_WithLabels :: "labels \<Rightarrow> sn_opt"

record ('db, 'f) sn_env =
  ev_ms :: "'db meta_store"
  ev_fs :: "'f file_system"
  ev_begin :: bool
  ev_commit :: "'db \<Rightarrow> bool"
  ev_TempName :: "(string \<times> snap_dir) list \<Rightarrow> string option"
  ev_Mkdir :: "string \<Rightarrow> bool"
  ev_Stat :: "string \<Rightarrow> bool"
  ev_Lchown :: "string \<Rightarrow> bool"
  ev_Rename :: "string \<Rightarrow> string \<Rightarrow> bool"
  ev_RemoveAll :: "string \<Rightarrow> snap_dir option"
  ev_Mounted :: "string \<Rightarrow> bool"
  ev_Readdir :: bool
  ev_DiskUsage :: "string \<Rightarrow> usage option"
  ev_GetMounts :: bool
  ev_Unmount :: "string \<Rightarrow> bool"
  ev_RemapRootFS :: "mount list \<Rightarrow> iDMap \<Rightarrow> bool"
  ev_RemapRoot :: "string \<Rightarrow> iDMap \<Rightarrow> bool"

record snapshotter =
  sn_root :: string
  sn_asyncRemove :: bool
  sn_userxattr :: bool
  sn_minLayerSize :: int
  sn_allowInvalidMountsOnRestart :: bool
  sn_parallelPullUnpack :: bool
  sn_parallelPullAsFallback :: bool

text \<open>
  The state: the committed database, whether a write transaction was left open (the store admits
  one at a time), the host, and the set of \<^verbatim>\<open>idmapped\<close> snapshots, which lives in memory only.
\<close>

record ('db, 'f) sn_world =
  w_db :: 'db
  w_writer :: bool
  w_host :: "'f host"
  w_idmapped :: "string set"

definition targetSnapshotLabel :: string where "targetSnapshotLabel = ''containerd.io/snapshot.ref''"
definition remoteLabel :: string where "remoteLabel = ''containerd.io/snapshot/remote''"
definition remoteLabelVal :: string where "remoteLabelVal = ''remote snapshot''"
definition TargetNamespace :: string where "TargetNamespace = ''containerd.io/snapshot/remote/namespace''"
definition TargetSizeLabel :: string where "TargetSizeLabel = ''containerd.io/snapshot/remote/soci.size''"
definition HasSociIndexDigest :: string where
  "HasSociIndexDigest = ''containerd.io/snapshot/remote/has.soci.index.digest''"
definition TargetManifestDigestLabel :: string where
  "TargetManifestDigestLabel = ''containerd.io/snapshot/cri.manifest-digest''"

lemmas label_defs = targetSnapshotLabel_def remoteLabel_def remoteLabelVal_def TargetNamespace_def TargetSizeLabel_def
  HasSociIndexDigest_def TargetManifestDigestLabel_def

text \<open>A result with its state, and the continuation of a successful one.\<close>

type_synonym ('w, 'a) outcome = "'w \<times> (sn_error + 'a)"

definition and_then :: "('w, 'a) outcome \<Rightarrow> ('w \<Rightarrow> 'a \<Rightarrow> ('w, 'b) outcome) \<Rightarrow> ('w, 'b) outcome" where
  "and_then r f = (case r of (w, Inl e) \<Rightarrow> (w, Inl e) | (w, Inr x) \<Rightarrow> f w x)"

lemma and_then_simps [simp]: "and_then (w, Inl e) f = (w, Inl e)" "and_then (w, Inr x) f = f w x"
  by (simp_all add: and_then_def)

section \<open>Paths\<close>

definition filepath_Join :: "string list \<Rightarrow> string" where
  "filepath_Join es = (let ne = filter (\<lambda>e. e \<noteq> '''') es in if ne = [] then '''' else filepath_Clean (join_path ne))"

definition snapshotsDir :: "snapshotter \<Rightarrow> string" where
  "snapshotsDir o' = filepath_Join [sn_root o', ''snapshots'']"

definition upperPath :: "snapshotter \<Rightarrow> string \<Rightarrow> string" where
  "upperPath o' i = filepath_Join [sn_root o', ''snapshots'', i, ''fs'']"

definition workPath :: "snapshotter \<Rightarrow> string \<Rightarrow> string" where
  "workPath o' i = filepath_Join [sn_root o', ''snapshots'', i, ''work'']"

definition find_dir :: "'f host \<Rightarrow> string \<Rightarrow> snap_dir option" where
  "find_dir h d = map_of (h_dirs h) d"

definition has_fs :: "'f host \<Rightarrow> string \<Rightarrow> bool" where
  "has_fs h d \<longleftrightarrow> (case find_dir h d of None \<Rightarrow> False | Some sd \<Rightarrow> sd_fs sd)"

definition put_dir :: "string \<Rightarrow> snap_dir \<Rightarrow> 'f host \<Rightarrow> 'f host" where
  "put_dir d sd h = h\<lparr>h_dirs := AList.update d sd (h_dirs h)\<rparr>"

definition drop_dir :: "string \<Rightarrow> 'f host \<Rightarrow> 'f host" where
  "drop_dir d h = h\<lparr>h_dirs := AList.delete d (h_dirs h)\<rparr>"

lemma find_dir_simps [simp]:
  "find_dir (put_dir d sd h) e = (if e = d then Some sd else find_dir h e)"
  "find_dir (drop_dir d h) e = (if e = d then None else find_dir h e)"
  by (simp_all add: find_dir_def put_dir_def drop_dir_def update_conv' delete_conv')

section \<open>Directories\<close>

text \<open>\<^verbatim>\<open>mountinfo.Mounted\<close> reports a missing directory as such, which counts as not mounted.\<close>

definition unmountSnapshotDirectory :: "('db, 'f) sn_env \<Rightarrow> snapshotter \<Rightarrow> string \<Rightarrow> 'f fs_call" where
  "unmountSnapshotDirectory ev o' d h =
     (if \<not> has_fs h d then (h, None)
      else if \<not> ev_Mounted ev d then (h, Some (OsFailed ''mounted''))
      else if upperPath o' d \<in> set (h_mounts h) then fs_Unmount (ev_fs ev) (upperPath o' d) h
      else (h, None))"

text \<open>\<^verbatim>\<open>os.RemoveAll\<close> removes the directory, or fails and leaves some of it.\<close>

definition remove_all :: "('db, 'f) sn_env \<Rightarrow> string \<Rightarrow> 'f fs_call" where
  "remove_all ev d h =
     (case find_dir h d of None \<Rightarrow> (h, None)
      | Some sd \<Rightarrow> (case ev_RemoveAll ev d of None \<Rightarrow> (drop_dir d h, None)
                    | Some left \<Rightarrow> (put_dir d left h, Some (OsFailed ''removeall''))))"

definition cleanupSnapshotDirectory :: "('db, 'f) sn_env \<Rightarrow> snapshotter \<Rightarrow> string \<Rightarrow> 'f fs_call" where
  "cleanupSnapshotDirectory ev o' d h =
     (case unmountSnapshotDirectory ev o' d h of (h1, Some e) \<Rightarrow> (h1, Some e) | (h1, None) \<Rightarrow> remove_all ev d h1)"

text \<open>The loops over the directories go on after a failure, which is only logged.\<close>

fun for_dirs :: "(string \<Rightarrow> 'f fs_call) \<Rightarrow> string list \<Rightarrow> 'f host \<Rightarrow> 'f host" where
  "for_dirs f [] h = h"
| "for_dirs f (d # ds) h = for_dirs f ds (fst (f d h))"

definition cleanup_id :: "string \<Rightarrow> string" where
  "cleanup_id d = (case split_on CHR ''_'' d of a # b # r \<Rightarrow> b | _ \<Rightarrow> d)"

definition getCleanupDirectories ::
    "('db, 'f) sn_env \<Rightarrow> bool \<Rightarrow> 'db \<Rightarrow> 'f host \<Rightarrow> sn_error + string list" where
  "getCleanupDirectories ev cleanupCommitted db h =
     bind_res (ms_IDMap (ev_ms ev) db) (\<lambda>ids.
       if \<not> ev_Readdir ev then Inl (OsFailed ''readdir'')
       else Inr (filter (\<lambda>d. cleanupCommitted \<or> ids (cleanup_id d) = None) (map fst (h_dirs h))))"

text \<open>
  A temporary directory that is made in steps; when a later step fails its name is returned with the
  error. The paths of new directories are relative to \<^verbatim>\<open>root/snapshots\<close>.
\<close>

definition prepareDirectory ::
    "('db, 'f) sn_env \<Rightarrow> snap_kind \<Rightarrow> 'f host \<Rightarrow> 'f host \<times> (string option \<times> sn_error + string)" where
  "prepareDirectory ev kind h =
     (case ev_TempName ev (h_dirs h) of None \<Rightarrow> (h, Inl (None, OsFailed ''mkdirtemp''))
      | Some n \<Rightarrow>
        let td = ''new-'' @ n; sd = \<lparr>sd_fs = False, sd_work = False, sd_owner = (0, 0)\<rparr> in
        if find_dir h td \<noteq> None then (h, Inl (None, OsFailed ''mkdirtemp''))
        else if \<not> ev_Mkdir ev (td @ ''/fs'') then (put_dir td sd h, Inl (Some td, OsFailed ''mkdir''))
        else if kind \<noteq> KindActive then (put_dir td (sd\<lparr>sd_fs := True\<rparr>) h, Inr td)
        else if \<not> ev_Mkdir ev (td @ ''/work'') then (put_dir td (sd\<lparr>sd_fs := True\<rparr>) h, Inl (Some td, OsFailed ''mkdir''))
        else (put_dir td (sd\<lparr>sd_fs := True, sd_work := True\<rparr>) h, Inr td))"

section \<open>Creating snapshots\<close>

definition chown_parent :: "('db, 'f) sn_env \<Rightarrow> string \<Rightarrow> st_snapshot \<Rightarrow> 'f fs_call" where
  "chown_parent ev td s h =
     (case s_ParentIDs s of [] \<Rightarrow> (h, None)
      | p # ps \<Rightarrow>
        (case (find_dir h p, find_dir h td) of
           (Some pd, Some sd) \<Rightarrow>
             if \<not> sd_fs pd \<or> \<not> ev_Stat ev p then (h, Some (OsFailed ''stat''))
             else if \<not> ev_Lchown ev td then (h, Some (OsFailed ''lchown''))
             else (put_dir td (sd\<lparr>sd_owner := sd_owner pd\<rparr>) h, None)
         | _ \<Rightarrow> (h, Some (OsFailed ''stat''))))"

text \<open>\<^verbatim>\<open>os.Rename\<close> refuses a target that is a directory, also an empty one.\<close>

definition rename_dir :: "('db, 'f) sn_env \<Rightarrow> string \<Rightarrow> string \<Rightarrow> 'f fs_call" where
  "rename_dir ev td path h =
     (case (find_dir h td, find_dir h path) of
        (Some sd, None) \<Rightarrow> if ev_Rename ev td path then (put_dir path sd (drop_dir td h), None) else (h, Some (OsFailed ''rename''))
      | _ \<Rightarrow> (h, Some (OsFailed ''rename'')))"

text \<open>
  The part of \<^verbatim>\<open>createSnapshot\<close> up to the end of the transaction: the host, the committed database,
  the values of \<^verbatim>\<open>td\<close> and \<^verbatim>\<open>path\<close>, and the result.
\<close>

definition place_snapshot ::
    "('db, 'f) sn_env \<Rightarrow> string \<Rightarrow> 'db \<Rightarrow> 'db \<Rightarrow> st_snapshot \<Rightarrow> 'f host \<Rightarrow>
     'f host \<times> 'db \<times> string option \<times> string option \<times> (sn_error + st_snapshot)" where
  "place_snapshot ev td db db' s h =
     (case chown_parent ev td s h of
        (h2, Some e) \<Rightarrow> (h2, db, Some td, None, Inl e)
      | (h2, None) \<Rightarrow>
        (case rename_dir ev td (s_ID s) h2 of
           (h3, Some e) \<Rightarrow> (h3, db, Some td, Some (s_ID s), Inl e)
         | (h3, None) \<Rightarrow>
             if ev_commit ev db' then (h3, db', None, Some (s_ID s), Inr s)
             else (h3, db, None, Some (s_ID s), Inl CommitFailed)))"

definition create_tx ::
    "('db, 'f) sn_env \<Rightarrow> snap_kind \<Rightarrow> string \<Rightarrow> string \<Rightarrow> sn_opt list \<Rightarrow> 'db \<Rightarrow> 'f host \<Rightarrow>
     'f host \<times> 'db \<times> string option \<times> string option \<times> (sn_error + st_snapshot)" where
  "create_tx ev kind key parent opts db h =
     (case prepareDirectory ev kind h of
        (h1, Inl (td, e)) \<Rightarrow> (h1, db, td, None, Inl e)
      | (h1, Inr td) \<Rightarrow>
        (case ms_CreateSnapshot (ev_ms ev) kind key parent opts db of
           Inl e \<Rightarrow> (h1, db, Some td, None, Inl e)
         | Inr (db', s) \<Rightarrow> place_snapshot ev td db db' s h1))"
text \<open>The deferred function, which runs after the transaction was rolled back.\<close>

definition create_cleanup ::
    "('db, 'f) sn_env \<Rightarrow> snapshotter \<Rightarrow> string option \<Rightarrow> string option \<Rightarrow> sn_error + st_snapshot \<Rightarrow> 'f host \<Rightarrow>
     'f host \<times> (sn_error + st_snapshot)" where
  "create_cleanup ev o' td path r h =
     (case r of Inr s \<Rightarrow> (h, Inr s)
      | Inl e \<Rightarrow>
        let h1 = (case td of None \<Rightarrow> h | Some d \<Rightarrow> fst (cleanupSnapshotDirectory ev o' d h)) in
        (case path of None \<Rightarrow> (h1, Inl e)
         | Some p \<Rightarrow> (case cleanupSnapshotDirectory ev o' p h1 of
              (h2, None) \<Rightarrow> (h2, Inl e) | (h2, Some e1) \<Rightarrow> (h2, Inl (Both e1 e)))))"

definition createSnapshot ::
    "('db, 'f) sn_env \<Rightarrow> snapshotter \<Rightarrow> snap_kind \<Rightarrow> string \<Rightarrow> string \<Rightarrow> sn_opt list \<Rightarrow> ('db, 'f) sn_world \<Rightarrow>
     (('db, 'f) sn_world, st_snapshot) outcome" where
  "createSnapshot ev o' kind key parent opts w =
     (if w_writer w then (w, Inl Blocked)
      else if \<not> ev_begin ev then (w, Inl TxFailed)
      else case create_tx ev kind key parent opts (w_db w) (w_host w) of
        (h, db, td, path, r) \<Rightarrow>
          (case create_cleanup ev o' td path r h of (h', r') \<Rightarrow> (w\<lparr>w_db := db, w_host := h'\<rparr>, r')))"

section \<open>Mounts\<close>

text \<open>
  \<^verbatim>\<open>checkAvailability\<close> walks the chain of parents until the empty key and collects the remote layers
  to check. \<open>None\<close> is a walk that does not end, \<open>Some None\<close> a key that is not in the store.
\<close>

partial_function (option) chain_tasks :: "'db meta_store \<Rightarrow> 'db \<Rightarrow> string \<Rightarrow> (string \<times> labels) list option option" where
  "chain_tasks ms db cKey =
     (if cKey = '''' then Some (Some [])
      else case ms_GetInfo ms cKey db of
        Inl e \<Rightarrow> Some None
      | Inr (i, info, u) \<Rightarrow>
          Option.bind (chain_tasks ms db (in_Parent info)) (\<lambda>r.
            Some (map_option (\<lambda>ts. if in_Labels info remoteLabel \<noteq> None then (i, in_Labels info) # ts else ts) r)))"

definition checkAvailability :: "('db, 'f) sn_env \<Rightarrow> snapshotter \<Rightarrow> string \<Rightarrow> 'db \<Rightarrow> 'f host \<Rightarrow> bool option" where
  "checkAvailability ev o' key db h =
     (if \<not> ev_begin ev then Some False
      else case chain_tasks (ev_ms ev) db key of
        None \<Rightarrow> None
      | Some None \<Rightarrow> Some False
      | Some (Some ts) \<Rightarrow> Some (list_all (\<lambda>(i, ls). fs_Check (ev_fs ev) (upperPath o' i) ls h = None) ts))"

definition getParentPaths :: "snapshotter \<Rightarrow> string set \<Rightarrow> st_snapshot \<Rightarrow> string list" where
  "getParentPaths o' idmapped s =
     map (\<lambda>i. upperPath o' (if s_ID s \<in> idmapped then i @ ''_'' @ s_ID s else i)) (s_ParentIDs s)"

fun join_with :: "char \<Rightarrow> string list \<Rightarrow> string" where
  "join_with c [] = []"
| "join_with c [x] = x"
| "join_with c (x # y # ys) = x @ c # join_with c (y # ys)"

definition mounts ::
    "('db, 'f) sn_env \<Rightarrow> snapshotter \<Rightarrow> st_snapshot \<Rightarrow> string \<Rightarrow> ('db, 'f) sn_world \<Rightarrow> (('db, 'f) sn_world, mount list) outcome" where
  "mounts ev o' s checkKey w =
     (w, case (if checkKey = '''' then Some True else checkAvailability ev o' checkKey (w_db w) (w_host w)) of
        None \<Rightarrow> Inl Blocked
      | Some False \<Rightarrow> Inl SnUnavailable
      | Some True \<Rightarrow>
        (if s_ParentIDs s = []
         then Inr [\<lparr>m_Type = ''bind'', m_Source = upperPath o' (s_ID s),
                   m_Options = [if s_Kind s = KindView then ''ro'' else ''rw'', ''rbind'']\<rparr>]
         else if s_Kind s \<noteq> KindActive \<and> length (s_ParentIDs s) = 1
         then Inr [\<lparr>m_Type = ''bind'', m_Source = upperPath o' (hd (s_ParentIDs s)), m_Options = [''ro'', ''rbind'']\<rparr>]
         else Inr [\<lparr>m_Type = ''overlay'', m_Source = ''overlay'', m_Options =
            (if s_Kind s = KindActive then [''workdir='' @ workPath o' (s_ID s), ''upperdir='' @ upperPath o' (s_ID s)] else []) @
            [''lowerdir='' @ join_with CHR '':'' (getParentPaths o' (w_idmapped w) s)] @
            (if sn_userxattr o' then [''userxattr''] else [])\<rparr>]))"

section \<open>Operations\<close>

definition sn_Stat :: "('db, 'f) sn_env \<Rightarrow> string \<Rightarrow> ('db, 'f) sn_world \<Rightarrow> (('db, 'f) sn_world, snap_info) outcome" where
  "sn_Stat ev key w =
     (w, if \<not> ev_begin ev then Inl TxFailed
         else bind_res (ms_GetInfo (ev_ms ev) key (w_db w)) (\<lambda>(i, info, u). Inr info))"

text \<open>A transaction that changes the database: it waits for the writer before it, and commits at the end.\<close>

definition sn_Update ::
    "('db, 'f) sn_env \<Rightarrow> snap_info \<Rightarrow> string list \<Rightarrow> ('db, 'f) sn_world \<Rightarrow> (('db, 'f) sn_world, snap_info) outcome" where
  "sn_Update ev info fieldpaths w =
     (if w_writer w then (w, Inl Blocked)
      else if \<not> ev_begin ev then (w, Inl TxFailed)
      else case ms_UpdateInfo (ev_ms ev) info fieldpaths (w_db w) of
        Inl e \<Rightarrow> (w, Inl e)
      | Inr (db', info') \<Rightarrow> if ev_commit ev db' then (w\<lparr>w_db := db'\<rparr>, Inr info') else (w, Inl CommitFailed))"

definition sn_Usage :: "('db, 'f) sn_env \<Rightarrow> snapshotter \<Rightarrow> string \<Rightarrow> ('db, 'f) sn_world \<Rightarrow> (('db, 'f) sn_world, usage) outcome" where
  "sn_Usage ev o' key w =
     (w, if \<not> ev_begin ev then Inl TxFailed
         else bind_res (ms_GetInfo (ev_ms ev) key (w_db w)) (\<lambda>(i, info, u).
           if in_Kind info = KindActive
           then (case ev_DiskUsage ev (upperPath o' i) of None \<Rightarrow> Inl (OsFailed ''diskusage'') | Some du \<Rightarrow> Inr du)
           else Inr u))"

definition createIDMapMount :: "('db, 'f) sn_env \<Rightarrow> snapshotter \<Rightarrow> string \<Rightarrow> string \<Rightarrow> iDMap \<Rightarrow> 'f fs_call" where
  "createIDMapMount ev o' pid i idmap h =
     (case fs_IDMapMount (ev_fs ev) (upperPath o' pid) i idmap h of
        (h1, None) \<Rightarrow> (h1, None)
      | (h1, Some e) \<Rightarrow>
          if err_is e SnNotFound
          then (case remove_all ev (pid @ ''_'' @ i) h1 of
                  (h2, Some e1) \<Rightarrow> (h2, Some e1)
                | (h2, None) \<Rightarrow> fs_IDMapMountLocal (ev_fs ev) (upperPath o' pid) i idmap h2)
          else (h1, Some e))"

fun idmap_parents :: "('db, 'f) sn_env \<Rightarrow> snapshotter \<Rightarrow> string list \<Rightarrow> string \<Rightarrow> iDMap \<Rightarrow> 'f fs_call" where
  "idmap_parents ev o' [] i idmap h = (h, None)"
| "idmap_parents ev o' (p # ps) i idmap h =
     (case createIDMapMount ev o' p i idmap h of (h1, Some e) \<Rightarrow> (h1, Some e) | (h1, None) \<Rightarrow> idmap_parents ev o' ps i idmap h1)"

definition createIDMapMounts :: "('db, 'f) sn_env \<Rightarrow> snapshotter \<Rightarrow> st_snapshot \<Rightarrow> iDMap \<Rightarrow> 'f fs_call" where
  "createIDMapMounts ev o' s idmap h =
     (case idmap_parents ev o' (s_ParentIDs s) (s_ID s) idmap h of
        (h1, Some e) \<Rightarrow> (h1, Some e)
      | (h1, None) \<Rightarrow> (h1, if ev_RemapRoot ev (upperPath o' (s_ID s)) idmap then None else Some (OsFailed ''remap'')))"

text \<open>A call on the file system as an operation of the snapshotter.\<close>

definition on_host :: "'f fs_call \<Rightarrow> ('db, 'f) sn_world \<Rightarrow> (('db, 'f) sn_world, unit) outcome" where
  "on_host f w = (case f (w_host w) of (h, None) \<Rightarrow> (w\<lparr>w_host := h\<rparr>, Inr ()) | (h, Some e) \<Rightarrow> (w\<lparr>w_host := h\<rparr>, Inl e))"

definition setupIDMap ::
    "('db, 'f) sn_env \<Rightarrow> snapshotter \<Rightarrow> st_snapshot \<Rightarrow> string \<Rightarrow> labels \<Rightarrow> ('db, 'f) sn_world \<Rightarrow>
     (('db, 'f) sn_world, unit) outcome" where
  "setupIDMap ev o' s parent ls w =
     (case LoadIDMap ls of
        Inl e \<Rightarrow> (w, Inl (SnIDMap e))
      | Inr idmap \<Rightarrow>
        if idmap_Empty idmap then (w, Inr ())
        else and_then (sn_Stat ev parent w) (\<lambda>w1 parentSnapshot.
          if in_Labels parentSnapshot HasSociIndexDigest = None
          then and_then (mounts ev o' s parent w1) (\<lambda>w2 ms.
                 (w2, if ev_RemapRootFS ev ms idmap then Inr () else Inl (OsFailed ''remap'')))
          else on_host (createIDMapMounts ev o' s idmap) (w1\<lparr>w_idmapped := insert (s_ID s) (w_idmapped w1)\<rparr>)))"

text \<open>The three ways to prepare a layer look up the ID of the key and call the file system.\<close>

definition prepare_with ::
    "('db, 'f) sn_env \<Rightarrow> snapshotter \<Rightarrow> (string \<Rightarrow> 'f fs_call) \<Rightarrow> string \<Rightarrow> ('db, 'f) sn_world \<Rightarrow>
     (('db, 'f) sn_world, unit) outcome" where
  "prepare_with ev o' f key w =
     (if \<not> ev_begin ev then (w, Inl TxFailed)
      else case ms_GetInfo (ev_ms ev) key (w_db w) of
        Inl e \<Rightarrow> (w, Inl e)
      | Inr (i, info, u) \<Rightarrow> on_host (f (upperPath o' i)) w)"

definition prepareRemoteSnapshot ::
    "('db, 'f) sn_env \<Rightarrow> snapshotter \<Rightarrow> string \<Rightarrow> labels \<Rightarrow> ('db, 'f) sn_world \<Rightarrow> (('db, 'f) sn_world, unit) outcome" where
  "prepareRemoteSnapshot ev o' key ls = prepare_with ev o' (\<lambda>mp. fs_Mount (ev_fs ev) mp ls) key"

definition prepareLocalSnapshot ::
    "('db, 'f) sn_env \<Rightarrow> snapshotter \<Rightarrow> string \<Rightarrow> labels \<Rightarrow> mount list \<Rightarrow> ('db, 'f) sn_world \<Rightarrow>
     (('db, 'f) sn_world, unit) outcome" where
  "prepareLocalSnapshot ev o' key ls ms = prepare_with ev o' (\<lambda>mp. fs_MountLocal (ev_fs ev) mp ls ms) key"

definition prepareParallelPullSnapshot ::
    "('db, 'f) sn_env \<Rightarrow> snapshotter \<Rightarrow> string \<Rightarrow> labels \<Rightarrow> mount list \<Rightarrow> ('db, 'f) sn_world \<Rightarrow>
     (('db, 'f) sn_world, unit) outcome" where
  "prepareParallelPullSnapshot ev o' key ls ms = prepare_with ev o' (\<lambda>mp. fs_MountParallel (ev_fs ev) mp ls ms) key"

text \<open>
  \<^verbatim>\<open>commit\<close>: the error of \<^verbatim>\<open>DiskUsage\<close> is declared in an inner block, so the deferred function does not
  see it and the write transaction stays open.
\<close>

definition commit ::
    "('db, 'f) sn_env \<Rightarrow> snapshotter \<Rightarrow> bool \<Rightarrow> string \<Rightarrow> string \<Rightarrow> sn_opt list \<Rightarrow> ('db, 'f) sn_world \<Rightarrow>
     (('db, 'f) sn_world, unit) outcome" where
  "commit ev o' isRemote name key opts w =
     (if w_writer w then (w, Inl Blocked)
      else if \<not> ev_begin ev then (w, Inl TxFailed)
      else case ms_GetInfo (ev_ms ev) key (w_db w) of
        Inl e \<Rightarrow> (w, Inl e)
      | Inr (i, info, u) \<Rightarrow>
        (case (if isRemote then Some u else ev_DiskUsage ev (upperPath o' i)) of
           None \<Rightarrow> (w\<lparr>w_writer := True\<rparr>, Inl (OsFailed ''diskusage''))
         | Some us \<Rightarrow>
           (case ms_CommitActive (ev_ms ev) key name us opts (w_db w) of
              Inl e \<Rightarrow> (w, Inl e)
            | Inr db' \<Rightarrow> if ev_commit ev db' then (w\<lparr>w_db := db'\<rparr>, Inr ()) else (w, Inl CommitFailed))))"

fun apply_opts :: "sn_opt list \<Rightarrow> snap_info \<Rightarrow> sn_error + snap_info" where
  "apply_opts [] info = Inr info"
| "apply_opts (f # fs) info = bind_res (f info) (apply_opts fs)"

definition zero_info :: snap_info where
  "zero_info = \<lparr>in_Kind = KindView, in_Name = '''', in_Parent = '''', in_Labels = Map.empty\<rparr>"

text \<open>\<^verbatim>\<open>strconv.ParseInt\<close> with base 10 and 64 bits.\<close>

definition ParseInt :: "string \<Rightarrow> int option" where
  "ParseInt s =
     (let (neg, ds) = (case s of [] \<Rightarrow> (False, s)
            | c # r \<Rightarrow> if c = CHR ''-'' then (True, r) else if c = CHR ''+'' then (False, r) else (False, s));
          n = (if neg then - digits_val ds else digits_val ds)
      in if ds = [] \<or> \<not> list_all is_digit ds \<or> \<not> in64 n then None else Some n)"

definition skipRemoteSnapshotPrepare :: "snapshotter \<Rightarrow> labels \<Rightarrow> bool" where
  "skipRemoteSnapshotPrepare o' ls \<longleftrightarrow>
     sn_parallelPullUnpack o' \<or>
     (0 < sn_minLayerSize o' \<and>
      (case ls TargetSizeLabel of None \<Rightarrow> False
       | Some strVal \<Rightarrow> (case ParseInt strVal of None \<Rightarrow> False | Some v \<Rightarrow> v < sn_minLayerSize o')))"

text \<open>The internal commit of a prepared layer; success is reported as \<^verbatim>\<open>ErrAlreadyExists\<close>.\<close>

definition commit_target ::
    "('db, 'f) sn_env \<Rightarrow> snapshotter \<Rightarrow> bool \<Rightarrow> string \<Rightarrow> string \<Rightarrow> sn_opt list \<Rightarrow> labels \<Rightarrow> ('db, 'f) sn_world \<Rightarrow>
     (('db, 'f) sn_world, mount list) outcome" where
  "commit_target ev o' isRemote target key opts ls w =
     (case commit ev o' isRemote target key (opts @ [ms_WithLabels (ev_ms ev) ls]) w of
        (w1, Inr x) \<Rightarrow> (w1, Inl SnAlreadyExists)
      | (w1, Inl e) \<Rightarrow> (w1, Inl (if err_is e SnAlreadyExists then SnAlreadyExists else e)))"

text \<open>The part of \<^verbatim>\<open>Prepare\<close> after the remote snapshot failed or was skipped.\<close>

definition prepare_local ::
    "('db, 'f) sn_env \<Rightarrow> snapshotter \<Rightarrow> bool \<Rightarrow> st_snapshot \<Rightarrow> string \<Rightarrow> string \<Rightarrow> string \<Rightarrow> sn_opt list \<Rightarrow> labels \<Rightarrow>
     ('db, 'f) sn_world \<Rightarrow> (('db, 'f) sn_world, mount list) outcome" where
  "prepare_local ev o' deferToContainerRuntime s target key parent opts ls w =
     and_then (mounts ev o' s parent w) (\<lambda>w1 ms.
       if deferToContainerRuntime \<and> \<not> (sn_parallelPullUnpack o' \<or> sn_parallelPullAsFallback o') then (w1, Inr ms)
       else
         let par = (sn_parallelPullUnpack o' \<or> sn_parallelPullAsFallback o' \<and> deferToContainerRuntime) in
         case (if par then prepareParallelPullSnapshot ev o' key ls ms w1 else prepareLocalSnapshot ev o' key ls ms w1) of
           (w2, Inr x) \<Rightarrow> commit_target ev o' False target key opts (if par then ls else ls(HasSociIndexDigest \<mapsto> ''true'')) w2
         | (w2, Inl e) \<Rightarrow> if par then (w2, Inl e) else (w2, Inr ms))"

definition prepare_target ::
    "('db, 'f) sn_env \<Rightarrow> snapshotter \<Rightarrow> st_snapshot \<Rightarrow> string \<Rightarrow> string \<Rightarrow> string \<Rightarrow> sn_opt list \<Rightarrow> labels \<Rightarrow>
     ('db, 'f) sn_world \<Rightarrow> (('db, 'f) sn_world, mount list) outcome" where
  "prepare_target ev o' s target key parent opts ls w =
     (if skipRemoteSnapshotPrepare o' ls then prepare_local ev o' False s target key parent opts ls w
      else case prepareRemoteSnapshot ev o' key ls w of
        (w1, Inr x) \<Rightarrow> commit_target ev o' True target key opts
          (ls(remoteLabel \<mapsto> remoteLabelVal, HasSociIndexDigest \<mapsto> ''true'')) w1
      | (w1, Inl e) \<Rightarrow>
          prepare_local ev o' (\<not> err_is e ErrNoZtoc \<and> err_is e ErrNoIndex) s target key parent opts ls w1)"

text \<open>\<open>ns\<close> is the namespace of the context.\<close>

definition Prepare ::
    "('db, 'f) sn_env \<Rightarrow> snapshotter \<Rightarrow> string option \<Rightarrow> string \<Rightarrow> string \<Rightarrow> sn_opt list \<Rightarrow> ('db, 'f) sn_world \<Rightarrow>
     (('db, 'f) sn_world, mount list) outcome" where
  "Prepare ev o' ns key parent opts w =
     and_then (createSnapshot ev o' KindActive key parent opts w) (\<lambda>w1 s.
       case apply_opts opts zero_info of
         Inl e \<Rightarrow> (w1, Inl e)
       | Inr base \<Rightarrow>
         (case in_Labels base targetSnapshotLabel of
            None \<Rightarrow> and_then (setupIDMap ev o' s parent (in_Labels base) w1) (\<lambda>w2 x. mounts ev o' s parent w2)
          | Some target \<Rightarrow>
            (case ns of None \<Rightarrow> (w1, Inl SnNoNamespace)
             | Some n \<Rightarrow> prepare_target ev o' s target key parent opts ((in_Labels base)(TargetNamespace \<mapsto> n)) w1)))"

definition View ::
    "('db, 'f) sn_env \<Rightarrow> snapshotter \<Rightarrow> string \<Rightarrow> string \<Rightarrow> sn_opt list \<Rightarrow> ('db, 'f) sn_world \<Rightarrow>
     (('db, 'f) sn_world, mount list) outcome" where
  "View ev o' key parent opts w =
     and_then (createSnapshot ev o' KindView key parent opts w) (\<lambda>w1 s. mounts ev o' s parent w1)"

definition sn_Mounts ::
    "('db, 'f) sn_env \<Rightarrow> snapshotter \<Rightarrow> string \<Rightarrow> ('db, 'f) sn_world \<Rightarrow> (('db, 'f) sn_world, mount list) outcome" where
  "sn_Mounts ev o' key w =
     (if \<not> ev_begin ev then (w, Inl TxFailed)
      else case ms_GetSnapshot (ev_ms ev) key (w_db w) of
        Inl e \<Rightarrow> (w, Inl e)
      | Inr s \<Rightarrow> mounts ev o' s key w)"

definition sn_Commit ::
    "('db, 'f) sn_env \<Rightarrow> snapshotter \<Rightarrow> string \<Rightarrow> string \<Rightarrow> sn_opt list \<Rightarrow> ('db, 'f) sn_world \<Rightarrow>
     (('db, 'f) sn_world, unit) outcome" where
  "sn_Commit ev o' name key opts w = commit ev o' False name key opts w"

text \<open>
  \<^verbatim>\<open>Remove\<close>: the directories to remove are computed inside the transaction and removed after it,
  unless cancelling the operations of the image failed.
\<close>

definition Remove ::
    "('db, 'f) sn_env \<Rightarrow> snapshotter \<Rightarrow> string \<Rightarrow> ('db, 'f) sn_world \<Rightarrow> (('db, 'f) sn_world, unit) outcome" where
  "Remove ev o' key w =
     (if w_writer w then (w, Inl Blocked)
      else if \<not> ev_begin ev then (w, Inl TxFailed)
      else case ms_GetInfo (ev_ms ev) key (w_db w) of
        Inl e \<Rightarrow> (w, Inl e)
      | Inr (i, info, u) \<Rightarrow>
        (case ms_Remove (ev_ms ev) key (w_db w) of
           Inl e \<Rightarrow> (w, Inl e)
         | Inr db' \<Rightarrow>
           (case (if sn_asyncRemove o' then Inr [] else getCleanupDirectories ev False db' (w_host w)) of
              Inl e \<Rightarrow> (w, Inl e)
            | Inr removals \<Rightarrow>
                if \<not> ev_commit ev db' then (w, Inl CommitFailed)
                else (case fs_CleanImage (ev_fs ev)
                          (case in_Labels info TargetManifestDigestLabel of None \<Rightarrow> '''' | Some d \<Rightarrow> d) (w_host w) of
                        (h1, Some e) \<Rightarrow> (w\<lparr>w_db := db', w_host := h1\<rparr>, Inl e)
                      | (h1, None) \<Rightarrow>
                          (w\<lparr>w_db := db', w_host := for_dirs (cleanupSnapshotDirectory ev o') removals h1\<rparr>, Inr ())))))"

definition cleanupDirectories ::
    "('db, 'f) sn_env \<Rightarrow> bool \<Rightarrow> ('db, 'f) sn_world \<Rightarrow> sn_error + string list" where
  "cleanupDirectories ev cleanupCommitted w =
     (if w_writer w then Inl Blocked
      else if \<not> ev_begin ev then Inl TxFailed
      else getCleanupDirectories ev cleanupCommitted (w_db w) (w_host w))"

definition cleanup ::
    "('db, 'f) sn_env \<Rightarrow> snapshotter \<Rightarrow> bool \<Rightarrow> ('db, 'f) sn_world \<Rightarrow> (('db, 'f) sn_world, unit) outcome" where
  "cleanup ev o' cleanupCommitted w =
     (case cleanupDirectories ev cleanupCommitted w of
        Inl e \<Rightarrow> (w, Inl e)
      | Inr ds \<Rightarrow> (w\<lparr>w_host := for_dirs (cleanupSnapshotDirectory ev o') ds (w_host w)\<rparr>, Inr ()))"

definition Cleanup :: "('db, 'f) sn_env \<Rightarrow> snapshotter \<Rightarrow> ('db, 'f) sn_world \<Rightarrow> (('db, 'f) sn_world, unit) outcome" where
  "Cleanup ev o' = cleanup ev o' False"

definition unmountAllSnapshots ::
    "('db, 'f) sn_env \<Rightarrow> snapshotter \<Rightarrow> bool \<Rightarrow> ('db, 'f) sn_world \<Rightarrow> (('db, 'f) sn_world, unit) outcome" where
  "unmountAllSnapshots ev o' cleanupCommitted w =
     (case cleanupDirectories ev cleanupCommitted w of
        Inl e \<Rightarrow> (w, Inl e)
      | Inr ds \<Rightarrow> (w\<lparr>w_host := for_dirs (unmountSnapshotDirectory ev o') ds (w_host w)\<rparr>, Inr ()))"

text \<open>\<^verbatim>\<open>Close\<close> only logs a failure; the result is that of closing the store.\<close>

definition sn_Close :: "('db, 'f) sn_env \<Rightarrow> snapshotter \<Rightarrow> ('db, 'f) sn_world \<Rightarrow> ('db, 'f) sn_world" where
  "sn_Close ev o' w = fst (unmountAllSnapshots ev o' True w)"

section \<open>Restart\<close>

definition HasPrefix :: "string \<Rightarrow> string \<Rightarrow> bool" where
  "HasPrefix s p \<longleftrightarrow> take (length p) s = p"

fun unmount_below :: "('db, 'f) sn_env \<Rightarrow> string \<Rightarrow> string list \<Rightarrow> 'f fs_call" where
  "unmount_below ev dir [] h = (h, None)"
| "unmount_below ev dir (m # ms) h =
     (if \<not> HasPrefix m dir then unmount_below ev dir ms h
      else if ev_Unmount ev m then unmount_below ev dir ms (h\<lparr>h_mounts := removeAll m (h_mounts h)\<rparr>)
      else (h, Some (OsFailed ''unmount'')))"

definition restore_dir :: "('db, 'f) sn_env \<Rightarrow> string \<Rightarrow> 'f fs_call" where
  "restore_dir ev i h =
     (let sd = (case find_dir h i of None \<Rightarrow> \<lparr>sd_fs = False, sd_work = False, sd_owner = (0, 0)\<rparr> | Some sd \<Rightarrow> sd) in
      if find_dir h i = None \<and> \<not> ev_Mkdir ev i then (h, Some (OsFailed ''mkdir''))
      else if \<not> sd_fs sd \<and> \<not> ev_Mkdir ev (i @ ''/fs'') then (put_dir i sd h, Some (OsFailed ''mkdir''))
      else (put_dir i (sd\<lparr>sd_fs := True\<rparr>) h, None))"

definition restore_snapshot ::
    "('db, 'f) sn_env \<Rightarrow> snapshotter \<Rightarrow> snap_info \<Rightarrow> ('db, 'f) sn_world \<Rightarrow> (('db, 'f) sn_world, unit) outcome" where
  "restore_snapshot ev o' info w =
     (if \<not> ev_begin ev then (w, Inl TxFailed)
      else case ms_GetInfo (ev_ms ev) (in_Name info) (w_db w) of
        Inl e \<Rightarrow> (w, Inl e)
      | Inr (i, info', u) \<Rightarrow>
        and_then (on_host (restore_dir ev i) w) (\<lambda>w1 x.
          if in_Labels info TargetNamespace = None then (w1, Inl SnNoNamespace)
          else (case prepareRemoteSnapshot ev o' (in_Name info) (in_Labels info) w1 of
                  (w2, Inr y) \<Rightarrow> (w2, Inr ())
                | (w2, Inl e) \<Rightarrow> if sn_allowInvalidMountsOnRestart o' then (w2, Inr ()) else (w2, Inl e))))"

fun restore_all ::
    "('db, 'f) sn_env \<Rightarrow> snapshotter \<Rightarrow> snap_info list \<Rightarrow> ('db, 'f) sn_world \<Rightarrow> (('db, 'f) sn_world, unit) outcome" where
  "restore_all ev o' [] w = (w, Inr ())"
| "restore_all ev o' (t # ts) w = and_then (restore_snapshot ev o' t w) (\<lambda>w1 x. restore_all ev o' ts w1)"

definition restoreRemoteSnapshot ::
    "('db, 'f) sn_env \<Rightarrow> snapshotter \<Rightarrow> ('db, 'f) sn_world \<Rightarrow> (('db, 'f) sn_world, unit) outcome" where
  "restoreRemoteSnapshot ev o' w =
     (if \<not> ev_GetMounts ev then (w, Inl (OsFailed ''mountinfo''))
      else and_then (on_host (\<lambda>h. unmount_below ev (snapshotsDir o') (h_mounts h) h) w) (\<lambda>w1 x.
        if \<not> ev_begin ev then (w1, Inl TxFailed)
        else case ms_WalkInfo (ev_ms ev) [] (w_db w1) of
          Inl e \<Rightarrow> if err_is e SnNotFound then (w1, Inr ()) else (w1, Inl e)
        | Inr infos \<Rightarrow> restore_all ev o' (filter (\<lambda>i. in_Labels i remoteLabel \<noteq> None) infos) w1))"

text \<open>
  A new process: the write transaction and the set \<^verbatim>\<open>idmapped\<close> of the old one are gone, the database and
  the host are as it left them.
\<close>

definition NewSnapshotter ::
    "('db, 'f) sn_env \<Rightarrow> snapshotter \<Rightarrow> ('db, 'f) sn_world \<Rightarrow> (('db, 'f) sn_world, unit) outcome" where
  "NewSnapshotter ev o' w = restoreRemoteSnapshot ev o' (w\<lparr>w_writer := False, w_idmapped := {}\<rparr>)"

end
