(* ===== verification/Snapshotter_Inv.thy ===== *)
theory Snapshotter_Inv
  imports Snapshotter
begin

text \<open>
  The directories of the snapshotter: whatever fails, every snapshot of the store has its
  directory, cleaning up removes exactly the directories of no snapshot, and what a failed
  \<^verbatim>\<open>createSnapshot\<close> cleans up after its transaction may by then belong to another snapshot. The
  metadata store and the file system are assumed to do what they document.
\<close>

section \<open>What the store and the file system promise\<close>

definition live :: "'db meta_store \<Rightarrow> 'db \<Rightarrow> string set" where
  "live ms db = {i. \<exists>k info u. ms_GetInfo ms k db = Inr (i, info, u)}"

text \<open>The store numbers the snapshots; an ID is the decimal form of its number.\<close>

definition plain_id :: "string \<Rightarrow> bool" where
  "plain_id i \<longleftrightarrow> list_all is_digit i"

definition store_laws :: "'db meta_store \<Rightarrow> ('db \<Rightarrow> bool) \<Rightarrow> bool" where
  "store_laws ms ok \<longleftrightarrow>
     (\<forall>db ids. ok db \<longrightarrow> ms_IDMap ms db = Inr ids \<longrightarrow> dom ids = live ms db) \<and>
     (\<forall>db i. ok db \<longrightarrow> i \<in> live ms db \<longrightarrow> plain_id i) \<and>
     (\<forall>db kind key parent opts db' s. ok db \<longrightarrow> ms_CreateSnapshot ms kind key parent opts db = Inr (db', s) \<longrightarrow>
        ok db' \<and> s_ID s \<notin> live ms db \<and> live ms db' = insert (s_ID s) (live ms db)) \<and>
     (\<forall>db key name u opts db'. ok db \<longrightarrow> ms_CommitActive ms key name u opts db = Inr db' \<longrightarrow>
        ok db' \<and> live ms db' = live ms db) \<and>
     (\<forall>db key db'. ok db \<longrightarrow> ms_Remove ms key db = Inr db' \<longrightarrow> ok db' \<and> live ms db' \<subseteq> live ms db) \<and>
     (\<forall>db info fps db' info'. ok db \<longrightarrow> ms_UpdateInfo ms info fps db = Inr (db', info') \<longrightarrow>
        ok db' \<and> live ms db' = live ms db)"

lemma store_lawsD:
  assumes "store_laws ms ok" and "ok db"
  shows "ms_IDMap ms db = Inr ids \<Longrightarrow> dom ids = live ms db"
    and "i \<in> live ms db \<Longrightarrow> plain_id i"
    and "ms_CreateSnapshot ms kind key parent opts db = Inr (db', s) \<Longrightarrow>
      ok db' \<and> s_ID s \<notin> live ms db \<and> live ms db' = insert (s_ID s) (live ms db)"
    and "ms_CommitActive ms key name u opts db = Inr db' \<Longrightarrow> ok db' \<and> live ms db' = live ms db"
    and "ms_Remove ms key db = Inr db' \<Longrightarrow> ok db' \<and> live ms db' \<subseteq> live ms db"
    and "ms_UpdateInfo ms info fps db = Inr (db', info') \<Longrightarrow> ok db' \<and> live ms db' = live ms db"
  using assms unfolding store_laws_def by - (elim conjE, metis)+

text \<open>
  What is promised of a directory: that it exists, or that it exists with \<^verbatim>\<open>fs\<close> in it. Everything below holds for
  both readings. \<open>keep b P h h'\<close>: of the directories named in \<open>P\<close> none is lost between two states of the host.
\<close>

definition present :: "bool \<Rightarrow> 'f host \<Rightarrow> string \<Rightarrow> bool" where
  "present b h d \<longleftrightarrow> find_dir h d \<noteq> None \<and> (b \<longrightarrow> has_fs h d)"

definition keep :: "bool \<Rightarrow> string set \<Rightarrow> 'f host \<Rightarrow> 'f host \<Rightarrow> bool" where
  "keep b P h h' \<longleftrightarrow> (\<forall>d \<in> P. present b h d \<longrightarrow> present b h' d)"

lemma keep_refl [simp]: "keep b P h h"
  by (simp add: keep_def)

lemma keep_trans [trans]: "keep b P h h1 \<Longrightarrow> keep b P h1 h2 \<Longrightarrow> keep b P h h2"
  by (simp add: keep_def)

lemma keep_mono: "keep b P h h' \<Longrightarrow> Q \<subseteq> P \<Longrightarrow> keep b Q h h'"
  by (auto simp: keep_def)

text \<open>
  A file system mounts, unmounts and fills directories; it does not remove those of snapshots. Whether it may lose
  the \<^verbatim>\<open>fs\<close> below one is the first argument: a parallel pull removes \<^verbatim>\<open>fs\<close> before it moves the unpacked layer there.
\<close>

definition fs_laws :: "bool \<Rightarrow> 'f file_system \<Rightarrow> bool" where
  "fs_laws b fs \<longleftrightarrow>
     (\<forall>mp ls h. keep b UNIV h (fst (fs_Mount fs mp ls h))) \<and>
     (\<forall>mp h. keep b UNIV h (fst (fs_Unmount fs mp h))) \<and>
     (\<forall>mp ls ms h. keep b UNIV h (fst (fs_MountLocal fs mp ls ms h))) \<and>
     (\<forall>mp ls ms h. keep b UNIV h (fst (fs_MountParallel fs mp ls ms h))) \<and>
     (\<forall>mp i idmap h. keep b UNIV h (fst (fs_IDMapMount fs mp i idmap h))) \<and>
     (\<forall>mp i idmap h. keep b UNIV h (fst (fs_IDMapMountLocal fs mp i idmap h))) \<and>
     (\<forall>dg h. keep b UNIV h (fst (fs_CleanImage fs dg h)))"

lemma fs_lawsD:
  assumes "fs_laws b fs"
  shows "keep b P h (fst (fs_Mount fs mp ls h))" and "keep b P h (fst (fs_Unmount fs mp h))"
    and "keep b P h (fst (fs_MountLocal fs mp ls ms h))" and "keep b P h (fst (fs_MountParallel fs mp ls ms h))"
    and "keep b P h (fst (fs_IDMapMount fs mp i idmap h))" and "keep b P h (fst (fs_IDMapMountLocal fs mp i idmap h))"
    and "keep b P h (fst (fs_CleanImage fs dg h))"
  using assms by (simp_all add: fs_laws_def keep_def)

section \<open>Directories that an operation keeps\<close>

lemma present_simps [simp]:
  "present b (put_dir d sd h) e = (if e = d then b \<longrightarrow> sd_fs sd else present b h e)"
  "present b (drop_dir d h) e = (e \<noteq> d \<and> present b h e)"
  by (auto simp: present_def has_fs_def)

lemma present_find: "find_dir h d = Some sd \<Longrightarrow> present b h d = (b \<longrightarrow> sd_fs sd)"
  by (simp add: present_def has_fs_def)

lemma present_None: "find_dir h d = None \<Longrightarrow> \<not> present b h d"
  by (simp add: present_def)

lemma unmount_keep: "fs_laws b (ev_fs ev) \<Longrightarrow> keep b P h (fst (unmountSnapshotDirectory ev o' d h))"
  by (simp add: unmountSnapshotDirectory_def fs_lawsD)

lemma remove_all_keep: "d \<notin> P \<Longrightarrow> keep b P h (fst (remove_all ev d h))"
  by (auto simp: remove_all_def keep_def split: option.splits)

lemma cleanup_keep:
  assumes "fs_laws b (ev_fs ev)" and "d \<notin> P"
  shows "keep b P h (fst (cleanupSnapshotDirectory ev o' d h))"
proof -
  obtain h1 r where u: "unmountSnapshotDirectory ev o' d h = (h1, r)" by fastforce
  then have "keep b P h h1" using unmount_keep [OF assms(1), of P h o' d] by simp
  then show ?thesis using keep_trans [OF _ remove_all_keep [OF assms(2)]] u
    by (auto simp: cleanupSnapshotDirectory_def split: option.splits)
qed

lemma for_dirs_keep:
  assumes "\<And>d h. d \<in> set ds \<Longrightarrow> keep b P h (fst (f d h))"
  shows "keep b P h (for_dirs f ds h)"
  using assms by (induction ds arbitrary: h) (auto intro: keep_trans)

lemma prepareDirectory_keep: "keep b P h (fst (prepareDirectory ev kind h))"
  by (auto simp: prepareDirectory_def Let_def keep_def present_None split: option.splits)

lemma prepareDirectory_td:
  "prepareDirectory ev kind h = (h1, Inr td) \<Longrightarrow> present b h1 td \<and> \<not> plain_id td"
  "prepareDirectory ev kind h = (h1, Inl (Some td, e)) \<Longrightarrow> \<not> plain_id td"
  by (auto simp: prepareDirectory_def Let_def plain_id_def is_digit_def split: option.splits if_splits)

lemma chown_parent_keep: "keep b P h (fst (chown_parent ev td s h))"
  by (auto simp: chown_parent_def keep_def present_find split: list.splits option.splits)

lemma rename_dir_keep:
  assumes "rename_dir ev td path h = (h', r)"
  shows "td \<notin> P \<Longrightarrow> present b h td \<Longrightarrow> keep b P h h'" and "present b h td \<Longrightarrow> r = None \<Longrightarrow> present b h' path" and "r = Some e \<Longrightarrow> h' = h"
  using assms by (auto simp: rename_dir_def keep_def present_find split: option.splits if_splits)

section \<open>Every snapshot has its directory\<close>

definition world_inv :: "bool \<Rightarrow> 'db meta_store \<Rightarrow> ('db \<Rightarrow> bool) \<Rightarrow> ('db, 'f) sn_world \<Rightarrow> bool" where
  "world_inv b ms ok w \<longleftrightarrow> ok (w_db w) \<and> (\<forall>i \<in> live ms (w_db w). present b (w_host w) i)"

lemma world_invI: "ok (w_db w) \<Longrightarrow> (\<And>i. i \<in> live ms (w_db w) \<Longrightarrow> present b (w_host w) i) \<Longrightarrow> world_inv b ms ok w"
  by (simp add: world_inv_def)

lemma world_inv_host:
  assumes "world_inv b ms ok w" and "keep b (live ms (w_db w)) (w_host w) h"
  shows "world_inv b ms ok (w\<lparr>w_host := h\<rparr>)"
  using assms by (auto simp: world_inv_def keep_def)

lemma world_inv_mem: "world_inv b ms ok (w\<lparr>w_writer := x\<rparr>) = world_inv b ms ok w"
  "world_inv b ms ok (w\<lparr>w_idmapped := s\<rparr>) = world_inv b ms ok w"
  by (simp_all add: world_inv_def)

text \<open>The laws for one environment, as the proofs about operations use them.\<close>

definition env_ok :: "bool \<Rightarrow> 'db meta_store \<Rightarrow> 'f file_system \<Rightarrow> ('db \<Rightarrow> bool) \<Rightarrow> ('db, 'f) sn_env \<Rightarrow> bool" where
  "env_ok b ms fs ok ev \<longleftrightarrow> ev_ms ev = ms \<and> ev_fs ev = fs \<and> store_laws ms ok \<and> fs_laws b fs"

lemma env_okD:
  assumes "env_ok b ms fs ok ev"
  shows "ev_ms ev = ms" and "ev_fs ev = fs" and "store_laws ms ok" and "fs_laws b (ev_fs ev)"
  using assms by (simp_all add: env_ok_def)

lemma place_snapshot_inv:
  assumes "ok db" and "\<forall>i \<in> live ms db. present b h i" and "present b h t" and "t \<notin> live ms db"
    and "ok db1" and "s_ID s \<notin> live ms db" and "live ms db1 = insert (s_ID s) (live ms db)"
    and c: "place_snapshot ev t db db1 s h = (h', db', td, path, r)"
  shows "ok db' \<and> (\<forall>i \<in> live ms db'. present b h' i) \<and> (\<forall>e. r = Inl e \<longrightarrow> db' = db) \<and> (\<forall>d. td = Some d \<longrightarrow> d \<notin> live ms db') \<and>
    (\<forall>e p. r = Inl e \<longrightarrow> path = Some p \<longrightarrow> p \<notin> live ms db')"
proof -
  obtain h2 e2 where ch: "chown_parent ev t s h = (h2, e2)" by fastforce
  have d2: "\<forall>i \<in> live ms db. present b h2 i" "present b h2 t"
    using chown_parent_keep [of b UNIV h ev t s] ch assms(2,3) by (auto simp: keep_def)
  obtain h3 e3 where rn: "rename_dir ev t (s_ID s) h2 = (h3, e3)" by fastforce
  have d3: "\<forall>i \<in> live ms db. present b h3 i"
    using rename_dir_keep(1) [OF rn assms(4) d2(2)] d2(1) by (auto simp: keep_def)
  show ?thesis
  proof (cases "e2 = None \<and> e3 = None \<and> ev_commit ev db1")
    case True
    then have "h' = h3" "db' = db1" "td = None" "r = Inr s" using c ch rn by (simp_all add: place_snapshot_def)
    moreover have "present b h3 (s_ID s)" using rename_dir_keep(2) [OF rn d2(2)] True by simp
    ultimately show ?thesis using assms(5,7) d3 by simp
  next
    case False
    then have "db' = db" "h' = h2 \<or> h' = h3" "td = Some t \<or> td = None" "path = None \<or> path = Some (s_ID s)"
      using c ch rn by (auto simp: place_snapshot_def split: option.splits)
    then show ?thesis using assms(1,4,6) d2(1) d3 by auto
  qed
qed

lemma create_tx_inv:
  assumes E: "env_ok b ms fs ok ev" and ok: "ok db" and dirs: "\<forall>i \<in> live ms db. present b h i"
    and c: "create_tx ev kind key parent opts db h = (h', db', td, path, r)"
  shows "ok db' \<and> (\<forall>i \<in> live ms db'. present b h' i) \<and> (\<forall>e. r = Inl e \<longrightarrow> db' = db) \<and> (\<forall>d. td = Some d \<longrightarrow> d \<notin> live ms db') \<and>
    (\<forall>e p. r = Inl e \<longrightarrow> path = Some p \<longrightarrow> p \<notin> live ms db')"
proof -
  note L = store_lawsD [OF env_okD(3) [OF E] ok]
  obtain h1 t where p: "prepareDirectory ev kind h = (h1, t)" by fastforce
  have k1: "keep b (live ms db) h h1" using prepareDirectory_keep [of b _ h ev kind] p by simp
  have d1: "\<forall>i \<in> live ms db. present b h1 i" using k1 dirs by (auto simp: keep_def)
  show ?thesis
  proof (cases t)
    case (Inl x)
    obtain td' e' where x: "x = (td', e')" by fastforce
    have "h' = h1" "db' = db" "td = td'" "path = None" using c p Inl x by (simp_all add: create_tx_def)
    moreover have "\<forall>d. td' = Some d \<longrightarrow> d \<notin> live ms db" using prepareDirectory_td(2) [of ev kind h h1] p Inl x L(2) by auto
    ultimately show ?thesis using ok d1 by simp
  next
    case (Inr t')
    have t': "present b h1 t'" "t' \<notin> live ms db" using prepareDirectory_td(1) [of ev kind h h1 t'] p Inr L(2) by auto
    show ?thesis
    proof (cases "ms_CreateSnapshot (ev_ms ev) kind key parent opts db")
      case (Inl e')
      have "h' = h1" "db' = db" "td = Some t'" "path = None" using c p Inr Inl by (simp_all add: create_tx_def)
      then show ?thesis using ok d1 t'(2) by simp
    next
      case C: (Inr x)
      obtain db1 s where x: "x = (db1, s)" by fastforce
      have N: "ok db1" "s_ID s \<notin> live ms db" "live ms db1 = insert (s_ID s) (live ms db)"
        using L(3) [of kind key parent opts db1 s] C x env_okD(1) [OF E] by auto
      show ?thesis using place_snapshot_inv [OF ok d1 t' N] c p Inr C x by (simp add: create_tx_def)
    qed
  qed
qed

lemma create_cleanup_keep:
  assumes "fs_laws b (ev_fs ev)" and "\<forall>d. td = Some d \<longrightarrow> d \<notin> P" and "\<forall>e p. r = Inl e \<longrightarrow> path = Some p \<longrightarrow> p \<notin> P"
  shows "keep b P h (fst (create_cleanup ev o' td path r h))"
proof (cases r)
  case (Inl e)
  define h1 where "h1 = (case td of None \<Rightarrow> h | Some d \<Rightarrow> fst (cleanupSnapshotDirectory ev o' d h))"
  have 1: "keep b P h h1" using cleanup_keep [OF assms(1)] assms(2) by (auto simp: h1_def split: option.splits)
  have "keep b P h1 (fst (create_cleanup ev o' td path r h))"
  proof (cases path)
    case None
    then show ?thesis by (simp add: create_cleanup_def Inl h1_def [symmetric])
  next
    case (Some p)
    have "keep b P h1 (fst (cleanupSnapshotDirectory ev o' p h1))" using cleanup_keep [OF assms(1)] assms(3) Inl Some by simp
    then show ?thesis by (auto simp: create_cleanup_def Inl h1_def [symmetric] Some split: prod.splits option.splits)
  qed
  then show ?thesis using keep_trans [OF 1] by simp
qed (simp add: create_cleanup_def)

named_theorems keeps_inv \<open>operations that keep the invariant of the snapshotter\<close>

lemma createSnapshot_inv [keeps_inv]:
  assumes E: "env_ok b ms fs ok ev" and I: "world_inv b ms ok w"
  shows "world_inv b ms ok (fst (createSnapshot ev o' kind key parent opts w))"
proof (cases "w_writer w \<or> \<not> ev_begin ev")
  case False
  obtain h db td path r where c: "create_tx ev kind key parent opts (w_db w) (w_host w) = (h, db, td, path, r)"
    by (metis prod_cases5)
  have "ok (w_db w)" "\<forall>i \<in> live ms (w_db w). present b (w_host w) i" using I by (simp_all add: world_inv_def)
  from create_tx_inv [OF E this c] have D: "ok db" "\<forall>i \<in> live ms db. present b h i" "\<forall>d. td = Some d \<longrightarrow> d \<notin> live ms db"
      "\<forall>e p. r = Inl e \<longrightarrow> path = Some p \<longrightarrow> p \<notin> live ms db"
    by blast+
  obtain h' r' where k: "create_cleanup ev o' td path r h = (h', r')" by fastforce
  have "keep b (live ms db) h h'" using create_cleanup_keep [OF env_okD(4) [OF E] D(3,4), of h o'] k by simp
  then have "world_inv b ms ok (w\<lparr>w_db := db, w_host := h'\<rparr>)" using D(1,2) by (auto simp: world_inv_def keep_def)
  then show ?thesis using False c k by (simp add: createSnapshot_def)
qed (use I in \<open>auto simp: createSnapshot_def\<close>)

lemma and_then_inv:
  assumes "I (fst r)" and "\<And>w x. I w \<Longrightarrow> I (fst (f w x))"
  shows "I (fst (and_then r f))"
  using assms by (auto simp: and_then_def split: prod.splits sum.splits)

lemma result_inv:
  assumes "I (fst r)" and "\<And>w x. I w \<Longrightarrow> I (fst (f w x))" and "\<And>w e. I w \<Longrightarrow> I (fst (g w e))"
  shows "I (fst (case r of (w, Inl e) \<Rightarrow> g w e | (w, Inr x) \<Rightarrow> f w x))"
  using assms by (auto split: prod.splits sum.splits)

lemma on_host_inv:
  assumes "world_inv b ms ok w" and "\<And>P h. P \<subseteq> Collect plain_id \<Longrightarrow> keep b P h (fst (f h))" and "store_laws ms ok"
  shows "world_inv b ms ok (fst (on_host f w))"
proof -
  have "live ms (w_db w) \<subseteq> Collect plain_id" using store_lawsD(2) [OF assms(3)] assms(1) by (auto simp: world_inv_def)
  from world_inv_host [OF assms(1) assms(2) [OF this, of "w_host w"]] show ?thesis
    by (auto simp: on_host_def split: prod.splits option.splits)
qed

lemma mounts_inv [keeps_inv]: "world_inv b ms ok w \<Longrightarrow> world_inv b ms ok (fst (mounts ev o' s k w))"
  by (simp add: mounts_def)

lemma createIDMapMount_keep:
  assumes "fs_laws b (ev_fs ev)" and "P \<subseteq> Collect plain_id"
  shows "keep b P h (fst (createIDMapMount ev o' pid i idmap h))"
proof -
  have n: "pid @ ''_'' @ i \<notin> P" using assms(2) by (auto simp: plain_id_def is_digit_def)
  obtain h1 r1 where 1: "fs_IDMapMount (ev_fs ev) (upperPath o' pid) i idmap h = (h1, r1)" by fastforce
  have k1: "keep b P h h1" using fs_lawsD(5) [OF assms(1), of P h "upperPath o' pid" i idmap] 1 by simp
  obtain h2 r2 where 2: "remove_all ev (pid @ ''_'' @ i) h1 = (h2, r2)" by fastforce
  have k2: "keep b P h h2" using keep_trans [OF k1] remove_all_keep [OF n, of b h1 ev] 2 by simp
  have k3: "keep b P h (fst (fs_IDMapMountLocal (ev_fs ev) (upperPath o' pid) i idmap h2))"
    using keep_trans [OF k2 fs_lawsD(6) [OF assms(1)]] .
  show ?thesis using k1 k2 k3 1 2 by (auto simp: createIDMapMount_def split: option.splits)
qed

lemma idmap_parents_keep:
  assumes "fs_laws b (ev_fs ev)" and "P \<subseteq> Collect plain_id"
  shows "keep b P h (fst (idmap_parents ev o' ps i idmap h))"
proof (induction ps arbitrary: h)
  case (Cons p ps)
  obtain h1 r1 where 1: "createIDMapMount ev o' p i idmap h = (h1, r1)" by fastforce
  have "keep b P h h1" using createIDMapMount_keep [OF assms, of h o' p i idmap] 1 by simp
  then show ?case using keep_trans [OF _ Cons.IH] 1 by (auto split: option.splits)
qed simp

lemma createIDMapMounts_keep:
  assumes "fs_laws b (ev_fs ev)" and "P \<subseteq> Collect plain_id"
  shows "keep b P h (fst (createIDMapMounts ev o' s idmap h))"
  using idmap_parents_keep [OF assms, of h o' "s_ParentIDs s" "s_ID s" idmap]
  by (auto simp: createIDMapMounts_def split: prod.splits option.splits)

lemma setupIDMap_inv [keeps_inv]:
  assumes E: "env_ok b ms fs ok ev" and I: "world_inv b ms ok w"
  shows "world_inv b ms ok (fst (setupIDMap ev o' s parent ls w))"
proof -
  have h: "world_inv b ms ok v \<Longrightarrow> world_inv b ms ok (fst (on_host (createIDMapMounts ev o' s idmap) v))" for v idmap
    by (rule on_host_inv) (use createIDMapMounts_keep [OF env_okD(4) [OF E]] env_okD(3) [OF E] in auto)
  show ?thesis
    using I h by (auto simp: setupIDMap_def sn_Stat_def mounts_def world_inv_mem split: sum.splits intro!: and_then_inv [of "world_inv b ms ok"])
qed

lemma prepare_with_inv:
  assumes "world_inv b ms ok w" and "store_laws ms ok" and "\<And>mp P h. keep b P h (fst (f mp h))"
  shows "world_inv b ms ok (fst (prepare_with ev o' f key w))"
  using on_host_inv [OF assms(1) _ assms(2)] assms(1,3) by (auto simp: prepare_with_def split: sum.splits)

lemma prepare_inv [keeps_inv]:
  assumes E: "env_ok b ms fs ok ev" and I: "world_inv b ms ok w"
  shows "world_inv b ms ok (fst (prepareRemoteSnapshot ev o' key ls w))"
    and "world_inv b ms ok (fst (prepareLocalSnapshot ev o' key ls mts w))"
    and "world_inv b ms ok (fst (prepareParallelPullSnapshot ev o' key ls mts w))"
  unfolding prepareRemoteSnapshot_def prepareLocalSnapshot_def prepareParallelPullSnapshot_def
  by (rule prepare_with_inv [OF I env_okD(3) [OF E]]; rule fs_lawsD [OF env_okD(4) [OF E]])+

lemma world_inv_db:
  assumes "world_inv b ms ok w" and "ok db" and "live ms db \<subseteq> live ms (w_db w)"
  shows "world_inv b ms ok (w\<lparr>w_db := db\<rparr>)"
  using assms by (auto simp: world_inv_def)

lemma commit_inv [keeps_inv]:
  assumes E: "env_ok b ms fs ok ev" and I: "world_inv b ms ok w"
  shows "world_inv b ms ok (fst (commit ev o' isRemote name key opts w))"
proof -
  have "ms_CommitActive (ev_ms ev) key name u opts (w_db w) = Inr db \<Longrightarrow> world_inv b ms ok (w\<lparr>w_db := db\<rparr>)" for u db
    using store_lawsD(4) [OF env_okD(3) [OF E], of "w_db w" key name u opts db] env_okD(1) [OF E] I world_inv_db [OF I, of db]
    by (auto simp: world_inv_def)
  then show ?thesis using I by (auto simp: commit_def world_inv_mem split: sum.splits option.splits)
qed

lemma commit_target_inv [keeps_inv]:
  assumes "env_ok b ms fs ok ev" and "world_inv b ms ok w"
  shows "world_inv b ms ok (fst (commit_target ev o' isRemote target key opts ls w))"
  using commit_inv [OF assms] by (auto simp: commit_target_def split: prod.splits sum.splits) (metis fst_conv)+

lemma prepare_local_inv [keeps_inv]:
  assumes E: "env_ok b ms fs ok ev" and I: "world_inv b ms ok w"
  shows "world_inv b ms ok (fst (prepare_local ev o' def s target key parent opts ls w))"
  unfolding prepare_local_def Let_def
  by (rule and_then_inv [of "world_inv b ms ok"])
    (auto simp: mounts_def I intro!: result_inv [of "world_inv b ms ok"] prepare_inv [OF E] commit_target_inv [OF E])
lemma prepare_target_inv [keeps_inv]:
  assumes E: "env_ok b ms fs ok ev" and I: "world_inv b ms ok w"
  shows "world_inv b ms ok (fst (prepare_target ev o' s target key parent opts ls w))"
  using prepare_inv(1) [OF E I, of o' key ls] prepare_local_inv [OF E] commit_target_inv [OF E] I
  by (auto simp: prepare_target_def split: prod.splits sum.splits)

lemma Prepare_inv [keeps_inv]:
  assumes E: "env_ok b ms fs ok ev" and I: "world_inv b ms ok w"
  shows "world_inv b ms ok (fst (Prepare ev o' ns key parent opts w))"
  unfolding Prepare_def
  by (rule and_then_inv [of "world_inv b ms ok", OF createSnapshot_inv [OF E I]])
    (auto simp: mounts_def split: sum.splits option.splits intro!: and_then_inv [of "world_inv b ms ok"] setupIDMap_inv [OF E] prepare_target_inv [OF E])

lemma View_inv [keeps_inv]:
  assumes E: "env_ok b ms fs ok ev" and I: "world_inv b ms ok w"
  shows "world_inv b ms ok (fst (View ev o' key parent opts w))"
  unfolding View_def
  by (rule and_then_inv [of "world_inv b ms ok", OF createSnapshot_inv [OF E I]]) (simp add: mounts_def)

text \<open>What is cleaned up belongs to no snapshot of the database.\<close>

lemma split_plain: "plain_id d \<Longrightarrow> split_on CHR ''_'' d = [d]"
  by (induction d) (auto simp: plain_id_def is_digit_def)

lemma cleanup_id_plain: "plain_id d \<Longrightarrow> cleanup_id d = d"
  by (simp add: cleanup_id_def split_plain)

lemma getCleanupDirectories_iff:
  assumes "store_laws ms ok" and "ev_ms ev = ms" and "ok db" and "getCleanupDirectories ev False db h = Inr ds"
  shows "d \<in> set ds \<longleftrightarrow> find_dir h d \<noteq> None \<and> cleanup_id d \<notin> live ms db"
proof -
  obtain ids where i: "ms_IDMap ms db = Inr ids" "ds = filter (\<lambda>d. ids (cleanup_id d) = None) (map fst (h_dirs h))"
    using assms by (auto simp: getCleanupDirectories_def bind_res_Inr_iff split: if_splits)
  have "ids (cleanup_id d) = None \<longleftrightarrow> cleanup_id d \<notin> live ms db"
    using store_lawsD(1) [OF assms(1,3) i(1)] by blast
  then show ?thesis using i(2) by (auto simp: find_dir_def map_of_eq_None_iff)
qed

lemma cleanup_not_live:
  assumes "env_ok b ms fs ok ev" and "ok db" and "getCleanupDirectories ev False db h = Inr ds"
  shows "set ds \<inter> live ms db = {}"
  using getCleanupDirectories_iff [OF env_okD(3,1) [OF assms(1)] assms(2,3)] store_lawsD(2) [OF env_okD(3) [OF assms(1)] assms(2)] cleanup_id_plain by fastforce

lemma for_cleanup_inv:
  assumes E: "env_ok b ms fs ok ev" and I: "world_inv b ms ok w" and "set ds \<inter> live ms (w_db w) = {}"
  shows "world_inv b ms ok (w\<lparr>w_host := for_dirs (cleanupSnapshotDirectory ev o') ds (w_host w)\<rparr>)"
  by (rule world_inv_host [OF I], rule for_dirs_keep, rule cleanup_keep [OF env_okD(4) [OF E]]) (use assms(3) in auto)

lemma cleanup_inv [keeps_inv]:
  assumes E: "env_ok b ms fs ok ev" and I: "world_inv b ms ok w"
  shows "world_inv b ms ok (fst (Cleanup ev o' w))"
  using for_cleanup_inv [OF E I] cleanup_not_live [OF E] I
  by (auto simp: Cleanup_def cleanup_def cleanupDirectories_def world_inv_def split: sum.splits)

lemma Remove_inv [keeps_inv]:
  assumes E: "env_ok b ms fs ok ev" and I: "world_inv b ms ok w"
  shows "world_inv b ms ok (fst (Remove ev o' key w))"
proof -
  have step: "world_inv b ms ok (w\<lparr>w_db := db', w_host := h1\<rparr>) \<and>
      world_inv b ms ok (w\<lparr>w_db := db', w_host := for_dirs (cleanupSnapshotDirectory ev o') ds h1\<rparr>)"
    if r: "ms_Remove (ev_ms ev) key (w_db w) = Inr db'" and d: "ds = [] \<or> getCleanupDirectories ev False db' (w_host w) = Inr ds"
      and c: "fs_CleanImage (ev_fs ev) dg (w_host w) = (h1, e)" for db' ds dg h1 e
  proof -
    have o: "ok db'" "live ms db' \<subseteq> live ms (w_db w)"
      using store_lawsD(5) [OF env_okD(3) [OF E], of "w_db w" key db'] I r env_okD(1) [OF E] by (auto simp: world_inv_def)
    have "keep b (live ms db') (w_host w) h1" using fs_lawsD(7) [OF env_okD(4) [OF E], of _ "w_host w" dg] c by simp
    then have w1: "world_inv b ms ok (w\<lparr>w_db := db', w_host := h1\<rparr>)"
      using world_inv_host [OF world_inv_db [OF I o], of h1] by simp
    have "set ds \<inter> live ms db' = {}" using d cleanup_not_live [OF E o(1)] by auto
    with for_cleanup_inv [OF E w1, of ds o'] w1 show ?thesis by simp
  qed
  have s1: "world_inv b ms ok (w\<lparr>w_db := db', w_host := h1\<rparr>)"
    if "ms_Remove (ev_ms ev) key (w_db w) = Inr db'" and "fs_CleanImage (ev_fs ev) dg (w_host w) = (h1, e)" for db' dg h1 e
    using step [OF that(1) disjI1 [OF refl] that(2)] by blast
  show ?thesis
    using I step s1 by (auto simp: Remove_def split: sum.splits option.splits prod.splits)
qed

lemma unmount_all_inv [keeps_inv]:
  assumes E: "env_ok b ms fs ok ev" and I: "world_inv b ms ok w"
  shows "world_inv b ms ok (sn_Close ev o' w)"
proof -
  have "world_inv b ms ok (w\<lparr>w_host := for_dirs (unmountSnapshotDirectory ev o') ds (w_host w)\<rparr>)" for ds
    by (rule world_inv_host [OF I], rule for_dirs_keep, rule unmount_keep [OF env_okD(4) [OF E]])
  then show ?thesis using I by (auto simp: sn_Close_def unmountAllSnapshots_def split: sum.splits)
qed

lemma sn_Update_inv [keeps_inv]:
  assumes E: "env_ok b ms fs ok ev" and I: "world_inv b ms ok w"
  shows "world_inv b ms ok (fst (sn_Update ev info fps w))"
proof -
  have "ms_UpdateInfo (ev_ms ev) info fps (w_db w) = Inr (db, i) \<Longrightarrow> world_inv b ms ok (w\<lparr>w_db := db\<rparr>)" for db i
    using store_lawsD(6) [OF env_okD(3) [OF E], of "w_db w" info fps db i] env_okD(1) [OF E] I world_inv_db [OF I, of db]
    by (auto simp: world_inv_def)
  then show ?thesis using I by (auto simp: sn_Update_def split: sum.splits)
qed

lemma unmount_below_dirs: "h_dirs (fst (unmount_below ev dir ms h)) = h_dirs h"
  by (induction ev dir ms h rule: unmount_below.induct) auto

lemma same_dirs_keep: "h_dirs h' = h_dirs h \<Longrightarrow> keep b P h h'"
  by (simp add: keep_def present_def has_fs_def find_dir_def)

lemma restore_dir_keep: "keep b P h (fst (restore_dir ev i h))"
  by (auto simp: restore_dir_def Let_def keep_def present_find present_None split: option.splits)

lemma restore_snapshot_inv:
  assumes E: "env_ok b ms fs ok ev" and I: "world_inv b ms ok w"
  shows "world_inv b ms ok (fst (restore_snapshot ev o' info w))"
proof -
  have "world_inv b ms ok (fst (on_host (restore_dir ev i) w))" for i
    by (rule on_host_inv [OF I restore_dir_keep env_okD(3) [OF E]])
  then show ?thesis using I
    by (auto simp: restore_snapshot_def split: sum.splits intro!: and_then_inv [of "world_inv b ms ok"] result_inv [of "world_inv b ms ok"]
      prepare_inv [OF E])
qed

lemma restore_all_inv:
  assumes E: "env_ok b ms fs ok ev"
  shows "world_inv b ms ok w \<Longrightarrow> world_inv b ms ok (fst (restore_all ev o' ts w))"
  by (induction ts arbitrary: w) (auto intro!: and_then_inv [of "world_inv b ms ok"] restore_snapshot_inv [OF E])

lemma NewSnapshotter_inv [keeps_inv]:
  assumes E: "env_ok b ms fs ok ev" and I: "world_inv b ms ok w"
  shows "world_inv b ms ok (fst (NewSnapshotter ev o' w))"
proof -
  define w0 where "w0 = w\<lparr>w_writer := False, w_idmapped := {}\<rparr>"
  have "world_inv b ms ok w0" using I by (simp add: w0_def world_inv_def)
  then have "world_inv b ms ok (fst (on_host (\<lambda>h. unmount_below ev (snapshotsDir o') (h_mounts h) h) w0))" "world_inv b ms ok w0"
    by (auto intro!: on_host_inv same_dirs_keep unmount_below_dirs env_okD(3) [OF E])
  then show ?thesis unfolding NewSnapshotter_def restoreRemoteSnapshot_def w0_def [symmetric]
    by (auto split: sum.splits intro!: and_then_inv [of "world_inv b ms ok"] restore_all_inv [OF E])
qed

section \<open>Runs\<close>

text \<open>The calls that containerd makes, and the end of the process at any time between two of them.\<close>

datatype sn_call =
    CallPrepare "string option" string string "sn_opt list" | CallView string string "sn_opt list"
  | CallCommit string string "sn_opt list" | CallRemove string | CallCleanup | CallUpdate snap_info "string list"
  | CallMounts string | CallClose | CallRestart

fun exec :: "snapshotter \<Rightarrow> ('db, 'f) sn_env \<times> sn_call \<Rightarrow> ('db, 'f) sn_world \<Rightarrow> ('db, 'f) sn_world" where
  "exec o' (ev, CallPrepare ns key parent opts) w = fst (Prepare ev o' ns key parent opts w)"
| "exec o' (ev, CallView key parent opts) w = fst (View ev o' key parent opts w)"
| "exec o' (ev, CallCommit name key opts) w = fst (sn_Commit ev o' name key opts w)"
| "exec o' (ev, CallRemove key) w = fst (Remove ev o' key w)"
| "exec o' (ev, CallCleanup) w = fst (Cleanup ev o' w)"
| "exec o' (ev, CallUpdate info fps) w = fst (sn_Update ev info fps w)"
| "exec o' (ev, CallMounts key) w = fst (sn_Mounts ev o' key w)"
| "exec o' (ev, CallClose) w = sn_Close ev o' w"
| "exec o' (ev, CallRestart) w = fst (NewSnapshotter ev o' w)"

lemma exec_inv:
  assumes "env_ok b ms fs ok ev" and "world_inv b ms ok w"
  shows "world_inv b ms ok (exec o' (ev, c) w)"
  using commit_inv [OF assms] assms(2)
  by (cases c) (auto simp: sn_Commit_def sn_Mounts_def mounts_def Prepare_inv [OF assms] View_inv [OF assms] Remove_inv [OF assms]
    cleanup_inv [OF assms] unmount_all_inv [OF assms] sn_Update_inv [OF assms] NewSnapshotter_inv [OF assms] split: sum.splits)

end
