(* ===== verification/Snapshotter_Runs.thy ===== *)
theory Snapshotter_Runs
  imports Snapshotter_Inv
begin

text \<open>
  Properties of the snapshotter over sequences of calls, with a small metadata store that keeps the
  laws, on which every property is instantiated.
\<close>

section \<open>A metadata store\<close>

text \<open>The last number given and the snapshots by key, as containerd's store keeps them.\<close>

type_synonym store_entry = "string \<times> snap_info \<times> usage"

record list_db =
  ld_seq :: nat
  ld_entries :: "(string \<times> store_entry) list"

definition zero_usage :: usage where
  "zero_usage = \<lparr>us_Inodes = 0, us_Size = 0\<rparr>"

definition ls_GetInfo :: "string \<Rightarrow> list_db \<Rightarrow> sn_error + store_entry" where
  "ls_GetInfo k db = (case map_of (ld_entries db) k of None \<Rightarrow> Inl SnNotFound | Some v \<Rightarrow> Inr v)"

fun ls_parents :: "nat \<Rightarrow> string \<Rightarrow> list_db \<Rightarrow> string list" where
  "ls_parents 0 k db = []"
| "ls_parents (Suc n) k db =
     (case map_of (ld_entries db) k of None \<Rightarrow> [] | Some (i, info, u) \<Rightarrow> i # ls_parents n (in_Parent info) db)"

definition ls_Create :: "snap_kind \<Rightarrow> string \<Rightarrow> string \<Rightarrow> sn_opt list \<Rightarrow> list_db \<Rightarrow> sn_error + list_db \<times> st_snapshot" where
  "ls_Create kind key parent opts db =
     (if map_of (ld_entries db) key \<noteq> None then Inl SnAlreadyExists
      else if parent \<noteq> '''' \<and> map_of (ld_entries db) parent = None then Inl SnNotFound
      else bind_res (apply_opts opts \<lparr>in_Kind = kind, in_Name = key, in_Parent = parent, in_Labels = Map.empty\<rparr>) (\<lambda>info.
        let n = Suc (ld_seq db); i = nat_str n in
        Inr (\<lparr>ld_seq = n, ld_entries = (key, i, info, zero_usage) # ld_entries db\<rparr>,
             \<lparr>s_Kind = kind, s_ID = i, s_ParentIDs = ls_parents (length (ld_entries db)) parent db\<rparr>)))"

definition ls_Commit :: "string \<Rightarrow> string \<Rightarrow> usage \<Rightarrow> sn_opt list \<Rightarrow> list_db \<Rightarrow> sn_error + list_db" where
  "ls_Commit key name us opts db =
     (if map_of (ld_entries db) name \<noteq> None then Inl SnAlreadyExists
      else case map_of (ld_entries db) key of None \<Rightarrow> Inl SnNotFound
      | Some (i, info, u) \<Rightarrow>
          bind_res (apply_opts opts info) (\<lambda>info'.
            Inr (db\<lparr>ld_entries := (name, i, info'\<lparr>in_Kind := KindCommitted, in_Name := name\<rparr>, us) #
              filter (\<lambda>e. fst e \<noteq> key) (ld_entries db)\<rparr>)))"

definition ls_Remove :: "string \<Rightarrow> list_db \<Rightarrow> sn_error + list_db" where
  "ls_Remove key db =
     (if map_of (ld_entries db) key = None then Inl SnNotFound
      else if list_ex (\<lambda>(k, i, info, u). in_Parent info = key) (ld_entries db) then Inl (SnOther ''has children'')
      else Inr (db\<lparr>ld_entries := filter (\<lambda>e. fst e \<noteq> key) (ld_entries db)\<rparr>))"

definition ls_Update :: "snap_info \<Rightarrow> string list \<Rightarrow> list_db \<Rightarrow> sn_error + list_db \<times> snap_info" where
  "ls_Update info fps db =
     (case map_of (ld_entries db) (in_Name info) of None \<Rightarrow> Inl SnNotFound
      | Some (i, info0, u) \<Rightarrow>
          let info' = info0\<lparr>in_Labels := in_Labels info\<rparr> in
          Inr (db\<lparr>ld_entries := map (\<lambda>(k, j, inf, v). if k = in_Name info then (k, j, info', v) else (k, j, inf, v)) (ld_entries db)\<rparr>, info'))"

definition list_store :: "list_db meta_store" where
  "list_store = \<lparr>ms_GetInfo = ls_GetInfo,
     ms_GetSnapshot = (\<lambda>k db. bind_res (ls_GetInfo k db) (\<lambda>(i, info, u).
        Inr \<lparr>s_Kind = in_Kind info, s_ID = i, s_ParentIDs = ls_parents (length (ld_entries db)) (in_Parent info) db\<rparr>)),
     ms_CreateSnapshot = ls_Create, ms_CommitActive = ls_Commit, ms_Remove = ls_Remove, ms_UpdateInfo = ls_Update,
     ms_IDMap = (\<lambda>db. Inr (map_of (map (\<lambda>e. (fst (snd e), fst e)) (ld_entries db)))),
     ms_WalkInfo = (\<lambda>fs db. Inr (map (\<lambda>(k, i, info, u). info) (ld_entries db))),
     ms_WithLabels = (\<lambda>ls info. Inr (info\<lparr>in_Labels := in_Labels info ++ ls\<rparr>))\<rparr>"

lemma list_store_simps [simp]:
  "ms_GetInfo list_store = ls_GetInfo" "ms_CreateSnapshot list_store = ls_Create" "ms_CommitActive list_store = ls_Commit"
  "ms_Remove list_store = ls_Remove" "ms_UpdateInfo list_store = ls_Update"
  "ms_IDMap list_store db = Inr (map_of (map (\<lambda>e. (fst (snd e), fst e)) (ld_entries db)))"
  by (simp_all add: list_store_def)

definition list_db_ok :: "list_db \<Rightarrow> bool" where
  "list_db_ok db \<longleftrightarrow> distinct (map fst (ld_entries db)) \<and>
     (\<forall>e \<in> set (ld_entries db). \<exists>n \<le> ld_seq db. fst (snd e) = nat_str n)"

lemma live_list_store:
  assumes "list_db_ok db"
  shows "live list_store db = (\<lambda>e. fst (snd e)) ` set (ld_entries db)"
proof -
  have m: "map_of (ld_entries db) k = Some v \<longleftrightarrow> (k, v) \<in> set (ld_entries db)" for k v
    using assms by (auto simp: list_db_ok_def)
  have g: "ms_GetInfo list_store k db = Inr v \<longleftrightarrow> (k, v) \<in> set (ld_entries db)" for k v
    unfolding m [symmetric] by (simp add: ls_GetInfo_def split: option.split)
  show ?thesis
  proof (intro set_eqI iffI)
    fix i assume "i \<in> live list_store db"
    then obtain k info u where "(k, i, info, u) \<in> set (ld_entries db)" unfolding live_def g by blast
    then show "i \<in> (\<lambda>e. fst (snd e)) ` set (ld_entries db)" by (rule rev_image_eqI) simp
  next
    fix i assume "i \<in> (\<lambda>e. fst (snd e)) ` set (ld_entries db)"
    then obtain k v where "(k, v) \<in> set (ld_entries db)" "i = fst v" by auto
    then show "i \<in> live list_store db" unfolding live_def g by (cases v) auto
  qed
qed

lemma nat_str_digits: "list_all is_digit (nat_str n)"
proof (induction n rule: nat_str.induct)
  case (1 n)
  have d: "is_digit (char_of (48 + k))" if "k < 10" for k :: nat using that by (simp add: is_digit_def)
  show ?case using 1 d [of n] d [of "n mod 10"] by (subst nat_str.simps) simp
qed

lemma nat_str_eq [simp]: "nat_str m = nat_str n \<longleftrightarrow> m = n"
  by (metis str_val_nat_str)

lemma list_store_ids:
  assumes "list_db_ok db" and "i \<in> live list_store db"
  shows "\<exists>n \<le> ld_seq db. i = nat_str n"
  using assms(2) unfolding live_list_store [OF assms(1)] using assms(1) by (auto simp: list_db_ok_def)

lemma list_store_create:
  assumes o: "list_db_ok db" and c: "ls_Create kind key parent opts db = Inr (db', s)"
  shows "list_db_ok db' \<and> s_ID s \<notin> live list_store db \<and> live list_store db' = insert (s_ID s) (live list_store db)"
proof -
  have n: "map_of (ld_entries db) key = None" using c by (cases "map_of (ld_entries db) key") (simp_all add: ls_Create_def)
  obtain info where i: "map_of (ld_entries db) key = None" "s_ID s = nat_str (Suc (ld_seq db))"
      "db' = \<lparr>ld_seq = Suc (ld_seq db), ld_entries = (key, s_ID s, info, zero_usage) # ld_entries db\<rparr>"
    using c n by (auto simp: ls_Create_def bind_res_Inr_iff Let_def split: if_splits)
  have ok: "list_db_ok db'" using o i by (auto simp: list_db_ok_def map_of_eq_None_iff intro: le_SucI)
  have "s_ID s \<notin> live list_store db" using list_store_ids [OF o, of "s_ID s"] i(2) by auto
  moreover have "live list_store db' = insert (s_ID s) (live list_store db)"
    unfolding live_list_store [OF ok] live_list_store [OF o] by (simp add: i(3))
  ultimately show ?thesis using ok by simp
qed

lemma list_store_commit:
  assumes o: "list_db_ok db" and c: "ls_Commit key name us opts db = Inr db'"
  shows "list_db_ok db' \<and> live list_store db' = live list_store db"
proof -
  have n: "map_of (ld_entries db) name = None" using c by (cases "map_of (ld_entries db) name") (simp_all add: ls_Commit_def)
  obtain i info u where m: "map_of (ld_entries db) key = Some (i, info, u)"
    using c n by (cases "map_of (ld_entries db) key") (auto simp: ls_Commit_def)
  obtain info' where i: "map_of (ld_entries db) name = None" "map_of (ld_entries db) key = Some (i, info, u)"
      "db' = db\<lparr>ld_entries := (name, i, info', us) # filter (\<lambda>e. fst e \<noteq> key) (ld_entries db)\<rparr>"
    using c n m by (auto simp: ls_Commit_def bind_res_Inr_iff)
  have e: "(key, i, info, u) \<in> set (ld_entries db)" using map_of_SomeD [OF i(2)] .
  have ok: "list_db_ok db'" using o i e
    by (auto simp: list_db_ok_def map_of_eq_None_iff distinct_map_filter)
  have "x = (key, i, info, u)" if "x \<in> set (ld_entries db)" "fst x = key" for x
  proof -
    have "(key, snd x) \<in> set (ld_entries db)" using that by (metis prod.collapse)
    moreover have "distinct (map fst (ld_entries db))" using o by (simp add: list_db_ok_def)
    ultimately have "snd x = (i, info, u)" using eq_key_imp_eq_value [OF _ _ e] by blast
    then show ?thesis using that(2) by (cases x) simp
  qed
  then have S: "set (ld_entries db) = insert (key, i, info, u) {x \<in> set (ld_entries db). fst x \<noteq> key}" using e by blast
  have "(\<lambda>e. fst (snd e)) ` set (ld_entries db) = insert i ((\<lambda>e. fst (snd e)) ` {x \<in> set (ld_entries db). fst x \<noteq> key})"
    by (subst S) (simp only: image_insert fst_conv snd_conv)
  then have "live list_store db' = live list_store db"
    unfolding live_list_store [OF ok] live_list_store [OF o] by (simp add: i(3))
  then show ?thesis using ok by simp
qed

lemma list_store_remove:
  assumes o: "list_db_ok db" and c: "ls_Remove key db = Inr db'"
  shows "list_db_ok db' \<and> live list_store db' \<subseteq> live list_store db"
proof -
  have i: "db' = db\<lparr>ld_entries := filter (\<lambda>e. fst e \<noteq> key) (ld_entries db)\<rparr>" using c by (simp add: ls_Remove_def split: if_splits)
  have ok: "list_db_ok db'" using o i by (auto simp: list_db_ok_def distinct_map_filter)
  moreover have "live list_store db' \<subseteq> live list_store db"
    unfolding live_list_store [OF ok] live_list_store [OF o] using i by auto
  ultimately show ?thesis by simp
qed

lemma list_store_update:
  assumes o: "list_db_ok db" and c: "ls_Update info fps db = Inr (db', info')"
  shows "list_db_ok db' \<and> live list_store db' = live list_store db"
proof -
  define f :: "string \<times> store_entry \<Rightarrow> string \<times> store_entry" where
    "f = (\<lambda>(k, j, inf, v). if k = in_Name info then (k, j, info', v) else (k, j, inf, v))"
  have i: "db' = db\<lparr>ld_entries := map f (ld_entries db)\<rparr>" using c by (auto simp: ls_Update_def Let_def f_def split: option.splits)
  have f: "fst (f x) = fst x" "fst (snd (f x)) = fst (snd x)" for x :: "string \<times> store_entry" by (auto simp: f_def split: prod.splits)
  have k: "fst \<circ> f = fst" by (simp add: fun_eq_iff f(1))
  have ok: "list_db_ok db'" unfolding list_db_ok_def i using o by (simp add: list_db_ok_def k f(2))
  moreover have "live list_store db' = live list_store db"
    unfolding live_list_store [OF ok] live_list_store [OF o] by (simp add: i image_image f(2))
  ultimately show ?thesis by simp
qed

lemma list_store_laws: "store_laws list_store list_db_ok"
proof -
  have 1: "dom ids = live list_store db" if o: "list_db_ok db" and "ms_IDMap list_store db = Inr ids" for db ids
  proof -
    have ids: "ids = map_of (map (\<lambda>e. (fst (snd e), fst e)) (ld_entries db))" using that(2) by simp
    show ?thesis unfolding live_list_store [OF o] ids by (simp add: dom_map_of_conv_image_fst image_image)
  qed
  have 2: "plain_id i" if "list_db_ok db" "i \<in> live list_store db" for db i
    using list_store_ids [OF that] nat_str_digits by (auto simp: plain_id_def)
  have 3: "list_db_ok db' \<and> s_ID s \<notin> live list_store db \<and> live list_store db' = insert (s_ID s) (live list_store db)"
    if "list_db_ok db" "ms_CreateSnapshot list_store kind key parent opts db = Inr (db', s)" for db kind key parent opts db' s
    by (rule list_store_create [OF that(1)]) (use that(2) in simp)
  have 4: "list_db_ok db' \<and> live list_store db' = live list_store db"
    if "list_db_ok db" "ms_CommitActive list_store key name u opts db = Inr db'" for db key name u opts db'
    by (rule list_store_commit [OF that(1)]) (use that(2) in simp)
  have 5: "list_db_ok db' \<and> live list_store db' \<subseteq> live list_store db"
    if "list_db_ok db" "ms_Remove list_store key db = Inr db'" for db key db'
    by (rule list_store_remove [OF that(1)]) (use that(2) in simp)
  have 6: "list_db_ok db' \<and> live list_store db' = live list_store db"
    if "list_db_ok db" "ms_UpdateInfo list_store info fps db = Inr (db', info')" for db info fps db' info'
    by (rule list_store_update [OF that(1)]) (use that(2) in simp)
  show ?thesis
    unfolding store_laws_def
    by (rule conjI, (intro allI impI, rule 1, assumption+), rule conjI, (intro allI impI, rule 2, assumption+),
      rule conjI, (intro allI impI, rule 3, assumption+), rule conjI, (intro allI impI, rule 4, assumption+),
      rule conjI, (intro allI impI, rule 5, assumption+), intro allI impI, rule 6, assumption+)
qed

text \<open>A file system that mounts what it is asked to, and an environment in which every call works.\<close>

definition plain_fs :: "'f file_system" where
  "plain_fs = \<lparr>fs_Mount = (\<lambda>mp ls h. (h\<lparr>h_mounts := mp # h_mounts h\<rparr>, None)), fs_Check = (\<lambda>mp ls h. None),
     fs_Unmount = (\<lambda>mp h. (h\<lparr>h_mounts := removeAll mp (h_mounts h)\<rparr>, None)),
     fs_MountLocal = (\<lambda>mp ls ms h. (h, None)), fs_MountParallel = (\<lambda>mp ls ms h. (h, None)),
     fs_IDMapMount = (\<lambda>mp i idmap h. (h, None)), fs_IDMapMountLocal = (\<lambda>mp i idmap h. (h, None)),
     fs_CleanImage = (\<lambda>d h. (h, None))\<rparr>"

lemma plain_fs_laws: "fs_laws b plain_fs"
  by (auto simp: fs_laws_def plain_fs_def intro!: same_dirs_keep)

definition good_env :: "(list_db, unit) sn_env" where
  "good_env = \<lparr>ev_ms = list_store, ev_fs = plain_fs, ev_begin = True, ev_commit = (\<lambda>db. True),
     ev_TempName = (\<lambda>ds. Some ''1''), ev_Mkdir = (\<lambda>d. True), ev_Stat = (\<lambda>d. True), ev_Lchown = (\<lambda>d. True),
     ev_Rename = (\<lambda>a b. True), ev_RemoveAll = (\<lambda>d. None), ev_Mounted = (\<lambda>d. True), ev_Readdir = True,
     ev_DiskUsage = (\<lambda>d. Some zero_usage), ev_GetMounts = True, ev_Unmount = (\<lambda>m. True),
     ev_RemapRootFS = (\<lambda>ms i. True), ev_RemapRoot = (\<lambda>d i. True)\<rparr>"

definition sample_sn :: snapshotter where
  "sample_sn = \<lparr>sn_root = ''/r'', sn_asyncRemove = False, sn_userxattr = False, sn_minLayerSize = 0,
     sn_allowInvalidMountsOnRestart = False, sn_parallelPullUnpack = False, sn_parallelPullAsFallback = False\<rparr>"

definition empty_world :: "(list_db, unit) sn_world" where
  "empty_world = \<lparr>w_db = \<lparr>ld_seq = 0, ld_entries = []\<rparr>, w_writer = False,
     w_host = \<lparr>h_dirs = [], h_mounts = [], h_fs = ()\<rparr>, w_idmapped = {}\<rparr>"

lemma empty_world_ok [simp]: "list_db_ok (w_db empty_world)" "live list_store (w_db empty_world) = {}"
  by (simp_all add: empty_world_def list_db_ok_def live_def ls_GetInfo_def)

lemma good_env_simps [simp]: "ev_ms good_env = list_store" "ev_fs good_env = plain_fs"
  by (simp_all add: good_env_def)

section \<open>Every snapshot keeps its directory\<close>

lemma fold_exec_inv:
  assumes "store_laws ms ok" and "\<forall>c \<in> set run. ev_ms (fst c) = ms \<and> fs_laws b (ev_fs (fst c))" and "world_inv b ms ok w"
  shows "world_inv b ms ok (fold (exec o') run w)"
  using assms(2,3)
proof (induction run arbitrary: w)
  case (Cons c run)
  obtain ev k where c: "c = (ev, k)" by fastforce
  have "env_ok b ms (ev_fs ev) ok ev" using Cons.prems(1) assms(1) c by (simp add: env_ok_def)
  from exec_inv [OF this Cons.prems(2), of o' k] Cons show ?case by (simp add: c)
qed simp

definition sample_run :: "((list_db, unit) sn_env \<times> sn_call) list" where
  "sample_run = [(good_env, CallPrepare None ''a'' '''' []), (good_env\<lparr>ev_Rename := \<lambda>a b. False\<rparr>, CallPrepare None ''b'' '''' []),
     (good_env, CallCleanup)]"

lemma nat_str_1: "nat_str 1 = ''1''" "nat_str (Suc 0) = ''1''" "nat_str 2 = ''2''"
  by code_simp+

lemmas sn_eval = Prepare_def createSnapshot_def create_tx_def prepareDirectory_def place_snapshot_def chown_parent_def rename_dir_def
  create_cleanup_def cleanupSnapshotDirectory_def unmountSnapshotDirectory_def remove_all_def setupIDMap_def LoadIDMap_def
  mounts_def checkAvailability_def find_dir_def has_fs_def put_dir_def drop_dir_def Cleanup_def cleanup_def cleanupDirectories_def
  getCleanupDirectories_def cleanup_id_def zero_info_def idmap_Empty_def

lemmas sn_sample = good_env_def plain_fs_def sample_sn_def empty_world_def list_store_def ls_Create_def ls_GetInfo_def label_defs

section \<open>Cleaning up\<close>

lemma cleanup_dir_removes:
  assumes "ev_RemoveAll ev = (\<lambda>d. None)" and "\<And>d. ev_Mounted ev d" and "\<And>mp h. snd (fs_Unmount (ev_fs ev) mp h) = None"
    and "\<And>mp h. h_dirs (fst (fs_Unmount (ev_fs ev) mp h)) = h_dirs h"
  shows "find_dir (fst (cleanupSnapshotDirectory ev o' d h)) e = (if e = d then None else find_dir h e)"
proof -
  obtain h1 r where u: "unmountSnapshotDirectory ev o' d h = (h1, r)" by fastforce
  have "r = None \<and> h_dirs h1 = h_dirs h"
    using u assms(2) assms(3,4) [of "upperPath o' d" h] by (auto simp: unmountSnapshotDirectory_def split: if_splits)
  then have "r = None" "\<And>x. find_dir h1 x = find_dir h x" by (simp_all add: find_dir_def)
  then show ?thesis using u by (auto simp: cleanupSnapshotDirectory_def remove_all_def assms(1) split: option.splits)
qed

lemma for_dirs_removes:
  assumes "\<And>d h e. find_dir (fst (f d h)) e = (if e = d then None else find_dir h e)"
  shows "find_dir (for_dirs f ds h) e = (if e \<in> set ds then None else find_dir h e)"
  using assms by (induction ds arbitrary: h) auto

text \<open>The names that the snapshotter gives: an ID, or a layer and the ID of the container that it is mapped for.\<close>

lemma split_on_plain: "c \<notin> set d \<Longrightarrow> split_on c d = [d]"
  by (induction d) auto

lemma split_on_two: "c \<notin> set l \<Longrightarrow> c \<notin> set i \<Longrightarrow> split_on c (l @ c # i) = [l, i]"
  by (induction l) (auto simp: split_on_plain)

lemma cleanup_id_names:
  "CHR ''_'' \<notin> set d \<Longrightarrow> cleanup_id d = d"
  "CHR ''_'' \<notin> set l \<Longrightarrow> CHR ''_'' \<notin> set i \<Longrightarrow> cleanup_id (l @ ''_'' @ i) = i"
  using split_on_plain [of "CHR ''_''" d] split_on_two [of "CHR ''_''" l i] by (simp_all add: cleanup_id_def)

lemma Cleanup_dirs:
  assumes "store_laws (ev_ms ev) ok" and "ok (w_db w)" and "\<not> w_writer w" and "ev_begin ev" and "ev_Readdir ev"
    and "ms_IDMap (ev_ms ev) (w_db w) = Inr ids"
    and "ev_RemoveAll ev = (\<lambda>d. None)" and "\<And>d. ev_Mounted ev d"
    and "\<And>mp h. snd (fs_Unmount (ev_fs ev) mp h) = None" and "\<And>mp h. h_dirs (fst (fs_Unmount (ev_fs ev) mp h)) = h_dirs h"
  shows "\<exists>w'. Cleanup ev o' w = (w', Inr ()) \<and> w_db w' = w_db w \<and>
    (\<forall>d. find_dir (w_host w') d =
       (if cleanup_id d \<in> live (ev_ms ev) (w_db w) then find_dir (w_host w) d else None))"
proof -
  obtain ds where ds: "getCleanupDirectories ev False (w_db w) (w_host w) = Inr ds"
    using assms(5,6) by (simp add: getCleanupDirectories_def)
  have "find_dir (for_dirs (cleanupSnapshotDirectory ev o') ds (w_host w)) d =
      (if cleanup_id d \<in> live (ev_ms ev) (w_db w) then find_dir (w_host w) d else None)" for d
    using for_dirs_removes [where f = "cleanupSnapshotDirectory ev o'", OF cleanup_dir_removes [OF assms(7-10)], of ds "w_host w" d]
      getCleanupDirectories_iff [OF assms(1) refl assms(2) ds, of d]
    by auto
  then show ?thesis using ds assms(3,4) by (simp add: Cleanup_def cleanup_def cleanupDirectories_def)
qed

text \<open>
  C25: when the calls it makes work, \<^verbatim>\<open>Cleanup\<close> leaves exactly the directories of existing snapshots: a directory
  named after an ID stays if a snapshot has that ID, and that of an id-mapped layer, named after the layer and the
  container separated by an underscore, stays if a snapshot has the ID of the container.
\<close>

theorem Cleanup_exact:
  assumes "store_laws (ev_ms ev) ok" and "ok (w_db w)" and "\<not> w_writer w" and "ev_begin ev" and "ev_Readdir ev"
    and "ms_IDMap (ev_ms ev) (w_db w) = Inr ids"
    and "ev_RemoveAll ev = (\<lambda>d. None)" and "\<And>d. ev_Mounted ev d"
    and "\<And>mp h. snd (fs_Unmount (ev_fs ev) mp h) = None" and "\<And>mp h. h_dirs (fst (fs_Unmount (ev_fs ev) mp h)) = h_dirs h"
  shows "\<exists>w'. Cleanup ev o' w = (w', Inr ()) \<and> w_db w' = w_db w \<and>
    (\<forall>d. CHR ''_'' \<notin> set d \<longrightarrow>
       find_dir (w_host w') d = (if d \<in> live (ev_ms ev) (w_db w) then find_dir (w_host w) d else None)) \<and>
    (\<forall>layer container. CHR ''_'' \<notin> set layer \<and> CHR ''_'' \<notin> set container \<longrightarrow>
       find_dir (w_host w') (layer @ ''_'' @ container) =
         (if container \<in> live (ev_ms ev) (w_db w) then find_dir (w_host w) (layer @ ''_'' @ container) else None))"
proof -
  obtain w' where w': "Cleanup ev o' w = (w', Inr ())" "w_db w' = w_db w"
    "\<And>d. find_dir (w_host w') d = (if cleanup_id d \<in> live (ev_ms ev) (w_db w) then find_dir (w_host w) d else None)"
    using Cleanup_dirs [OF assms] by blast
  have "find_dir (w_host w') d = (if d \<in> live (ev_ms ev) (w_db w) then find_dir (w_host w) d else None)" if "CHR ''_'' \<notin> set d" for d
    using w'(3) [of d] unfolding cleanup_id_names(1) [OF that] .
  moreover have "find_dir (w_host w') (l @ ''_'' @ i) = (if i \<in> live (ev_ms ev) (w_db w) then find_dir (w_host w) (l @ ''_'' @ i) else None)"
    if "CHR ''_'' \<notin> set l" "CHR ''_'' \<notin> set i" for l i
    using w'(3) [of "l @ ''_'' @ i"] unfolding cleanup_id_names(2) [OF that] .
  ultimately show ?thesis using w'(1,2) by blast
qed

definition littered_world :: "(list_db, unit) sn_world" where
  "littered_world = \<lparr>w_db = \<lparr>ld_seq = 2, ld_entries = [(''a'', ''2'', zero_info, zero_usage)]\<rparr>, w_writer = False,
     w_host = \<lparr>h_dirs = map (\<lambda>d. (d, \<lparr>sd_fs = True, sd_work = True, sd_owner = (0, 0)\<rparr>)) [''2'', ''1'', ''1_2'', ''2_1'', ''new-7''],
       h_mounts = [''/r/snapshots/1/fs''], h_fs = ()\<rparr>, w_idmapped = {}\<rparr>"

lemma littered_ok: "list_db_ok (w_db littered_world)" "live list_store (w_db littered_world) = {''2''}"
proof -
  show ok: "list_db_ok (w_db littered_world)"
    using nat_str_1(3) by (auto simp: littered_world_def list_db_ok_def intro!: exI [of _ 2])
  show "live list_store (w_db littered_world) = {''2''}"
    unfolding live_list_store [OF ok] by (simp add: littered_world_def)
qed

theorem Cleanup_exact_witness:
  "\<exists>w'. Cleanup good_env sample_sn littered_world = (w', Inr ()) \<and> find_dir (w_host w') ''1'' = None \<and>
     find_dir (w_host w') ''2_1'' = None \<and> find_dir (w_host w') ''new-7'' = None \<and>
     find_dir (w_host w') ''2'' = find_dir (w_host littered_world) ''2'' \<and>
     find_dir (w_host w') ''1_2'' = find_dir (w_host littered_world) ''1_2''"
proof -
  have "\<exists>w'. Cleanup good_env sample_sn littered_world = (w', Inr ()) \<and> w_db w' = w_db littered_world \<and>
    (\<forall>d. CHR ''_'' \<notin> set d \<longrightarrow>
       find_dir (w_host w') d = (if d \<in> live (ev_ms good_env) (w_db littered_world) then find_dir (w_host littered_world) d else None)) \<and>
    (\<forall>layer container. CHR ''_'' \<notin> set layer \<and> CHR ''_'' \<notin> set container \<longrightarrow>
       find_dir (w_host w') (layer @ ''_'' @ container) =
         (if container \<in> live (ev_ms good_env) (w_db littered_world) then find_dir (w_host littered_world) (layer @ ''_'' @ container) else None))"
    by (rule Cleanup_exact [where ok = list_db_ok])
      (simp_all add: list_store_laws littered_ok, simp_all add: good_env_def littered_world_def plain_fs_def)
  then obtain w' where w': "Cleanup good_env sample_sn littered_world = (w', Inr ())"
    and p: "\<And>d. CHR ''_'' \<notin> set d \<Longrightarrow> find_dir (w_host w') d = (if d \<in> {''2''} then find_dir (w_host littered_world) d else None)"
    and q: "\<And>l i. CHR ''_'' \<notin> set l \<Longrightarrow> CHR ''_'' \<notin> set i \<Longrightarrow> find_dir (w_host w') (l @ ''_'' @ i) =
      (if i \<in> {''2''} then find_dir (w_host littered_world) (l @ ''_'' @ i) else None)"
    unfolding good_env_simps littered_ok by blast
  show ?thesis
    using w' p [of "''1''"] p [of "''2''"] p [of "''new-7''"] q [of "''2''" "''1''"] q [of "''1''" "''2''"] by auto
qed

section \<open>A transaction that is never ended\<close>

lemma createSnapshot_blocked: "w_writer w \<Longrightarrow> createSnapshot ev o' kind key parent opts w = (w, Inl Blocked)"
  by (simp add: createSnapshot_def)

lemma exec_blocked:
  assumes "w_writer w" and "c \<noteq> CallRestart"
  shows "exec o' (ev, c) w = w"
  using assms
  by (cases c) (auto simp: Prepare_def View_def createSnapshot_def sn_Commit_def commit_def Remove_def Cleanup_def cleanup_def
    cleanupDirectories_def sn_Update_def sn_Mounts_def mounts_def sn_Close_def unmountAllSnapshots_def split: sum.splits)

lemma fold_blocked:
  assumes "w_writer w" and "\<forall>c \<in> set run. snd c \<noteq> CallRestart"
  shows "fold (exec o') run w = w"
  using assms by (induction run) (auto simp: exec_blocked)

text \<open>
  C36: when the disk usage of a snapshot cannot be read, \<^verbatim>\<open>commit\<close> returns the error and leaves its
  write transaction open. From then on every call that creates, commits, removes or cleans up waits
  forever, and closing the snapshotter unmounts nothing, until the process is restarted.
\<close>

theorem failed_usage_blocks:
  assumes "\<not> w_writer w" and "ev_begin ev" and "ms_GetInfo (ev_ms ev) key (w_db w) = Inr (i, info, u)"
    and "ev_DiskUsage ev (upperPath o' i) = None" and "sn_Commit ev o' name key opts w = (w1, r)"
    and "\<forall>c \<in> set run. snd c \<noteq> CallRestart" and "w' = fold (exec o') run w1"
  shows "r = Inl (OsFailed ''diskusage'') \<and> snd (Prepare ev' o' ns k p opts' w') = Inl Blocked \<and>
    snd (View ev' o' k p opts' w') = Inl Blocked \<and> snd (sn_Commit ev' o' n k opts' w') = Inl Blocked \<and>
    snd (Remove ev' o' k w') = Inl Blocked \<and> snd (Cleanup ev' o' w') = Inl Blocked \<and> sn_Close ev' o' w' = w'"
proof -
  have c: "w1 = w\<lparr>w_writer := True\<rparr>" "r = Inl (OsFailed ''diskusage'')" using assms(1-5) by (auto simp: sn_Commit_def commit_def)
  then have "w' = w1" "w_writer w'" using fold_blocked [OF _ assms(6)] assms(7) by auto
  then show ?thesis using c(2)
    by (simp add: Prepare_def View_def createSnapshot_blocked sn_Commit_def commit_def Remove_def Cleanup_def cleanup_def
      cleanupDirectories_def sn_Close_def unmountAllSnapshots_def)
qed

theorem failed_usage_blocks_witness:
  "snd (Cleanup good_env sample_sn (fold (exec sample_sn) [(good_env, CallRemove ''a'')]
      (fst (sn_Commit (good_env\<lparr>ev_DiskUsage := \<lambda>d. None\<rparr>) sample_sn ''c'' ''a'' [] littered_world)))) = Inl Blocked"
proof -
  let ?ev = "good_env\<lparr>ev_DiskUsage := \<lambda>d. None\<rparr>"
  obtain w1 r where c: "sn_Commit ?ev sample_sn ''c'' ''a'' [] littered_world = (w1, r)" by fastforce
  have "\<not> w_writer littered_world" "ev_begin ?ev" "ms_GetInfo (ev_ms ?ev) ''a'' (w_db littered_world) = Inr (''2'', zero_info, zero_usage)"
    "ev_DiskUsage ?ev (upperPath sample_sn ''2'') = None" "\<forall>c \<in> set [(good_env, CallRemove ''a'')]. snd c \<noteq> CallRestart"
    by (simp_all add: littered_world_def good_env_def list_store_def ls_GetInfo_def)
  from failed_usage_blocks [OF this(1-4) c this(5) refl] show ?thesis using c by simp
qed

section \<open>Cleaning up after the transaction\<close>

lemma create_tx_failed:
  assumes "create_tx ev kind key parent opts db h = (h', db', td, Some p, Inl e)"
  shows "db' = db \<and> (\<exists>db1 s. ms_CreateSnapshot (ev_ms ev) kind key parent opts db = Inr (db1, s) \<and> p = s_ID s)"
  using assms by (auto simp: create_tx_def place_snapshot_def split: prod.splits sum.splits option.splits if_splits)

lemma rename_dir_target: "rename_dir ev td path h = (h', None) \<Longrightarrow> find_dir h' path \<noteq> None"
  by (auto simp: rename_dir_def split: option.splits if_splits)

lemma createSnapshot_dir:
  assumes "createSnapshot ev o' kind key parent opts w = (w', Inr s)"
  shows "(\<exists>db'. ms_CreateSnapshot (ev_ms ev) kind key parent opts (w_db w) = Inr (db', s)) \<and> find_dir (w_host w') (s_ID s) \<noteq> None"
proof -
  obtain h db td path r where c: "create_tx ev kind key parent opts (w_db w) (w_host w) = (h, db, td, path, r)" by (metis prod_cases5)
  have r: "r = Inr s" "w_host w' = h"
    using assms c by (auto simp: createSnapshot_def create_cleanup_def Let_def split: if_splits sum.splits option.splits prod.splits)
  then show ?thesis using c rename_dir_target
    by (auto simp: create_tx_def place_snapshot_def split: prod.splits sum.splits option.splits if_splits) blast+
qed

text \<open>
  C37: a \<^verbatim>\<open>createSnapshot\<close> whose rename failed rolls its transaction back before it removes what it
  calls \<^verbatim>\<open>path\<close>. If another call creates a snapshot in between, the store gives it the same ID, and
  the first call removes the directory of the new snapshot.
\<close>

theorem failed_create_removes_other:
  assumes "\<And>kind key parent opts db' s. ms_CreateSnapshot ms kind key parent opts db = Inr (db', s) \<Longrightarrow> s_ID s = next_id"
    and "ev_ms ev = ms" and "create_tx ev kind key parent opts db h = (h1, db1, td, Some p, Inl e)"
    and "ev_ms ev2 = ms" and "createSnapshot ev2 o' kind2 key2 parent2 opts2 (w\<lparr>w_db := db1, w_host := h1\<rparr>) = (w2, Inr s)"
    and "ev_RemoveAll ev = (\<lambda>d. None)" and "\<And>d. ev_Mounted ev d"
    and "\<And>mp h. snd (fs_Unmount (ev_fs ev) mp h) = None" and "\<And>mp h. h_dirs (fst (fs_Unmount (ev_fs ev) mp h)) = h_dirs h"
  shows "s_ID s = p \<and> find_dir (w_host w2) p \<noteq> None \<and>
    find_dir (fst (create_cleanup ev o' td (Some p) (Inl e) (w_host w2))) p = None"
proof -
  from create_tx_failed [OF assms(3)] have 1: "db1 = db" "p = next_id" using assms(1,2) by auto
  from createSnapshot_dir [OF assms(5)] have 2: "s_ID s = next_id" "find_dir (w_host w2) (s_ID s) \<noteq> None"
    using assms(1,4) 1(1) by auto
  have "find_dir (fst (create_cleanup ev o' td (Some p) (Inl e) g)) p = None" for g
    using cleanup_dir_removes [OF assms(6-9), of o' p "case td of None \<Rightarrow> g | Some d \<Rightarrow> fst (cleanupSnapshotDirectory ev o' d g)" p]
    by (auto simp: create_cleanup_def Let_def split: prod.splits option.splits)
  then show ?thesis using 1 2 by auto
qed

theorem failed_create_removes_other_witness:
  "\<exists>h1 td e w2 s. create_tx (good_env\<lparr>ev_Rename := \<lambda>a b. False\<rparr>) KindActive ''a'' '''' [] (w_db empty_world) (w_host empty_world) =
       (h1, w_db empty_world, td, Some ''1'', Inl e) \<and>
     createSnapshot (good_env\<lparr>ev_TempName := \<lambda>ds. Some ''2''\<rparr>) sample_sn KindActive ''b'' '''' []
       (empty_world\<lparr>w_db := w_db empty_world, w_host := h1\<rparr>) = (w2, Inr s) \<and>
     find_dir (w_host w2) ''1'' \<noteq> None \<and>
     find_dir (fst (create_cleanup (good_env\<lparr>ev_Rename := \<lambda>a b. False\<rparr>) sample_sn td (Some ''1'') (Inl e) (w_host w2))) ''1'' = None"
proof -
  let ?ev = "good_env\<lparr>ev_Rename := \<lambda>a b. False\<rparr>" and ?ev2 = "good_env\<lparr>ev_TempName := \<lambda>ds. Some ''2''\<rparr>"
  have n: "s_ID s = ''1''" if "ms_CreateSnapshot list_store kind key parent opts (w_db empty_world) = Inr (db', s)" for kind key parent opts db' s
    using that by (auto simp: ls_Create_def empty_world_def Let_def nat_str_1 bind_res_Inr_iff split: if_splits)
  obtain h1 td e where 1: "create_tx ?ev KindActive ''a'' '''' [] (w_db empty_world) (w_host empty_world) =
      (h1, w_db empty_world, td, Some ''1'', Inl e)" and h1: "h_dirs h1 = [(''new-1'', \<lparr>sd_fs = True, sd_work = True, sd_owner = (0, 0)\<rparr>)]"
    by (simp add: sn_eval sn_sample nat_str_1 Let_def)
  obtain w2 s where 2: "createSnapshot ?ev2 sample_sn KindActive ''b'' '''' [] (empty_world\<lparr>w_db := w_db empty_world, w_host := h1\<rparr>) = (w2, Inr s)"
    using h1 by (simp add: sn_eval sn_sample nat_str_1 Let_def)
  have e: "ev_ms ?ev = list_store" "ev_ms ?ev2 = list_store" "ev_RemoveAll ?ev = (\<lambda>d. None)" "\<And>d. ev_Mounted ?ev d"
    "\<And>mp h. snd (fs_Unmount (ev_fs ?ev) mp h) = None" "\<And>mp h. h_dirs (fst (fs_Unmount (ev_fs ?ev) mp h)) = h_dirs h"
    by (simp_all add: good_env_def plain_fs_def)
  have "s_ID s = ''1'' \<and> find_dir (w_host w2) ''1'' \<noteq> None \<and>
      find_dir (fst (create_cleanup ?ev sample_sn td (Some ''1'') (Inl e) (w_host w2))) ''1'' = None"
    by (rule failed_create_removes_other [where next_id = "''1''", OF _ e(1) 1 e(2) 2 e(3-6)]) (rule n)
  with 1 2 show ?thesis by blast
qed

section \<open>Id-mapped layers and restarts\<close>

lemma restore_db:
  "w_db (fst (on_host f w)) = w_db w \<and> w_idmapped (fst (on_host f w)) = w_idmapped w"
  "w_db (fst (restore_snapshot ev o' info w)) = w_db w \<and> w_idmapped (fst (restore_snapshot ev o' info w)) = w_idmapped w"
proof -
  show h: "w_db (fst (on_host f w)) = w_db w \<and> w_idmapped (fst (on_host f w)) = w_idmapped w" for f and w :: "('a, 'b) sn_world"
    by (auto simp: on_host_def split: prod.splits option.splits)
  have p: "w_db (fst (prepareRemoteSnapshot ev o' key ls v)) = w_db v \<and> w_idmapped (fst (prepareRemoteSnapshot ev o' key ls v)) = w_idmapped v"
    for key ls v using h by (auto simp: prepareRemoteSnapshot_def prepare_with_def split: sum.splits)
  have 1: "w_db v' = w_db v \<and> w_idmapped v' = w_idmapped v" if "on_host g v = (v', r)" for g r and v v' :: "('a, 'b) sn_world"
    using h [of g v] that by simp
  have 2: "w_db v' = w_db v \<and> w_idmapped v' = w_idmapped v" if "prepareRemoteSnapshot ev o' key ls v = (v', r)" for key ls v v' r
    using p [of key ls v] that by simp
  show "w_db (fst (restore_snapshot ev o' info w)) = w_db w \<and> w_idmapped (fst (restore_snapshot ev o' info w)) = w_idmapped w"
    by (auto simp: restore_snapshot_def and_then_def dest!: 1 2 split: sum.splits prod.splits)
qed

lemma restore_all_db:
  "w_db (fst (restore_all ev o' ts w)) = w_db w \<and> w_idmapped (fst (restore_all ev o' ts w)) = w_idmapped w"
proof (induction ts arbitrary: w)
  case (Cons t ts)
  obtain w1 r where r: "restore_snapshot ev o' t w = (w1, r)" by fastforce
  then have "w_db w1 = w_db w \<and> w_idmapped w1 = w_idmapped w" using restore_db(2) [of ev o' t w] by simp
  then show ?case using Cons.IH [of w1] r by (cases r) auto
qed simp

lemma NewSnapshotter_db:
  assumes "NewSnapshotter ev o' w = (w', r)"
  shows "w_db w' = w_db w" and "w_idmapped w' = {}"
proof -
  have 1: "w_db v' = w_db v \<and> w_idmapped v' = w_idmapped v" if "on_host g v = (v', r)" for g r and v v' :: "('a, 'b) sn_world"
    using restore_db(1) [of g v] that by simp
  have 2: "w_db v' = w_db v \<and> w_idmapped v' = w_idmapped v" if "restore_all ev o' ts v = (v', r)" for ts v v' r
    using restore_all_db [of ev o' ts v] that by simp
  have "w_db w' = w_db w \<and> w_idmapped w' = {}"
    using assms by (auto simp: NewSnapshotter_def restoreRemoteSnapshot_def and_then_def dest!: 1 2 split: if_splits sum.splits prod.splits)
  then show "w_db w' = w_db w" "w_idmapped w' = {}" by simp_all
qed

definition lowerdir :: "snapshotter \<Rightarrow> string list \<Rightarrow> string" where
  "lowerdir o' ds = ''lowerdir='' @ join_with CHR '':'' (map (upperPath o') ds)"

lemma sn_Mounts_lower:
  assumes "ev_begin ev" and "ms_GetSnapshot (ev_ms ev) key (w_db w) = Inr s" and "s_Kind s = KindActive" and "s_ParentIDs s \<noteq> []"
    and "key \<noteq> ''''" and "checkAvailability ev o' key (w_db w) (w_host w) = Some True"
  shows "\<exists>m. sn_Mounts ev o' key w = (w, Inr [m]) \<and>
    lowerdir o' (map (\<lambda>i. if s_ID s \<in> w_idmapped w then i @ ''_'' @ s_ID s else i) (s_ParentIDs s)) \<in> set (m_Options m)"
  using assms by (simp add: sn_Mounts_def mounts_def lowerdir_def getParentPaths_def o_def)

text \<open>
  C38: a container whose layers are id-mapped mounts the id-mapped copies until the snapshotter is
  restarted. The set of such containers is in memory only, so after the restart \<^verbatim>\<open>Mounts\<close> gives the
  layers with the owners of the image.
\<close>

theorem idmapped_lost_on_restart:
  assumes "s_ID s \<in> w_idmapped w" and "s_Kind s = KindActive" and "s_ParentIDs s \<noteq> []" and "key \<noteq> ''''"
    and "ev_begin ev" and "ms_GetSnapshot (ev_ms ev) key (w_db w) = Inr s" and "checkAvailability ev o' key (w_db w) (w_host w) = Some True"
    and "NewSnapshotter ev' o' w = (w', Inr ())" and "checkAvailability ev o' key (w_db w') (w_host w') = Some True"
  shows "\<exists>m m'. sn_Mounts ev o' key w = (w, Inr [m]) \<and> lowerdir o' (map (\<lambda>i. i @ ''_'' @ s_ID s) (s_ParentIDs s)) \<in> set (m_Options m) \<and>
    sn_Mounts ev o' key w' = (w', Inr [m']) \<and> lowerdir o' (s_ParentIDs s) \<in> set (m_Options m')"
proof -
  note D = NewSnapshotter_db [OF assms(8)]
  have "ms_GetSnapshot (ev_ms ev) key (w_db w') = Inr s" using assms(6) D(1) by simp
  from sn_Mounts_lower [OF assms(5) this assms(2,3,4,9)] sn_Mounts_lower [OF assms(5,6,2,3,4,7)] show ?thesis
    using assms(1) D(2) by simp
qed

definition mapped_world :: "(list_db, unit) sn_world" where
  "mapped_world = littered_world\<lparr>w_idmapped := {''2''}, w_host := (w_host littered_world)\<lparr>h_mounts := []\<rparr>,
     w_db := \<lparr>ld_seq = 2, ld_entries = [(''c'', ''2'', zero_info\<lparr>in_Kind := KindActive, in_Parent := ''l''\<rparr>, zero_usage),
       (''l'', ''1'', zero_info, zero_usage)]\<rparr>\<rparr>"

theorem idmapped_lost_on_restart_witness:
  "\<exists>m m' w'. NewSnapshotter good_env sample_sn mapped_world = (w', Inr ()) \<and>
     sn_Mounts good_env sample_sn ''c'' mapped_world = (mapped_world, Inr [m]) \<and> lowerdir sample_sn [''1_2''] \<in> set (m_Options m) \<and>
     sn_Mounts good_env sample_sn ''c'' w' = (w', Inr [m']) \<and> lowerdir sample_sn [''1''] \<in> set (m_Options m')"
proof -
  obtain w' where w': "NewSnapshotter good_env sample_sn mapped_world = (w', Inr ())"
    by (simp add: NewSnapshotter_def restoreRemoteSnapshot_def on_host_def mapped_world_def littered_world_def good_env_def
      list_store_def zero_info_def)
  have c: "checkAvailability good_env sample_sn ''c'' (w_db mapped_world) h = Some True" for h
    by (simp add: checkAvailability_def good_env_def list_store_def mapped_world_def zero_info_def ls_GetInfo_def
      chain_tasks.simps plain_fs_def)
  let ?s = "\<lparr>s_Kind = KindActive, s_ID = ''2'', s_ParentIDs = [''1'']\<rparr>"
  have "s_ID ?s \<in> w_idmapped mapped_world" "s_Kind ?s = KindActive" "s_ParentIDs ?s \<noteq> []" "''c'' \<noteq> ''''" "ev_begin good_env"
    "ms_GetSnapshot (ev_ms good_env) ''c'' (w_db mapped_world) = Inr ?s"
    by (simp_all add: mapped_world_def good_env_def list_store_def ls_GetInfo_def zero_info_def)
  moreover have "checkAvailability good_env sample_sn ''c'' (w_db w') (w_host w') = Some True"
    using c NewSnapshotter_db(1) [OF w'] by simp
  ultimately show ?thesis using idmapped_lost_on_restart [OF _ _ _ _ _ _ c w', of ?s] w' by auto
qed

section \<open>Availability of the layers\<close>

text \<open>The layers below a key, each with its ID and its labels.\<close>

inductive layers :: "'db meta_store \<Rightarrow> 'db \<Rightarrow> string \<Rightarrow> (string \<times> labels) list \<Rightarrow> bool" for ms db where
  bottom: "layers ms db '''' []"
| layer: "key \<noteq> '''' \<Longrightarrow> ms_GetInfo ms key db = Inr (i, info, u) \<Longrightarrow> layers ms db (in_Parent info) ls \<Longrightarrow>
    layers ms db key ((i, in_Labels info) # ls)"

inductive_simps layers_bottom [simp]: "layers ms db '''' ls"

lemma layers_key:
  assumes "key \<noteq> ''''"
  shows "ms_GetInfo ms key db = Inl e \<Longrightarrow> \<not> layers ms db key ls"
    and "ms_GetInfo ms key db = Inr (i, info, u) \<Longrightarrow>
      layers ms db key ls \<longleftrightarrow> (\<exists>rest. ls = (i, in_Labels info) # rest \<and> layers ms db (in_Parent info) rest)"
  by (subst layers.simps, simp add: assms)+

lemma chain_tasks_empty [simp]: "chain_tasks ms db '''' = Some (Some [])"
  by (simp add: chain_tasks.simps)

lemma chain_tasks_layers:
  assumes rank: "\<And>k i info u. ms_GetInfo ms k db = Inr (i, info, u) \<Longrightarrow> in_Parent info \<noteq> '''' \<Longrightarrow> rank (in_Parent info) < (rank k :: nat)"
  shows "\<exists>r. chain_tasks ms db key = Some r \<and>
    (case r of None \<Rightarrow> \<not> (\<exists>ls. layers ms db key ls)
     | Some ts \<Rightarrow> \<exists>ls. layers ms db key ls \<and> ts = filter (\<lambda>(i, l). l remoteLabel \<noteq> None) ls)"
proof (induction "rank key" arbitrary: key rule: less_induct)
  case less
  show ?case
  proof (cases "key = ''''")
    case True
    then show ?thesis by simp
  next
    case False
    show ?thesis
    proof (cases "ms_GetInfo ms key db")
      case (Inl e)
      then show ?thesis using False layers_key(1) [OF False Inl] by (simp add: chain_tasks.simps [of ms db key])
    next
      case (Inr x)
      obtain i info u where x: "x = (i, info, u)" by (metis prod_cases3)
      have G: "ms_GetInfo ms key db = Inr (i, info, u)" using Inr x by simp
      have "\<exists>r. chain_tasks ms db (in_Parent info) = Some r \<and>
          (case r of None \<Rightarrow> \<not> (\<exists>ls. layers ms db (in_Parent info) ls)
           | Some ts \<Rightarrow> \<exists>ls. layers ms db (in_Parent info) ls \<and> ts = filter (\<lambda>(i, l). l remoteLabel \<noteq> None) ls)"
      proof (cases "in_Parent info = ''''")
        case True
        then show ?thesis by simp
      next
        case False
        then show ?thesis using less.hyps [OF rank [OF G]] by simp
      qed
      then obtain r where r: "chain_tasks ms db (in_Parent info) = Some r"
        "case r of None \<Rightarrow> \<not> (\<exists>ls. layers ms db (in_Parent info) ls)
           | Some ts \<Rightarrow> \<exists>ls. layers ms db (in_Parent info) ls \<and> ts = filter (\<lambda>(i, l). l remoteLabel \<noteq> None) ls"
        by (elim exE conjE) (rule that)
      show ?thesis
      proof (cases r)
        case None
        then show ?thesis using r G False layers_key(2) [OF False G] by (simp add: chain_tasks.simps [of ms db key])
      next
        case (Some ts)
        then obtain ls where ls: "layers ms db (in_Parent info) ls" "ts = filter (\<lambda>(i, l). l remoteLabel \<noteq> None) ls" using r(2) by auto
        define ts' where "ts' = filter (\<lambda>(i, l). l remoteLabel \<noteq> None) ((i, in_Labels info) # ls)"
        have "chain_tasks ms db key = Some (Some ts')"
          using r(1) Some G False ls(2) by (simp add: chain_tasks.simps [of ms db key] ts'_def)
        moreover have "\<exists>ls. layers ms db key ls \<and> ts' = filter (\<lambda>(i, l). l remoteLabel \<noteq> None) ls"
          using layers.layer [OF False G ls(1)] ts'_def by blast
        ultimately show ?thesis by simp
      qed
    qed
  qed
qed

lemma layers_unique: "layers ms db key ls \<Longrightarrow> layers ms db key ls' \<Longrightarrow> ls = ls'"
proof (induction arbitrary: ls' rule: layers.induct)
  case (layer key i info u ls)
  from layer.prems layers_key(2) [OF layer.hyps(1,2)] layer.IH show ?case by auto
qed simp

text \<open>
  C26: when every parent is older than its child, the check of the layers returns, and it says yes
  exactly when the chain of parents is complete in the store and every remote layer of it passes
  the check of the file system.
\<close>

theorem checkAvailability_iff:
  assumes "\<And>k i info u. ms_GetInfo (ev_ms ev) k db = Inr (i, info, u) \<Longrightarrow> in_Parent info \<noteq> '''' \<Longrightarrow> rank (in_Parent info) < (rank k :: nat)"
    and "ev_begin ev"
  shows "\<exists>b. checkAvailability ev o' key db h = Some b \<and>
    (b \<longleftrightarrow> (\<exists>ls. layers (ev_ms ev) db key ls \<and>
       list_all (\<lambda>(i, l). l remoteLabel \<noteq> None \<longrightarrow> fs_Check (ev_fs ev) (upperPath o' i) l h = None) ls))"
proof -
  have X: "\<exists>r. chain_tasks (ev_ms ev) db key = Some r \<and>
    (case r of None \<Rightarrow> \<not> (\<exists>ls. layers (ev_ms ev) db key ls)
     | Some ts \<Rightarrow> \<exists>ls. layers (ev_ms ev) db key ls \<and> ts = filter (\<lambda>(i, l). l remoteLabel \<noteq> None) ls)"
    by (rule chain_tasks_layers [where rank = rank]) (rule assms(1))
  obtain r where r: "chain_tasks (ev_ms ev) db key = Some r"
    "case r of None \<Rightarrow> \<not> (\<exists>ls. layers (ev_ms ev) db key ls)
       | Some ts \<Rightarrow> \<exists>ls. layers (ev_ms ev) db key ls \<and> ts = filter (\<lambda>(i, l). l remoteLabel \<noteq> None) ls"
    using X by (elim exE conjE) (rule that)
  show ?thesis
  proof (cases r)
    case None
    then show ?thesis using r assms(2) by (auto simp: checkAvailability_def)
  next
    case (Some ts)
    then obtain ls where ls: "layers (ev_ms ev) db key ls" "ts = filter (\<lambda>(i, l). l remoteLabel \<noteq> None) ls" using r(2) by auto
    have "list_all (\<lambda>(i, l). fs_Check (ev_fs ev) (upperPath o' i) l h = None) ts \<longleftrightarrow>
        list_all (\<lambda>(i, l). l remoteLabel \<noteq> None \<longrightarrow> fs_Check (ev_fs ev) (upperPath o' i) l h = None) ls"
      unfolding ls(2) by (induction ls) auto
    moreover have "(\<exists>ls'. layers (ev_ms ev) db key ls' \<and> Q ls') \<longleftrightarrow> Q ls" for Q using ls(1) layers_unique [OF ls(1)] by blast
    ultimately show ?thesis using r(1) Some assms(2) by (simp add: checkAvailability_def)
  qed
qed

theorem checkAvailability_iff_witness:
  "\<exists>b. checkAvailability good_env sample_sn ''c'' (w_db mapped_world) (w_host mapped_world) = Some b \<and> b"
proof -
  let ?rank = "\<lambda>k :: string. if k = ''l'' then 0 else (1 :: nat)"
  have rank: "?rank (in_Parent info) < ?rank k"
    if "ms_GetInfo (ev_ms good_env) k (w_db mapped_world) = Inr (i, info, u)" "in_Parent info \<noteq> ''''" for k i info u
    using that by (auto simp: mapped_world_def ls_GetInfo_def zero_info_def split: if_splits)
  have "layers list_store (w_db mapped_world) ''c'' [(''2'', Map.empty), (''1'', Map.empty)]"
    using layers.layer [of "''c''" list_store "w_db mapped_world" "''2''" "zero_info\<lparr>in_Kind := KindActive, in_Parent := ''l''\<rparr>" zero_usage]
      layers.layer [of "''l''" list_store "w_db mapped_world" "''1''" zero_info zero_usage "[]"] layers.bottom [of list_store]
    by (simp add: mapped_world_def ls_GetInfo_def zero_info_def)
  then have "\<exists>ls. layers (ev_ms good_env) (w_db mapped_world) ''c'' ls \<and>
      list_all (\<lambda>(i, l). l remoteLabel \<noteq> None \<longrightarrow> fs_Check (ev_fs good_env) (upperPath sample_sn i) l (w_host mapped_world) = None) ls"
    by (intro exI [of _ "[(''2'', Map.empty), (''1'', Map.empty)]"]) (simp add: good_env_def)
  moreover have "\<exists>b. checkAvailability good_env sample_sn ''c'' (w_db mapped_world) (w_host mapped_world) = Some b \<and>
    (b \<longleftrightarrow> (\<exists>ls. layers (ev_ms good_env) (w_db mapped_world) ''c'' ls \<and>
       list_all (\<lambda>(i, l). l remoteLabel \<noteq> None \<longrightarrow> fs_Check (ev_fs good_env) (upperPath sample_sn i) l (w_host mapped_world) = None) ls))"
    by (rule checkAvailability_iff [where rank = ?rank]) (rule rank, assumption+, simp add: good_env_def)
  ultimately show ?thesis by blast
qed

end
