(* ===== verification/Unpack_Runs.thy ===== *)
theory Unpack_Runs
  imports Unpack_Jobs
begin

text \<open>
  Runs of the unpack jobs: operations of any number of goroutines and the rounds of the garbage
  collector in any order. Every job in the table keeps its directory, no job is claimed twice, and
  the limits are kept. The proofs use the storage through its interface, a locale that
  \<^verbatim>\<open>LayerUnpackDiskStorage\<close> is shown to implement.
\<close>

section \<open>The interface of the storage\<close>

locale job_storage =
  fixes st :: "'d job_storage_ops" and ids :: "'d \<Rightarrow> string set"
  assumes create_ok: "st_Create st oc d = (d', Inr i) \<Longrightarrow> i \<notin> ids d \<and> ids d' = insert i (ids d)"
    and create_fails: "st_Create st oc d = (d', Inl e) \<Longrightarrow> ids d' = ids d"
    and path_of_id: "i \<in> ids d \<Longrightarrow> \<exists>p. st_GetJobPath st i d = Inr p"
    and keys_all: "st_Keys st oc d = Inr ks \<Longrightarrow> set ks = ids d"
    and delete_only: "st_Delete st oc i d = (d', r) \<Longrightarrow> ids d - {i} \<subseteq> ids d' \<and> ids d' \<subseteq> ids d"
    and delete_fails: "st_Delete st oc i d = (d', Some e) \<Longrightarrow> ids d' = ids d"

interpretation disk: job_storage LayerUnpackDiskStorage set
proof
  fix oc d d' i e ks r
  show "st_Create LayerUnpackDiskStorage oc d = (d', Inr i) \<Longrightarrow> i \<notin> set d \<and> set d' = insert i (set d)"
    by (auto simp: LayerUnpackDiskStorage_def disk_Create_def generateUniqueKey_def disk_contains_def find_Some_iff
      split: option.splits if_splits)
  show "st_Create LayerUnpackDiskStorage oc d = (d', Inl e) \<Longrightarrow> set d' = set d"
    by (auto simp: LayerUnpackDiskStorage_def disk_Create_def split: sum.splits if_splits)
  show "i \<in> set d \<Longrightarrow> \<exists>p. st_GetJobPath LayerUnpackDiskStorage i d = Inr p"
    by (simp add: LayerUnpackDiskStorage_def disk_GetJobPath_def disk_contains_def)
  show "st_Keys LayerUnpackDiskStorage oc d = Inr ks \<Longrightarrow> set ks = set d"
    by (simp add: LayerUnpackDiskStorage_def disk_Keys_def split: if_splits)
  show "st_Delete LayerUnpackDiskStorage oc i d = (d', r) \<Longrightarrow> set d - {i} \<subseteq> set d' \<and> set d' \<subseteq> set d"
    by (auto simp: LayerUnpackDiskStorage_def disk_Delete_def split: if_splits)
  show "st_Delete LayerUnpackDiskStorage oc i d = (d', Some e) \<Longrightarrow> set d' = set d"
    by (auto simp: LayerUnpackDiskStorage_def disk_Delete_def split: if_splits)
qed

section \<open>Runs\<close>

text \<open>
  The table, what the garbage collector holds between its rounds, and as history the jobs that
  \<^verbatim>\<open>Claim\<close> returned.
\<close>

record 'd gc_world =
  gw_jobs :: "'d unpack_jobs"
  gw_inMemory :: "(string \<times> string \<times> int) list"
  gw_inStorage :: "string list"
  gw_cancelled :: "string set"
  gw_claims :: "nat list"

text \<open>Operations of the goroutines, each under the lock.\<close>

datatype job_op =
    OpGetOrAdd string nat int | OpAdd disk_outcome image_job string | OpClaim string string
  | OpRemove nat | OpRemoveImage string | OpCancel nat

fun run_op :: "'d job_storage_ops \<Rightarrow> job_op \<Rightarrow> 'd unpack_jobs \<Rightarrow> 'd unpack_jobs" where
  "run_op st (OpGetOrAdd img ctx now) jobs = fst (GetOrAddImageJob img ctx now jobs)"
| "run_op st (OpAdd oc imageJob layer) jobs = fst (AddLayerJob st oc imageJob layer jobs)"
| "run_op st (OpClaim img layer) jobs = fst (Claim img layer jobs)"
| "run_op st (OpRemove a) jobs = fst (remove_job a jobs)"
| "run_op st (OpRemoveImage img) jobs = fst (RemoveImageWithError img jobs)"
| "run_op st (OpCancel a) jobs = layer_Cancel a jobs"

inductive gc_step :: "'d job_storage_ops \<Rightarrow> 'd gc_world \<Rightarrow> 'd gc_world \<Rightarrow> bool" for st where
  operation: "\<forall>img layer. op \<noteq> OpClaim img layer \<Longrightarrow> \<forall>a. op = OpRemove a \<or> op = OpCancel a \<longrightarrow> a < length (uj_heap (gw_jobs w)) \<Longrightarrow>
    gc_step st w (w\<lparr>gw_jobs := run_op st op (gw_jobs w)\<rparr>)"
| claim: "Claim img layer (gw_jobs w) = (jobs, Inr a) \<Longrightarrow>
    gc_step st w (w\<lparr>gw_jobs := jobs, gw_claims := gw_claims w @ [a]\<rparr>)"
| snapshot: "Snapshot st oc (gw_jobs w) = Inr snap \<Longrightarrow>
    gc_step st w (w\<lparr>gw_inMemory := js_inMemory snap, gw_inStorage := js_inStorage snap, gw_cancelled := {}\<rparr>)"
| expire: "e \<in> set (gw_inMemory w) \<Longrightarrow> expire_entry now expiry e (gw_cancelled w) (gw_jobs w) = (jobs, cancelled, dropped) \<Longrightarrow>
    gc_step st w (w\<lparr>gw_jobs := jobs, gw_cancelled := cancelled,
      gw_inMemory := (if dropped then removeAll e (gw_inMemory w) else gw_inMemory w)\<rparr>)"
| sweep: "i \<in> set (gw_inStorage w) \<Longrightarrow> sweep_entry st oc (gw_inMemory w) i (gw_jobs w) = (jobs, deleted) \<Longrightarrow>
    gc_step st w (w\<lparr>gw_jobs := jobs, gw_inStorage := removeAll i (gw_inStorage w)\<rparr>)"

definition start :: "'d \<Rightarrow> 'd gc_world" where
  "start d = \<lparr>gw_jobs = \<lparr>uj_images = [], uj_heap = [], uj_cancelled = {}, uj_storage = d\<rparr>,
     gw_inMemory = [], gw_inStorage = [], gw_cancelled = {}, gw_claims = []\<rparr>"

text \<open>The jobs that the table holds for an image.\<close>

definition tracked_in :: "'d unpack_jobs \<Rightarrow> string \<Rightarrow> nat \<Rightarrow> bool" where
  "tracked_in jobs img a \<longleftrightarrow>
     (\<exists>ij layer js. (img, ij) \<in> set (uj_images jobs) \<and> (layer, js) \<in> set (ij_layers ij) \<and> a \<in> set js)"

lemma tracked_iff: "a \<in> set (tracked jobs) \<longleftrightarrow> (\<exists>img. tracked_in jobs img a)"
  by (force simp: tracked_def tracked_in_def)

lemma set_alist_update: "set (AList.update k v al) \<subseteq> insert (k, v) (set al)"
  by (induction al) auto

lemma in_alist_update: "e \<in> set (AList.update k v al) \<Longrightarrow> e = (k, v) \<or> e \<in> set al"
  using set_alist_update [of k v al] by blast

lemma set_alist_delete: "set (AList.delete k al) = {e \<in> set al. fst e \<noteq> k}"
  by (auto simp: AList.delete_eq)

lemma layer_jobs_tracked:
  assumes "map_of (uj_images jobs) img = Some ij" and "a \<in> set (layer_jobs ij layer)"
  shows "tracked_in jobs img a"
proof -
  obtain js where "map_of (ij_layers ij) layer = Some js" "a \<in> set js"
    using assms(2) by (cases "map_of (ij_layers ij) layer") (auto simp: layer_jobs_def)
  moreover from this(1) have "(layer, js) \<in> set (ij_layers ij)" by (rule map_of_SomeD)
  ultimately show ?thesis using map_of_SomeD [OF assms(1)] unfolding tracked_in_def by blast
qed

text \<open>A table that lost jobs and otherwise only changed their status.\<close>

definition shrinks :: "'d unpack_jobs \<Rightarrow> 'd unpack_jobs \<Rightarrow> bool" where
  "shrinks jobs jobs' \<longleftrightarrow> (\<forall>img a. tracked_in jobs' img a \<longrightarrow> tracked_in jobs img a) \<and>
     map (\<lambda>j. (lj_id j, lj_image j)) (uj_heap jobs') = map (\<lambda>j. (lj_id j, lj_image j)) (uj_heap jobs) \<and>
     (\<forall>a < length (uj_heap jobs). lj_status (uj_heap jobs' ! a) = InProgress \<longrightarrow> lj_status (uj_heap jobs ! a) = InProgress)"

lemma shrinksD:
  assumes "shrinks jobs jobs'"
  shows "tracked_in jobs' img a \<Longrightarrow> tracked_in jobs img a" and "length (uj_heap jobs') = length (uj_heap jobs)"
    and "a < length (uj_heap jobs) \<Longrightarrow> lj_id (uj_heap jobs' ! a) = lj_id (uj_heap jobs ! a)"
    and "a < length (uj_heap jobs) \<Longrightarrow> lj_image (uj_heap jobs' ! a) = lj_image (uj_heap jobs ! a)"
    and "a < length (uj_heap jobs) \<Longrightarrow> lj_status (uj_heap jobs' ! a) = InProgress \<Longrightarrow> lj_status (uj_heap jobs ! a) = InProgress"
proof -
  have m: "map (\<lambda>j. (lj_id j, lj_image j)) (uj_heap jobs') = map (\<lambda>j. (lj_id j, lj_image j)) (uj_heap jobs)"
    using assms by (simp add: shrinks_def)
  show l: "length (uj_heap jobs') = length (uj_heap jobs)" using arg_cong [OF m, of length] by simp
  show "a < length (uj_heap jobs) \<Longrightarrow> lj_id (uj_heap jobs' ! a) = lj_id (uj_heap jobs ! a)"
    "a < length (uj_heap jobs) \<Longrightarrow> lj_image (uj_heap jobs' ! a) = lj_image (uj_heap jobs ! a)"
    using arg_cong [OF m, of "\<lambda>xs. xs ! a"] l by auto
qed (use assms in \<open>auto simp: shrinks_def\<close>)

lemma set_status_shrinks:
  assumes "a < length (uj_heap jobs)" and "s \<noteq> InProgress"
  shows "shrinks jobs (set_status a s jobs)"
  using assms by (auto simp: shrinks_def set_status_def tracked_in_def map_update nth_list_update list_eq_iff_nth_eq)

lemma same_table_shrinks:
  "uj_images jobs' = uj_images jobs \<Longrightarrow> uj_heap jobs' = uj_heap jobs \<Longrightarrow> shrinks jobs jobs'"
  by (simp add: shrinks_def tracked_in_def)

lemma shrinks_trans: "shrinks a b \<Longrightarrow> shrinks b c \<Longrightarrow> shrinks a c"
  unfolding shrinks_def by (metis (no_types, lifting) length_map)

lemma images_shrinks:
  assumes "\<And>img ij. (img, ij) \<in> set (uj_images jobs') \<Longrightarrow> \<forall>(l, js) \<in> set (ij_layers ij). \<forall>a \<in> set js. tracked_in jobs img a"
    and "uj_heap jobs' = uj_heap jobs"
  shows "shrinks jobs jobs'"
  using assms unfolding shrinks_def tracked_in_def by fastforce

lemma RemoveImage_shrinks: "shrinks jobs (fst (RemoveImageWithError img jobs))"
  by (auto simp: RemoveImageWithError_def cancel_ctx_def shrinks_def tracked_in_def set_alist_delete split: option.splits)

lemma RemoveImage_gone: "RemoveImageWithError img jobs = (jobs', None) \<Longrightarrow> \<not> tracked_in jobs' img a"
  by (auto simp: RemoveImageWithError_def cancel_ctx_def tracked_in_def set_alist_delete split: option.splits)

lemma GetOrAdd_shrinks: "shrinks jobs (fst (GetOrAddImageJob img ctx now jobs))"
  by (auto simp: GetOrAddImageJob_def shrinks_def tracked_in_def newImageUnpackJob_def Let_def split: option.splits
    dest!: in_alist_update)

lemma checkLayerExists_Inr: "checkLayerExists img layer jobs = Inr ij \<Longrightarrow> map_of (uj_images jobs) img = Some ij"
  by (auto simp: checkLayerExists_def split: option.splits if_splits)

lemma remove_shrinks: "shrinks jobs (fst (remove_job a jobs))"
proof -
  define j where "j = uj_heap jobs ! a"
  show ?thesis
  proof (cases "checkLayerExists (lj_image j) (lj_layer j) jobs")
    case (Inl e)
    then show ?thesis by (simp add: remove_job_def j_def [symmetric] Let_def same_table_shrinks)
  next
    case (Inr ij)
    note m = checkLayerExists_Inr [OF Inr]
    define js where "js = layer_jobs ij (lj_layer j)"
    have t: "tracked_in jobs (lj_image j) b" if "(l, bs) \<in> set (ij_layers ij)" "b \<in> set bs" for l bs b
      using map_of_SomeD [OF m] that unfolding tracked_in_def by blast
    have r: "tracked_in jobs (lj_image j) b" if "b \<in> set (remove1 c js)" for b c
      using layer_jobs_tracked [OF m] that notin_set_remove1 unfolding js_def by fast
    have d: "shrinks jobs (cancel_ctx c jobs\<lparr>uj_images := AList.delete (lj_image j) (uj_images jobs)\<rparr>)" for c
      by (auto simp: cancel_ctx_def shrinks_def tracked_in_def set_alist_delete)
    have u: "shrinks jobs (jobs\<lparr>uj_images := AList.update (lj_image j) (ij\<lparr>ij_layers := ls\<rparr>) (uj_images jobs)\<rparr>)"
      if "ls = AList.delete (lj_layer j) (ij_layers ij) \<or> ls = AList.update (lj_layer j) (remove1 c js) (ij_layers ij)" for ls c
    proof (rule images_shrinks)
      fix img ij' assume "(img, ij') \<in> set (uj_images (jobs\<lparr>uj_images := AList.update (lj_image j) (ij\<lparr>ij_layers := ls\<rparr>) (uj_images jobs)\<rparr>))"
      then have "(img, ij') = (lj_image j, ij\<lparr>ij_layers := ls\<rparr>) \<or> (img, ij') \<in> set (uj_images jobs)"
        using set_alist_update [of "lj_image j" "ij\<lparr>ij_layers := ls\<rparr>" "uj_images jobs"] by auto
      moreover have "tracked_in jobs (lj_image j) b" if "(l, bs) \<in> set ls" "b \<in> set bs" for l bs b
        using that \<open>ls = _ \<or> _\<close> set_alist_update [of "lj_layer j" "remove1 c js" "ij_layers ij"] t [of l bs b] r [of b c]
        by (auto simp: set_alist_delete)
      ultimately show "\<forall>(l, js) \<in> set (ij_layers ij'). \<forall>a \<in> set js. tracked_in jobs img a" unfolding tracked_in_def by fastforce
    qed simp
    show ?thesis
      using d u Inr by (auto simp: remove_job_def j_def [symmetric] js_def [symmetric] Let_def same_table_shrinks split: option.splits)
  qed
qed

section \<open>Every job in the table has its directory\<close>

context job_storage
begin

definition jobs_inv :: "'d gc_world \<Rightarrow> bool" where
  "jobs_inv w \<longleftrightarrow> (let jobs = gw_jobs w; heap = uj_heap jobs; disk = ids (uj_storage jobs) in
     (\<forall>img a. tracked_in jobs img a \<longrightarrow> a < length heap \<and> lj_image (heap ! a) = img \<and> lj_id (heap ! a) \<in> disk) \<and>
     (\<forall>img img' a b. tracked_in jobs img a \<longrightarrow> tracked_in jobs img' b \<longrightarrow> lj_id (heap ! a) = lj_id (heap ! b) \<longrightarrow> a = b) \<and>
     (\<forall>i img t. (i, img, t) \<in> set (gw_inMemory w) \<longrightarrow> i \<in> disk \<and>
        (\<forall>img' a. tracked_in jobs img' a \<longrightarrow> lj_id (heap ! a) = i \<longrightarrow> img' = img \<and> img \<notin> gw_cancelled w)) \<and>
     (\<forall>i \<in> set (gw_inStorage w). i \<in> disk \<and>
        (i \<notin> fst ` set (gw_inMemory w) \<longrightarrow> (\<forall>img a. tracked_in jobs img a \<longrightarrow> lj_id (heap ! a) \<noteq> i))))"

lemma jobs_invD:
  assumes "jobs_inv w"
  shows "tracked_in (gw_jobs w) img a \<Longrightarrow> a < length (uj_heap (gw_jobs w))"
    and "tracked_in (gw_jobs w) img a \<Longrightarrow> lj_image (uj_heap (gw_jobs w) ! a) = img"
    and "tracked_in (gw_jobs w) img a \<Longrightarrow> lj_id (uj_heap (gw_jobs w) ! a) \<in> ids (uj_storage (gw_jobs w))"
    and "tracked_in (gw_jobs w) img a \<Longrightarrow> tracked_in (gw_jobs w) img' b \<Longrightarrow>
      lj_id (uj_heap (gw_jobs w) ! a) = lj_id (uj_heap (gw_jobs w) ! b) \<Longrightarrow> a = b"
    and "(i, img, t) \<in> set (gw_inMemory w) \<Longrightarrow> i \<in> ids (uj_storage (gw_jobs w))"
    and "(i, img, t) \<in> set (gw_inMemory w) \<Longrightarrow> tracked_in (gw_jobs w) img' a \<Longrightarrow> lj_id (uj_heap (gw_jobs w) ! a) = i \<Longrightarrow>
      img' = img \<and> img \<notin> gw_cancelled w"
    and "i \<in> set (gw_inStorage w) \<Longrightarrow> i \<in> ids (uj_storage (gw_jobs w))"
    and "i \<in> set (gw_inStorage w) \<Longrightarrow> i \<notin> fst ` set (gw_inMemory w) \<Longrightarrow> tracked_in (gw_jobs w) img a \<Longrightarrow>
      lj_id (uj_heap (gw_jobs w) ! a) \<noteq> i"
  using assms unfolding jobs_inv_def Let_def by - (blast+)

lemma jobs_invI:
  assumes "\<And>img a. tracked_in (gw_jobs w) img a \<Longrightarrow> a < length (uj_heap (gw_jobs w)) \<and>
      lj_image (uj_heap (gw_jobs w) ! a) = img \<and> lj_id (uj_heap (gw_jobs w) ! a) \<in> ids (uj_storage (gw_jobs w))"
    and "\<And>img img' a b. tracked_in (gw_jobs w) img a \<Longrightarrow> tracked_in (gw_jobs w) img' b \<Longrightarrow>
      lj_id (uj_heap (gw_jobs w) ! a) = lj_id (uj_heap (gw_jobs w) ! b) \<Longrightarrow> a = b"
    and "\<And>i img t. (i, img, t) \<in> set (gw_inMemory w) \<Longrightarrow> i \<in> ids (uj_storage (gw_jobs w))"
    and "\<And>i img t img' a. (i, img, t) \<in> set (gw_inMemory w) \<Longrightarrow> tracked_in (gw_jobs w) img' a \<Longrightarrow>
      lj_id (uj_heap (gw_jobs w) ! a) = i \<Longrightarrow> img' = img \<and> img \<notin> gw_cancelled w"
    and "\<And>i. i \<in> set (gw_inStorage w) \<Longrightarrow> i \<in> ids (uj_storage (gw_jobs w))"
    and "\<And>i img a. i \<in> set (gw_inStorage w) \<Longrightarrow> i \<notin> fst ` set (gw_inMemory w) \<Longrightarrow> tracked_in (gw_jobs w) img a \<Longrightarrow>
      lj_id (uj_heap (gw_jobs w) ! a) \<noteq> i"
  shows "jobs_inv w"
  unfolding jobs_inv_def Let_def using assms by blast

lemma inv_shrinks:
  assumes I: "jobs_inv w" and s: "shrinks (gw_jobs w) jobs" and d: "ids (uj_storage (gw_jobs w)) \<subseteq> ids (uj_storage jobs)"
  shows "jobs_inv (w\<lparr>gw_jobs := jobs\<rparr>)"
proof -
  note D = jobs_invD [OF I] and S = shrinksD [OF s]
  have t: "tracked_in (gw_jobs w) img a \<and> a < length (uj_heap (gw_jobs w)) \<and> lj_id (uj_heap jobs ! a) = lj_id (uj_heap (gw_jobs w) ! a) \<and>
      lj_image (uj_heap jobs ! a) = lj_image (uj_heap (gw_jobs w) ! a)" if "tracked_in jobs img a" for img a
    using S(1) [OF that] S(3,4) D(1) by blast
  show ?thesis
  proof (rule jobs_invI)
    show "a < length (uj_heap (gw_jobs (w\<lparr>gw_jobs := jobs\<rparr>))) \<and> lj_image (uj_heap (gw_jobs (w\<lparr>gw_jobs := jobs\<rparr>)) ! a) = img \<and>
        lj_id (uj_heap (gw_jobs (w\<lparr>gw_jobs := jobs\<rparr>)) ! a) \<in> ids (uj_storage (gw_jobs (w\<lparr>gw_jobs := jobs\<rparr>)))"
      if "tracked_in (gw_jobs (w\<lparr>gw_jobs := jobs\<rparr>)) img a" for img a
      using t [of img a] D(2,3) [of img a] d S(2) that by auto
  next
    show "a = b" if "tracked_in (gw_jobs (w\<lparr>gw_jobs := jobs\<rparr>)) img a" "tracked_in (gw_jobs (w\<lparr>gw_jobs := jobs\<rparr>)) img' b"
        "lj_id (uj_heap (gw_jobs (w\<lparr>gw_jobs := jobs\<rparr>)) ! a) = lj_id (uj_heap (gw_jobs (w\<lparr>gw_jobs := jobs\<rparr>)) ! b)" for img img' a b
      using t [of img a] t [of img' b] D(4) [of img a img' b] that by simp
  next
    show "img' = img \<and> img \<notin> gw_cancelled (w\<lparr>gw_jobs := jobs\<rparr>)"
      if "(i, img, tm) \<in> set (gw_inMemory (w\<lparr>gw_jobs := jobs\<rparr>))" "tracked_in (gw_jobs (w\<lparr>gw_jobs := jobs\<rparr>)) img' a"
        "lj_id (uj_heap (gw_jobs (w\<lparr>gw_jobs := jobs\<rparr>)) ! a) = i" for i img tm img' a
      using t [of img' a] D(6) [of i img tm img' a] that by simp
  next
    show "lj_id (uj_heap (gw_jobs (w\<lparr>gw_jobs := jobs\<rparr>)) ! a) \<noteq> i"
      if "i \<in> set (gw_inStorage (w\<lparr>gw_jobs := jobs\<rparr>))" "i \<notin> fst ` set (gw_inMemory (w\<lparr>gw_jobs := jobs\<rparr>))"
        "tracked_in (gw_jobs (w\<lparr>gw_jobs := jobs\<rparr>)) img a" for i img a
      using t [of img a] D(8) [of i img a] that by simp
  qed (use D(5,7) d in auto)
qed

end

lemma AddLayerJob_new:
  assumes "AddLayerJob st oc imageJob layer jobs = (jobs', Inr a)"
  shows "\<exists>lj d. newLayerUnpackJob st oc imageJob layer (uj_storage jobs) = (d, Inr lj) \<and> uj_heap jobs' = uj_heap jobs @ [lj] \<and>
    a = length (uj_heap jobs) \<and> uj_storage jobs' = d \<and>
    (\<forall>img b. tracked_in jobs' img b \<longrightarrow> tracked_in jobs img b \<or> img = ij_digest imageJob \<and> b = a)"
proof -
  obtain d r where n: "newLayerUnpackJob st oc imageJob layer (uj_storage jobs) = (d, r)" by fastforce
  obtain lj where r: "r = Inr lj" using assms n by (cases r) (auto simp: AddLayerJob_def)
  obtain ij where m: "map_of (uj_images jobs) (ij_digest imageJob) = Some ij"
    using assms n r by (cases "map_of (uj_images jobs) (ij_digest imageJob)") (auto simp: AddLayerJob_def)
  define ls where "ls = AList.update layer (layer_jobs ij layer @ [length (uj_heap jobs)]) (ij_layers ij)"
  have j: "jobs' = jobs\<lparr>uj_storage := d, uj_heap := uj_heap jobs @ [lj],
      uj_images := AList.update (ij_digest imageJob) (ij\<lparr>ij_layers := ls\<rparr>) (uj_images jobs)\<rparr>" "a = length (uj_heap jobs)"
    using assms n r m by (auto simp: AddLayerJob_def Let_def ls_def)
  have "tracked_in jobs img b \<or> img = ij_digest imageJob \<and> b = a" if t: "tracked_in jobs' img b" for img b
  proof -
    obtain ij' l js where e: "(img, ij') \<in> set (uj_images jobs')" "(l, js) \<in> set (ij_layers ij')" "b \<in> set js"
      using t unfolding tracked_in_def by blast
    then consider "(img, ij') \<in> set (uj_images jobs)" | "img = ij_digest imageJob" "ij' = ij\<lparr>ij_layers := ls\<rparr>"
      using in_alist_update [of "(img, ij')" "ij_digest imageJob" "ij\<lparr>ij_layers := ls\<rparr>" "uj_images jobs"] j(1) by auto
    then show ?thesis
    proof cases
      case 1
      then show ?thesis using e unfolding tracked_in_def by blast
    next
      case 2
      then have "(l, js) \<in> set ls" using e(2) by simp
      from in_alist_update [OF this [unfolded ls_def]]
      consider (new) "js = layer_jobs ij layer @ [length (uj_heap jobs)]" | (old) "(l, js) \<in> set (ij_layers ij)" by auto
      then show ?thesis
      proof cases
        case new
        then show ?thesis using e(3) 2(1) j(2) layer_jobs_tracked [OF m, of b layer] by auto
      next
        case old
        then show ?thesis using e(3) 2(1) map_of_SomeD [OF m] unfolding tracked_in_def by blast
      qed
    qed
  qed
  moreover have "uj_heap jobs' = uj_heap jobs @ [lj]" "uj_storage jobs' = d" using j(1) by simp_all
  ultimately show ?thesis using n r j(2) by blast
qed

lemma AddLayerJob_fails:
  assumes "AddLayerJob st oc imageJob layer jobs = (jobs', Inl e)"
  shows "uj_images jobs' = uj_images jobs \<and> uj_heap jobs' = uj_heap jobs \<and>
    uj_storage jobs' = fst (newLayerUnpackJob st oc imageJob layer (uj_storage jobs))"
  using assms by (auto simp: AddLayerJob_def Let_def split: prod.splits sum.splits option.splits)

context job_storage
begin

lemma newLayer_storage:
  assumes "newLayerUnpackJob st oc imageJob layer d = (d', r)"
  shows "ids d \<subseteq> ids d'" and "r = Inr lj \<Longrightarrow> lj_id lj \<notin> ids d \<and> lj_id lj \<in> ids d' \<and> lj_image lj = ij_digest imageJob \<and> lj_status lj = InProgress"
proof -
  obtain d1 c where c: "st_Create st oc d = (d1, c)" by fastforce
  have "ids d \<subseteq> ids d' \<and> (r = Inr lj \<longrightarrow> lj_id lj \<notin> ids d \<and> lj_id lj \<in> ids d' \<and> lj_image lj = ij_digest imageJob \<and> lj_status lj = InProgress)" for lj
  proof (cases c)
    case (Inl e)
    then have "d' = d1" "r = Inl e" using assms c by (simp_all add: newLayerUnpackJob_def)
    then show ?thesis using create_fails [OF c [unfolded Inl]] by simp
  next
    case (Inr i)
    note C = create_ok [OF c [unfolded Inr]]
    have "d' = d1" "r = Inr lj \<Longrightarrow> lj_id lj = i \<and> lj_image lj = ij_digest imageJob \<and> lj_status lj = InProgress"
      using assms c Inr by (auto simp: newLayerUnpackJob_def split: sum.splits)
    then show ?thesis using C by auto
  qed
  then show "ids d \<subseteq> ids d'" "r = Inr lj \<Longrightarrow> lj_id lj \<notin> ids d \<and> lj_id lj \<in> ids d' \<and> lj_image lj = ij_digest imageJob \<and> lj_status lj = InProgress"
    by simp_all
qed
lemma inv_add:
  assumes I: "jobs_inv w"
  shows "jobs_inv (w\<lparr>gw_jobs := fst (AddLayerJob st oc imageJob layer (gw_jobs w))\<rparr>)"
proof -
  obtain jobs r where A: "AddLayerJob st oc imageJob layer (gw_jobs w) = (jobs, r)" by fastforce
  have "jobs_inv (w\<lparr>gw_jobs := jobs\<rparr>)"
  proof (cases r)
    case (Inl e)
    then have F: "uj_images jobs = uj_images (gw_jobs w)" "uj_heap jobs = uj_heap (gw_jobs w)"
        "uj_storage jobs = fst (newLayerUnpackJob st oc imageJob layer (uj_storage (gw_jobs w)))"
      using AddLayerJob_fails [of st oc imageJob layer "gw_jobs w" jobs e] A by simp_all
    have "ids (uj_storage (gw_jobs w)) \<subseteq> ids (uj_storage jobs)"
      unfolding F(3) by (rule newLayer_storage(1) [of oc imageJob layer _ _ "snd (newLayerUnpackJob st oc imageJob layer (uj_storage (gw_jobs w)))"]) simp
    with inv_shrinks [OF I same_table_shrinks [OF F(1,2)]] show ?thesis .
  next
    case (Inr a)
    note D = jobs_invD [OF I]
    obtain lj d where X: "newLayerUnpackJob st oc imageJob layer (uj_storage (gw_jobs w)) = (d, Inr lj)"
        "uj_heap jobs = uj_heap (gw_jobs w) @ [lj]" "a = length (uj_heap (gw_jobs w))" "uj_storage jobs = d"
        "\<forall>img b. tracked_in jobs img b \<longrightarrow> tracked_in (gw_jobs w) img b \<or> img = ij_digest imageJob \<and> b = a"
      using AddLayerJob_new [OF A [unfolded Inr]] by (elim exE conjE) (rule that)
    note h = X(2) and a = X(3) and t = X(5) [rule_format]
    have n: "newLayerUnpackJob st oc imageJob layer (uj_storage (gw_jobs w)) = (uj_storage jobs, Inr lj)" using X(1,4) by simp
    note N = newLayer_storage(1) [OF n] newLayer_storage(2) [OF n refl]
    have new: "uj_heap jobs ! a = lj" using h a by simp
    have old: "uj_heap jobs ! b = uj_heap (gw_jobs w) ! b" if "tracked_in (gw_jobs w) img b" for img b
      using D(1) [OF that] h by (simp add: nth_append)

    have f: "lj_id lj \<noteq> lj_id (uj_heap (gw_jobs w) ! b)" if "tracked_in (gw_jobs w) img b" for img b using D(3) [OF that] N(2) by auto
    have T: "tracked_in (gw_jobs w) img b \<and> uj_heap jobs ! b = uj_heap (gw_jobs w) ! b \<or>
        img = ij_digest imageJob \<and> uj_heap jobs ! b = lj \<and> b = a" if "tracked_in jobs img b" for img b
      using t [OF that] old new by blast
    have 1: "b < length (uj_heap jobs) \<and> lj_image (uj_heap jobs ! b) = img \<and> lj_id (uj_heap jobs ! b) \<in> ids (uj_storage jobs)"
      if "tracked_in jobs img b" for img b
      using T [OF that]
    proof (elim disjE conjE)
      assume "tracked_in (gw_jobs w) img b" and b: "uj_heap jobs ! b = uj_heap (gw_jobs w) ! b"
      then show ?thesis using D(1-3) [of img b] N(1) h by auto
    next
      assume "img = ij_digest imageJob" "uj_heap jobs ! b = lj" "b = a"
      then show ?thesis using N(2) h a by simp
    qed
    have 2: "b = c" if "tracked_in jobs img b" "tracked_in jobs img' c" "lj_id (uj_heap jobs ! b) = lj_id (uj_heap jobs ! c)" for img img' b c
      using T [OF that(1)] T [OF that(2)] that(3) D(4) [of img b img' c] f [of img b] f [of img' c] by (elim disjE conjE) simp_all
    have 3: "img' = img \<and> img \<notin> gw_cancelled w"
      if "(i, img, tm) \<in> set (gw_inMemory w)" "tracked_in jobs img' b" "lj_id (uj_heap jobs ! b) = i" for i img tm img' b
      using T [OF that(2)] D(5) [OF that(1)] D(6) [OF that(1), of img' b] N(2) that(3) by (elim disjE conjE) simp_all
    have 4: "lj_id (uj_heap jobs ! b) \<noteq> i"
      if "i \<in> set (gw_inStorage w)" "i \<notin> fst ` set (gw_inMemory w)" "tracked_in jobs img b" for i img b
      using T [OF that(3)] D(7) [OF that(1)] D(8) [OF that(1,2), of img b] N(2) by (elim disjE conjE) auto
    have 5: "i \<in> ids (uj_storage jobs)" if "(i, img, tm) \<in> set (gw_inMemory w)" for i img tm using D(5) [OF that] N(1) by blast
    have 6: "i \<in> ids (uj_storage jobs)" if "i \<in> set (gw_inStorage w)" for i using D(7) [OF that] N(1) by blast
    show ?thesis by (rule jobs_invI; simp; (rule 1 2 3 4 5 6; assumption?)?)
  qed
  then show ?thesis by (simp add: A)
qed

end

lemma Claim_shrinks:
  assumes "Claim img layer jobs = (jobs', r)" and "\<And>a. tracked_in jobs img a \<Longrightarrow> a < length (uj_heap jobs)"
  shows "shrinks jobs jobs'" and "uj_storage jobs' = uj_storage jobs"
    and "r = Inr a \<Longrightarrow> a < length (uj_heap jobs) \<and> lj_status (uj_heap jobs ! a) = InProgress \<and> lj_status (uj_heap jobs' ! a) = Claimed"
proof -
  have "shrinks jobs jobs' \<and> uj_storage jobs' = uj_storage jobs \<and>
    (r = Inr a \<longrightarrow> a < length (uj_heap jobs) \<and> lj_status (uj_heap jobs ! a) = InProgress \<and> lj_status (uj_heap jobs' ! a) = Claimed)" for a
  proof (cases "checkLayerExists img layer jobs")
    case (Inl e)
    then show ?thesis using assms(1) by (auto simp: Claim_def same_table_shrinks)
  next
    case (Inr ij)
    show ?thesis
    proof (cases "find (claimable jobs) (layer_jobs ij layer)")
      case None
      then show ?thesis using assms(1) Inr by (auto simp: Claim_def same_table_shrinks)
    next
      case (Some b)
      then have "b \<in> set (layer_jobs ij layer)" "claimable jobs b" by (auto simp: find_Some_iff)
      then have b: "b < length (uj_heap jobs)" "lj_status (uj_heap jobs ! b) = InProgress"
        using assms(2) layer_jobs_tracked [OF checkLayerExists_Inr [OF Inr]] by (auto simp: claimable_def)
      have "jobs' = set_status b Claimed jobs" "r = Inr b" using assms(1) Inr Some by (simp_all add: Claim_def)
      then show ?thesis using b set_status_shrinks [OF b(1), of Claimed] by (auto simp: set_status_def)
    qed
  qed
  then show "shrinks jobs jobs'" "uj_storage jobs' = uj_storage jobs"
    "r = Inr a \<Longrightarrow> a < length (uj_heap jobs) \<and> lj_status (uj_heap jobs ! a) = InProgress \<and> lj_status (uj_heap jobs' ! a) = Claimed"
    by simp_all
qed

lemma storage_kept [simp]:
  "uj_storage (fst (GetOrAddImageJob img ctx now jobs)) = uj_storage jobs"
  "uj_storage (fst (remove_job a jobs)) = uj_storage jobs"
  "uj_storage (fst (RemoveImageWithError img jobs)) = uj_storage jobs"
  "uj_storage (layer_Cancel a jobs) = uj_storage jobs"
  by (auto simp: GetOrAddImageJob_def remove_job_def RemoveImageWithError_def layer_Cancel_def set_status_def cancel_ctx_def Let_def
    split: option.splits sum.splits)

lemma layer_Cancel_shrinks: "a < length (uj_heap jobs) \<Longrightarrow> shrinks jobs (layer_Cancel a jobs)"
  unfolding layer_Cancel_def
  by (rule shrinks_trans [OF same_table_shrinks set_status_shrinks]) (simp_all add: cancel_ctx_def)

lemma expire_entry_cases:
  assumes "expire_entry now expiry (i, img, t) cancelled jobs = (jobs', cancelled', dropped)"
  shows "img \<in> cancelled \<and> jobs' = jobs \<and> cancelled' = cancelled \<and> dropped \<or>
    jobs' = jobs \<and> cancelled' = cancelled \<and> \<not> dropped \<or>
    jobs' = fst (RemoveImageWithError img jobs) \<and> cancelled' = insert img cancelled \<and> dropped \<and> (\<forall>a. \<not> tracked_in jobs' img a)"
proof -
  obtain j r where R: "RemoveImageWithError img jobs = (j, r)" by fastforce
  have "r \<noteq> None \<Longrightarrow> j = jobs" using R by (auto simp: RemoveImageWithError_def split: option.splits)
  moreover have "r = None \<Longrightarrow> \<forall>a. \<not> tracked_in j img a" using RemoveImage_gone R by blast
  ultimately show ?thesis using assms R by (cases r) (auto simp: expire_entry_def split: if_splits)
qed

context job_storage
begin

lemma inv_snapshot:
  assumes I: "jobs_inv w" and s: "Snapshot st oc (gw_jobs w) = Inr snap"
  shows "jobs_inv (w\<lparr>gw_inMemory := js_inMemory snap, gw_inStorage := js_inStorage snap, gw_cancelled := {}\<rparr>)"
proof -
  note D = jobs_invD [OF I]
  let ?h = "uj_heap (gw_jobs w)"
  have k: "set (js_inStorage snap) = ids (uj_storage (gw_jobs w))" using s keys_all by (auto simp: Snapshot_def bind_res_Inr_iff)
  have T: "set (tracked (gw_jobs w)) = {a. \<exists>img. tracked_in (gw_jobs w) img a}" by (auto simp: tracked_iff)
  have m: "set (js_inMemory snap) = (\<lambda>a. (lj_id (?h ! a), lj_image (?h ! a), lj_time (?h ! a))) ` {a. \<exists>img. tracked_in (gw_jobs w) img a}"
    unfolding T [symmetric] using s by (auto simp: Snapshot_def bind_res_Inr_iff Let_def)
  have in_mem: "\<exists>img' b. tracked_in (gw_jobs w) img' b \<and> i = lj_id (?h ! b) \<and> img = img'" if "(i, img, t) \<in> set (js_inMemory snap)" for i img t
    using that D(2) unfolding m by auto
  have 1: "i \<in> ids (uj_storage (gw_jobs w))" if "(i, img, t) \<in> set (js_inMemory snap)" for i img t using in_mem [OF that] D(3) by blast
  have 2: "img' = img" if "(i, img, t) \<in> set (js_inMemory snap)" "tracked_in (gw_jobs w) img' a" "lj_id (?h ! a) = i" for i img t img' a
    using in_mem [OF that(1)] that(2,3) D(4) D(2) by blast
  have 3: "lj_id (?h ! a) \<noteq> i" if "i \<notin> fst ` set (js_inMemory snap)" "tracked_in (gw_jobs w) img a" for i img a
    using that unfolding m by force
  show ?thesis by (rule jobs_invI) (use D(1-4) 1 2 3 k in \<open>simp_all, blast?\<close>)
qed

lemma inv_expire:
  assumes I: "jobs_inv w" and e: "(i, img, t) \<in> set (gw_inMemory w)"
    and x: "expire_entry now expiry (i, img, t) (gw_cancelled w) (gw_jobs w) = (jobs, cancelled, dropped)"
  shows "jobs_inv (w\<lparr>gw_jobs := jobs, gw_cancelled := cancelled,
    gw_inMemory := (if dropped then removeAll (i, img, t) (gw_inMemory w) else gw_inMemory w)\<rparr>)"
proof -
  note D = jobs_invD [OF I]
  have s: "shrinks (gw_jobs w) jobs" "uj_storage jobs = uj_storage (gw_jobs w)"
    using expire_entry_cases [OF x] RemoveImage_shrinks same_table_shrinks by auto
  have I1: "jobs_inv (w\<lparr>gw_jobs := jobs\<rparr>)" using inv_shrinks [OF I s(1)] s(2) by simp
  note D1 = jobs_invD [OF I1, simplified]
  have gone: "lj_id (uj_heap jobs ! a) \<noteq> i" if "dropped" "tracked_in jobs img' a" for img' a
    using expire_entry_cases [OF x] D1(6) [OF e, of img' a] that by auto
  have c: "img' \<notin> cancelled" if "(i', img', t') \<in> set (gw_inMemory w)" "tracked_in jobs img' a" "lj_id (uj_heap jobs ! a) = i'" for i' img' t' a
    using expire_entry_cases [OF x] D1(6) [OF that] that(2) by auto
  have 1: "img'' = img' \<and> img' \<notin> cancelled" if "(i', img', t') \<in> set (gw_inMemory w)" "tracked_in jobs img'' a" "lj_id (uj_heap jobs ! a) = i'"
    for i' img' t' img'' a using D1(6) [OF that] c [OF that(1) _ that(3)] that(2) by blast
  have 2: "lj_id (uj_heap jobs ! a) \<noteq> k"
    if "k \<in> set (gw_inStorage w)" "k \<notin> fst ` set (if dropped then removeAll (i, img, t) (gw_inMemory w) else gw_inMemory w)"
      "tracked_in jobs img' a" for k img' a
  proof (cases "k \<in> fst ` set (gw_inMemory w)")
    case False
    then show ?thesis using D1(8) that by blast
  next
    case True
    then have "k = i \<and> dropped" using that(2) by (auto split: if_splits)
    then show ?thesis using gone that(3) by blast
  qed
  have sub: "set (if dropped then removeAll (i, img, t) (gw_inMemory w) else gw_inMemory w) \<subseteq> set (gw_inMemory w)" by auto
  show ?thesis
  proof (rule jobs_invI)
    show "i' \<in> ids (uj_storage (gw_jobs (w\<lparr>gw_jobs := jobs, gw_cancelled := cancelled,
        gw_inMemory := if dropped then removeAll (i, img, t) (gw_inMemory w) else gw_inMemory w\<rparr>)))"
      if "(i', img', t') \<in> set (gw_inMemory (w\<lparr>gw_jobs := jobs, gw_cancelled := cancelled,
        gw_inMemory := if dropped then removeAll (i, img, t) (gw_inMemory w) else gw_inMemory w\<rparr>))" for i' img' t'
      using D1(5) [of i' img' t'] that sub by auto
  qed (use D1(1-4,7) 1 2 sub in \<open>simp_all, blast?\<close>)
qed

lemma inv_sweep:
  assumes I: "jobs_inv w" and i: "i \<in> set (gw_inStorage w)" and x: "sweep_entry st oc (gw_inMemory w) i (gw_jobs w) = (jobs, deleted)"
  shows "jobs_inv (w\<lparr>gw_jobs := jobs, gw_inStorage := removeAll i (gw_inStorage w)\<rparr>)"
proof -
  note D = jobs_invD [OF I]
  have t: "uj_images jobs = uj_images (gw_jobs w)" "uj_heap jobs = uj_heap (gw_jobs w)"
    using x by (auto simp: sweep_entry_def split: if_splits prod.splits option.splits)
  then have tr: "tracked_in jobs = tracked_in (gw_jobs w)" by (auto simp: tracked_in_def fun_eq_iff)
  have d: "ids (uj_storage (gw_jobs w)) - {i} \<subseteq> ids (uj_storage jobs)"
    using x delete_only by (auto simp: sweep_entry_def split: if_splits prod.splits option.splits) blast+
  have k: "ids (uj_storage (gw_jobs w)) \<subseteq> ids (uj_storage jobs)" if "i \<in> fst ` set (gw_inMemory w)"
    using x that by (auto simp: sweep_entry_def)
  have ne: "lj_id (uj_heap jobs ! a) \<in> ids (uj_storage jobs)" if "tracked_in (gw_jobs w) img a" for img a
    using D(3) [OF that] D(8) [OF i _ that] d k t(2) by (cases "i \<in> fst ` set (gw_inMemory w)") auto
  have m: "i' \<in> ids (uj_storage jobs)" if "(i', img, t') \<in> set (gw_inMemory w)" for i' img t'
    using D(5) [OF that] d k that by (cases "i' = i") force+
  have o: "k \<in> ids (uj_storage jobs)" if "k \<in> set (gw_inStorage w)" "k \<noteq> i" for k using D(7) [OF that(1)] that(2) d by blast
  show ?thesis by (rule jobs_invI) (use D(1,2,4,6,8) ne m o t tr in \<open>simp_all, blast?\<close>)
qed

end

context job_storage
begin

lemma inv_step:
  assumes "gc_step st w w'" and I: "jobs_inv w"
  shows "jobs_inv w'"
  using assms(1)
proof cases
  case (operation op)
  have "jobs_inv (w\<lparr>gw_jobs := run_op st op (gw_jobs w)\<rparr>)"
  proof (cases op)
    case (OpAdd oc imageJob layer)
    then show ?thesis using inv_add [OF I] by simp
  next
    case (OpClaim img layer)
    then show ?thesis using operation(2) by blast
  next
    case (OpRemove a)
    then show ?thesis using inv_shrinks [OF I remove_shrinks] by simp
  next
    case (OpCancel a)
    then show ?thesis using inv_shrinks [OF I layer_Cancel_shrinks, of a] operation(3) by simp
  qed (use inv_shrinks [OF I GetOrAdd_shrinks] inv_shrinks [OF I RemoveImage_shrinks] in simp_all)
  then show ?thesis using operation(1) by simp
next
  case (claim img layer jobs a)
  note C = Claim_shrinks [OF claim(2) jobs_invD(1) [OF I]]
  have "jobs_inv (w\<lparr>gw_jobs := jobs\<rparr>)" using inv_shrinks [OF I C(1)] C(2) by simp
  then show ?thesis using claim(1) by (simp add: jobs_inv_def)
next
  case (snapshot oc snap)
  then show ?thesis using inv_snapshot [OF I] by simp
next
  case (expire e now expiry jobs cancelled dropped)
  obtain i img t where e: "e = (i, img, t)" by (cases e) auto
  show ?thesis unfolding expire(1) e using inv_expire [OF I expire(2) [unfolded e] expire(3) [unfolded e]] by simp
next
  case (sweep i oc jobs deleted)
  then show ?thesis using inv_sweep [OF I] by simp
qed

lemma inv_start: "jobs_inv (start d)"
  by (simp add: jobs_inv_def start_def tracked_in_def)

lemma inv_reach: "(gc_step st)\<^sup>*\<^sup>* (start d) w \<Longrightarrow> jobs_inv w"
  by (induction rule: rtranclp_induct) (auto intro: inv_start inv_step)

lemma tracked_on_disk:
  assumes "(gc_step st)\<^sup>*\<^sup>* (start d) w" and "a \<in> set (tracked (gw_jobs w))"
  shows "lj_id (uj_heap (gw_jobs w) ! a) \<in> ids (uj_storage (gw_jobs w))"
  using jobs_invD(3) [OF inv_reach [OF assms(1)]] assms(2) by (auto simp: tracked_iff)

text \<open>Claims: a job that was returned is no longer in progress.\<close>

lemma claims_step:
  assumes "gc_step st w w'" and I: "jobs_inv w" and "distinct (gw_claims w)"
    and c: "\<forall>a \<in> set (gw_claims w). a < length (uj_heap (gw_jobs w)) \<and> lj_status (uj_heap (gw_jobs w) ! a) \<noteq> InProgress"
  shows "distinct (gw_claims w') \<and> (\<forall>a \<in> set (gw_claims w'). a < length (uj_heap (gw_jobs w')) \<and> lj_status (uj_heap (gw_jobs w') ! a) \<noteq> InProgress)"
proof -
  have s: ?thesis if "shrinks (gw_jobs w) (gw_jobs w')" "gw_claims w' = gw_claims w"
    using shrinksD(2,5) [OF that(1)] that(2) assms(3) c by auto
  show ?thesis
    using assms(1)
  proof cases
    case (operation op)
    show ?thesis
    proof (cases "\<exists>oc imageJob layer. op = OpAdd oc imageJob layer")
      case True
      then obtain oc imageJob layer where op: "op = OpAdd oc imageJob layer" by blast
      obtain jobs r where A: "AddLayerJob st oc imageJob layer (gw_jobs w) = (jobs, r)" by fastforce
      have "\<exists>xs. uj_heap jobs = uj_heap (gw_jobs w) @ xs"
        using AddLayerJob_new [of st oc imageJob layer "gw_jobs w" jobs] AddLayerJob_fails [of st oc imageJob layer "gw_jobs w" jobs] A
        by (cases r) fastforce+
      then show ?thesis using operation(1) op A assms(3) c by (auto simp: nth_append)
    next
      case False
      have "shrinks (gw_jobs w) (run_op st op (gw_jobs w))"
        using False operation(2,3) GetOrAdd_shrinks remove_shrinks RemoveImage_shrinks layer_Cancel_shrinks by (cases op) auto
      then show ?thesis using s operation(1) by simp
    qed
  next
    case (claim img layer jobs a)
    note C = Claim_shrinks [OF claim(2) jobs_invD(1) [OF I]]
    have C3: "a < length (uj_heap (gw_jobs w)) \<and> lj_status (uj_heap (gw_jobs w) ! a) = InProgress \<and> lj_status (uj_heap jobs ! a) = Claimed"
      by (rule C(3)) simp_all
    have C1: "shrinks (gw_jobs w) jobs" by (rule C(1))
    show ?thesis using claim(1) assms(3) c shrinksD(2,5) [OF C1] C3 by auto
  next
    case (expire e now expiry jobs cancelled dropped)
    obtain i img t where e: "e = (i, img, t)" by (cases e) auto
    have "shrinks (gw_jobs w) jobs"
      using expire_entry_cases [OF expire(3) [unfolded e]] RemoveImage_shrinks same_table_shrinks by auto
    then show ?thesis using s expire(1) by simp
  next
    case (sweep i oc jobs deleted)
    have "shrinks (gw_jobs w) jobs"
      by (rule same_table_shrinks) (use sweep(3) in \<open>auto simp: sweep_entry_def split: if_splits prod.splits option.splits\<close>)
    then show ?thesis using s sweep(1) by simp
  qed (use assms(3) c in simp)
qed

lemma claims_distinct:
  assumes "(gc_step st)\<^sup>*\<^sup>* (start d) w"
  shows "distinct (gw_claims w) \<and> (\<forall>a \<in> set (gw_claims w). a < length (uj_heap (gw_jobs w)) \<and> lj_status (uj_heap (gw_jobs w) ! a) \<noteq> InProgress)"
  using assms
proof (induction rule: rtranclp_induct)
  case base
  then show ?case by (simp add: start_def)
next
  case (step w w')
  then show ?case using claims_step [OF step(2) inv_reach [OF step(1)]] by blast
qed

end

section \<open>The jobs on disk\<close>

text \<open>C5: whatever the goroutines do between the rounds of the garbage collector, every job in the table has its
  directory: the collector never deletes the directory of a job that is in use.\<close>

theorem tracked_jobs_have_directories:
  assumes "(gc_step LayerUnpackDiskStorage)\<^sup>*\<^sup>* (start d) w" and "a \<in> set (tracked (gw_jobs w))"
  shows "lj_id (uj_heap (gw_jobs w) ! a) \<in> set (uj_storage (gw_jobs w))"
  by (rule disk.tracked_on_disk [OF assms])

text \<open>A run: an image with one layer, a snapshot of the collector, a second layer, and the sweep of a directory without a job.\<close>

definition ex_outcome :: "string \<Rightarrow> disk_outcome" where
  "ex_outcome k = \<lparr>do_keys = [k], do_mkdir = True, do_readdir = True, do_removed = True\<rparr>"

definition ex_ops :: "job_op list" where
  "ex_ops = [OpGetOrAdd ''img'' 0 5, OpAdd (ex_outcome ''a'') (newImageUnpackJob ''img'' 0 5) ''l1'']"

definition ex_added :: "string list gc_world" where
  "ex_added = (start [''old''])\<lparr>gw_jobs := fold (run_op LayerUnpackDiskStorage) ex_ops (gw_jobs (start [''old'']))\<rparr>"

definition ex_swept :: "string list gc_world" where
  "ex_swept = ex_added\<lparr>gw_inMemory := [(''a'', ''img'', 5)], gw_inStorage := [''a''],
     gw_jobs := (gw_jobs ex_added)\<lparr>uj_storage := [''a'']\<rparr>\<rparr>"

definition ex_claimed :: "string list gc_world" where
  "ex_claimed = ex_added\<lparr>gw_jobs := set_status 0 Claimed (gw_jobs ex_added), gw_claims := [0]\<rparr>"

lemmas ex_defs = ex_added_def ex_ops_def ex_outcome_def start_def newImageUnpackJob_def GetOrAddImageJob_def AddLayerJob_def
  newLayerUnpackJob_def LayerUnpackDiskStorage_def disk_Create_def generateUniqueKey_def maxRetriesUniqueID_def disk_contains_def
  disk_GetJobPath_def layer_jobs_def Let_def

lemma run_ops_steps:
  assumes "\<forall>op \<in> set ops. (\<forall>img layer. op \<noteq> OpClaim img layer) \<and> (\<forall>a. op \<noteq> OpRemove a \<and> op \<noteq> OpCancel a)"
  shows "(gc_step st)\<^sup>*\<^sup>* w (w\<lparr>gw_jobs := fold (run_op st) ops (gw_jobs w)\<rparr>)"
  using assms
proof (induction ops arbitrary: w)
  case (Cons op ops)
  have "gc_step st w (w\<lparr>gw_jobs := run_op st op (gw_jobs w)\<rparr>)" by (rule gc_step.operation) (use Cons.prems in auto)
  with Cons.IH [of "w\<lparr>gw_jobs := run_op st op (gw_jobs w)\<rparr>"] Cons.prems show ?case by (auto intro: converse_rtranclp_into_rtranclp)
qed simp

lemma ex_added_reached: "(gc_step LayerUnpackDiskStorage)\<^sup>*\<^sup>* (start [''old'']) ex_added"
  unfolding ex_added_def by (rule run_ops_steps) (simp add: ex_ops_def)

lemma ex_swept_reached: "(gc_step LayerUnpackDiskStorage)\<^sup>*\<^sup>* (start [''old'']) ex_swept"
proof -
  define w where "w = ex_added\<lparr>gw_inMemory := [(''a'', ''img'', 5)], gw_inStorage := [''old'', ''a''], gw_cancelled := {}\<rparr>"
  have "Snapshot LayerUnpackDiskStorage (ex_outcome ''b'') (gw_jobs ex_added) =
      Inr \<lparr>js_inMemory = [(''a'', ''img'', 5)], js_inStorage = [''old'', ''a'']\<rparr>"
    by (simp add: Snapshot_def ex_defs tracked_def disk_Keys_def)
  from gc_step.snapshot [OF this] have 1: "gc_step LayerUnpackDiskStorage ex_added w" by (simp add: w_def)
  have "sweep_entry LayerUnpackDiskStorage (ex_outcome ''b'') (gw_inMemory w) ''old'' (gw_jobs w) =
      ((gw_jobs w)\<lparr>uj_storage := [''a'']\<rparr>, True)"
    by (simp add: w_def sweep_entry_def ex_defs disk_Delete_def)
  from gc_step.sweep [OF _ this] have "gc_step LayerUnpackDiskStorage w
      (w\<lparr>gw_jobs := (gw_jobs w)\<lparr>uj_storage := [''a'']\<rparr>, gw_inStorage := removeAll ''old'' (gw_inStorage w)\<rparr>)"
    by (simp add: w_def)
  also have "(w\<lparr>gw_jobs := (gw_jobs w)\<lparr>uj_storage := [''a'']\<rparr>, gw_inStorage := removeAll ''old'' (gw_inStorage w)\<rparr>) = ex_swept"
    by (simp add: w_def ex_swept_def ex_defs)
  finally have 2: "gc_step LayerUnpackDiskStorage w ex_swept" .
  show ?thesis using ex_added_reached 1 2 by (meson rtranclp.rtrancl_into_rtrancl)
qed

theorem tracked_jobs_have_directories_witness:
  "0 \<in> set (tracked (gw_jobs ex_swept)) \<and> lj_id (uj_heap (gw_jobs ex_swept) ! 0) \<in> set (uj_storage (gw_jobs ex_swept)) \<and>
   uj_storage (gw_jobs ex_swept) = [''a'']"
proof -
  have t: "0 \<in> set (tracked (gw_jobs ex_swept))" by (simp add: ex_swept_def ex_defs tracked_def)
  show ?thesis using tracked_jobs_have_directories [OF ex_swept_reached t] t by (simp add: ex_swept_def)
qed

text \<open>C21: no job is given to two callers of Claim, so no directory is moved into two snapshots.\<close>

theorem claimed_at_most_once:
  assumes "(gc_step LayerUnpackDiskStorage)\<^sup>*\<^sup>* (start d) w"
  shows "distinct (gw_claims w)"
  using disk.claims_distinct [OF assms] by simp

lemma ex_claimed_reached: "(gc_step LayerUnpackDiskStorage)\<^sup>*\<^sup>* (start [''old'']) ex_claimed"
proof -
  have "Claim ''img'' ''l1'' (gw_jobs ex_added) = (set_status 0 Claimed (gw_jobs ex_added), Inr 0)"
    by (simp add: Claim_def ex_defs checkLayerExists_def claimable_def)
  from gc_step.claim [OF this] have "gc_step LayerUnpackDiskStorage ex_added ex_claimed" by (simp add: ex_claimed_def ex_defs)
  with ex_added_reached show ?thesis by simp
qed

theorem claimed_at_most_once_witness: "distinct (gw_claims ex_claimed) \<and> gw_claims ex_claimed = [0]"
  using claimed_at_most_once [OF ex_claimed_reached] by (simp add: ex_claimed_def)

section \<open>Limits\<close>

text \<open>What is relied on of the semaphore: releasing what was acquired gives the semaphore back as it was.\<close>

definition releases :: "('c, 's) weighted \<Rightarrow> bool" where
  "releases W \<longleftrightarrow> (\<forall>ctx n s s'. sw_Acquire W ctx n s = Some s' \<longrightarrow> sw_Release W n s' = s)"

lemma Release_Acquire: "releases W \<Longrightarrow> Acquire W ctx n s = Some s' \<Longrightarrow> Release W n s' = s"
  by (cases s) (auto simp: releases_def Acquire_def Release_def)

text \<open>C22: unpack leases are balanced: a failed AcquireUnpackLease leaves both limits as they were, a successful one
  is undone by the function it returns.\<close>

theorem unpack_lease_balanced:
  assumes "releases W" and "AcquireUnpackLease W ctx1 ctx2 l = (l', r)"
  shows "case r of None \<Rightarrow> l' = l | Some free \<Rightarrow> free l' = l"
proof -
  have "lim_image l = Release W 1 s" if "Acquire W ctx1 1 (lim_image l) = Some s" for s
    using Release_Acquire [OF assms(1) that] by simp
  moreover have "lim_global l = Release W 1 g" if "Acquire W ctx2 1 (lim_global l) = Some g" for g
    using Release_Acquire [OF assms(1) that] by simp
  ultimately show ?thesis using assms(2) by (cases l) (auto simp: AcquireUnpackLease_def split: option.splits)
qed

text \<open>A counting semaphore; the context says whether it ends before the permits are free.\<close>

definition counting :: "(bool, int \<times> int) weighted" where
  "counting = \<lparr>sw_NewWeighted = (\<lambda>n. (n, 0)),
     sw_Acquire = (\<lambda>live n (cap, cur). if live \<and> cur + n \<le> cap then Some (cap, cur + n) else None),
     sw_Release = (\<lambda>n (cap, cur). (cap, cur - n))\<rparr>"

lemma counting_releases: "releases counting"
  by (auto simp: releases_def counting_def split: if_splits)

theorem unpack_lease_balanced_witness:
  "AcquireUnpackLease counting True False \<lparr>lim_image = Some (2, 0), lim_global = Some (1, 1)\<rparr> =
     (\<lparr>lim_image = Some (2, 0), lim_global = Some (1, 1)\<rparr>, None)"
proof -
  have "\<exists>l'. AcquireUnpackLease counting True False \<lparr>lim_image = Some (2, 0), lim_global = Some (1, 1)\<rparr> = (l', None)"
    by (simp add: AcquireUnpackLease_def Acquire_def counting_def)
  then show ?thesis using unpack_lease_balanced [OF counting_releases, of True False] by fastforce
qed

text \<open>A download is different: when the context ends while it waits for the global limit, the permit of the image is
  kept, and the caller, which got an error, does not release it.\<close>

lemma download_permit_leaks:
  "AcquireDownload counting True False 1 \<lparr>lim_image = Some (2, 0), lim_global = Some (1, 1)\<rparr> =
     (\<lparr>lim_image = Some (2, 1), lim_global = Some (1, 1)\<rparr>, False)"
  by (simp add: AcquireDownload_def Acquire_def counting_def)

end
