(* ===== verification/Unpack_Pull.thy ===== *)
theory Unpack_Pull
  imports Unpack_Runs
begin

text \<open>
  The parts of \<^verbatim>\<open>fs/fs.go\<close> that work on the unpack jobs: \<^verbatim>\<open>preloadAllLayers\<close> makes a job for every layer from the
  requested one on, \<^verbatim>\<open>premount\<close> removes the image of a job that failed, and \<^verbatim>\<open>rebase\<close> claims the job of a layer, waits
  for it, moves its directory to the mount point and removes the job.
\<close>

section \<open>Preloading\<close>

text \<open>
  One round of the loop over the layers of the manifest: the layer, the outcome of its system calls, and
  what other goroutines do to the table before the round.
\<close>

record layer_round =
  lr_digest :: string
  lr_isLayer :: bool
  lr_outcome :: disk_outcome
  lr_ops :: "job_op list"

datatype preload_error = InitialFetchError | AddError job_error

text \<open>\<open>initial\<close> is the outcome of \<^verbatim>\<open>doInitialFetch\<close>, \<^const>\<open>None\<close> when it is not called.\<close>

fun premountAll ::
    "'d job_storage_ops \<Rightarrow> string \<Rightarrow> bool option \<Rightarrow> image_job \<Rightarrow> bool \<Rightarrow> layer_round list \<Rightarrow> 'd unpack_jobs \<Rightarrow>
     'd unpack_jobs \<times> (preload_error + nat list)" where
  "premountAll st desc initial imageJob startPremounting [] jobs = (jobs, Inr [])"
| "premountAll st desc initial imageJob startPremounting (l # ls) jobs =
     (let jobs0 = fold (run_op st) (lr_ops l) jobs in
      if \<not> lr_isLayer l then premountAll st desc initial imageJob startPremounting ls jobs0
      else if lr_digest l = desc \<and> initial = Some False then (jobs0, Inl InitialFetchError)
      else if startPremounting \<or> lr_digest l = desc
      then (case AddLayerJob st (lr_outcome l) imageJob (lr_digest l) jobs0 of
              (jobs1, Inl e) \<Rightarrow> (jobs1, Inl (AddError e))
            | (jobs1, Inr a) \<Rightarrow>
              (case premountAll st desc initial imageJob True ls jobs1 of (jobs2, r) \<Rightarrow> (jobs2, map_sum id (Cons a) r)))
      else premountAll st desc initial imageJob False ls jobs0)"

text \<open>
  What \<^verbatim>\<open>preloadAllLayers\<close> returns. It is the \<^verbatim>\<open>err\<close> of the enclosing function, which only \<^verbatim>\<open>doInitialFetch\<close> sets: the
  error of \<^verbatim>\<open>AddLayerJob\<close> is a variable of its own.
\<close>

datatype preload_result = Returned "preload_error option" | Panicked

definition preloadAllLayers ::
    "'d job_storage_ops \<Rightarrow> string \<Rightarrow> nat \<Rightarrow> int \<Rightarrow> string \<Rightarrow> bool option \<Rightarrow> layer_round list \<Rightarrow> 'd unpack_jobs \<Rightarrow>
     'd unpack_jobs \<times> preload_result" where
  "preloadAllLayers st imageDigest ctx now desc initial layers jobs =
     (case GetOrAddImageJob imageDigest ctx now jobs of (jobs1, imageJob) \<Rightarrow>
        (case premountAll st desc initial imageJob False layers jobs1 of
           (jobs2, Inr as) \<Rightarrow> (jobs2, Returned None)
         | (jobs2, Inl InitialFetchError) \<Rightarrow> (fst (RemoveImageWithError imageDigest jobs2), Returned (Some InitialFetchError))
         | (jobs2, Inl (AddError e)) \<Rightarrow>
             if e = JobPanic then (jobs2, Panicked)
             else (fst (RemoveImageWithError imageDigest jobs2), Returned None)))"

text \<open>The deferred function of \<^verbatim>\<open>premount\<close>, and what it sends to \<^verbatim>\<open>rebase\<close>.\<close>

definition premount_finish :: "bool \<Rightarrow> bool \<Rightarrow> nat \<Rightarrow> 'd unpack_jobs \<Rightarrow> 'd unpack_jobs \<times> bool" where
  "premount_finish ctx_ended failed a jobs =
     (let err = ctx_ended \<or> failed in
      (if err then fst (RemoveImageWithError (lj_image (uj_heap jobs ! a)) jobs) else jobs, err))"

section \<open>Rebasing\<close>

datatype mount_state =
    MountMissing | MountStatError | MountFile | MountDirUnopened | MountDirEmpty | MountDirNotEmpty | MountDirReadError

datatype rebase_error =
    ClaimError job_error | CtxDone | UnpackFailed | JobWasCancelled | TempDirMissing | MountUnopened | MountExists
  | MountUnread | MountUnknown | MkdirFailed | RenameFailed

text \<open>What becomes of the mount point: left as it was, removed, or replaced by the unpacked layer.\<close>

datatype mount_effect = MountUntouched | MountRemoved | MountReplaced

record rebase_env =
  rb_ops :: "job_op list"
  rb_ctx_done :: bool
  rb_unpack_failed :: bool
  rb_temp :: bool
  rb_mount :: mount_state
  rb_removeall :: bool
  rb_mkdir :: bool
  rb_rename :: bool

text \<open>
  The body of \<^verbatim>\<open>rebase\<close> after the claim: what it returns, whether the variable \<^verbatim>\<open>err\<close> that its deferred function
  looks at is set, and what it does to the mount point. A new error returned without being assigned, and the errors of
  the inner \<^verbatim>\<open>err\<close> of the check of the mount point, do not set \<^verbatim>\<open>err\<close>. The error of \<^verbatim>\<open>os.RemoveAll\<close> is not looked at; when the
  mount point is still there the rename fails.
\<close>

definition rebase_body :: "rebase_env \<Rightarrow> job_status \<Rightarrow> rebase_error option \<times> bool \<times> mount_effect" where
  "rebase_body env status =
     (if rb_ctx_done env then (Some CtxDone, True, MountUntouched)
      else if rb_unpack_failed env then (Some UnpackFailed, True, MountUntouched)
      else if status = JobCancelled then (Some JobWasCancelled, False, MountUntouched)
      else if \<not> rb_temp env then (Some TempDirMissing, True, MountUntouched)
      else case rb_mount env of
        MountDirUnopened \<Rightarrow> (Some MountUnopened, False, MountUntouched)
      | MountDirNotEmpty \<Rightarrow> (Some MountExists, False, MountUntouched)
      | MountDirReadError \<Rightarrow> (Some MountUnread, False, MountUntouched)
      | MountStatError \<Rightarrow> (Some MountUnknown, True, MountUntouched)
      | _ \<Rightarrow>
          let removed = (rb_mount env \<noteq> MountMissing \<and> rb_removeall env);
              eff = (if removed then MountRemoved else MountUntouched) in
          if \<not> rb_mkdir env then (Some MkdirFailed, True, eff)
          else if \<not> rb_rename env \<or> (rb_mount env \<noteq> MountMissing \<and> \<not> removed) then (Some RenameFailed, True, eff)
          else (None, False, MountReplaced))"
definition rebase_finish :: "bool \<Rightarrow> nat \<Rightarrow> 'd unpack_jobs \<Rightarrow> 'd unpack_jobs" where
  "rebase_finish err a jobs =
     (if err then fst (RemoveImageWithError (lj_image (uj_heap jobs ! a)) (layer_Cancel a jobs)) else fst (remove_job a jobs))"

text \<open>The table, the ID of the directory that was moved, what became of the mount point, and the result.\<close>

definition rebase ::
    "'d job_storage_ops \<Rightarrow> rebase_env \<Rightarrow> string \<Rightarrow> string \<Rightarrow> 'd unpack_jobs \<Rightarrow>
     'd unpack_jobs \<times> string option \<times> mount_effect \<times> rebase_error option" where
  "rebase st env imageDigest dgst jobs =
     (case Claim imageDigest dgst jobs of
        (jobs1, Inl e) \<Rightarrow> (fst (RemoveImageWithError imageDigest jobs1), None, MountUntouched, Some (ClaimError e))
      | (jobs1, Inr a) \<Rightarrow>
          let jobs2 = fold (run_op st) (rb_ops env) jobs1 in
          (case rebase_body env (lj_status (uj_heap jobs2 ! a)) of (r, err, eff) \<Rightarrow>
             (rebase_finish err a jobs2, if r = None then Some (lj_id (uj_heap jobs2 ! a)) else None, eff, r)))"
section \<open>The table\<close>

text \<open>
  The table is a map of maps, and a job stands once in it, below its own image and layer.
\<close>

definition layers_wf :: "layer_job list \<Rightarrow> string \<Rightarrow> image_job \<Rightarrow> bool" where
  "layers_wf heap img ij \<longleftrightarrow> ij_digest ij = img \<and> distinct (map fst (ij_layers ij)) \<and>
     (\<forall>(l, js) \<in> set (ij_layers ij). distinct js \<and> (\<forall>a \<in> set js. a < length heap \<and> lj_image (heap ! a) = img \<and> lj_layer (heap ! a) = l))"

definition table_wf :: "'d unpack_jobs \<Rightarrow> bool" where
  "table_wf jobs \<longleftrightarrow> distinct (map fst (uj_images jobs)) \<and>
     (\<forall>(img, ij) \<in> set (uj_images jobs). layers_wf (uj_heap jobs) img ij)"

lemma layer_jobs_mem: "distinct (map fst (ij_layers ij)) \<Longrightarrow> (l, js) \<in> set (ij_layers ij) \<Longrightarrow> layer_jobs ij l = js"
  by (simp add: layer_jobs_def)

lemma layers_wf_heap:
  assumes "layers_wf heap img ij" and "length heap \<le> length heap'"
    and "\<And>a. a < length heap \<Longrightarrow> lj_image (heap' ! a) = lj_image (heap ! a) \<and> lj_layer (heap' ! a) = lj_layer (heap ! a)"
  shows "layers_wf heap' img ij"
  using assms unfolding layers_wf_def by fastforce

lemma layers_wf_update:
  assumes "layers_wf heap img ij" and "distinct js"
    and "\<And>a. a \<in> set js \<Longrightarrow> a < length heap \<and> lj_image (heap ! a) = img \<and> lj_layer (heap ! a) = l"
  shows "layers_wf heap img (ij\<lparr>ij_layers := AList.update l js (ij_layers ij)\<rparr>)"
  using assms unfolding layers_wf_def by (fastforce simp: distinct_update dest!: in_alist_update)

lemma layers_wf_delete:
  "layers_wf heap img ij \<Longrightarrow> layers_wf heap img (ij\<lparr>ij_layers := AList.delete l (ij_layers ij)\<rparr>)"
  unfolding layers_wf_def by (auto simp: set_alist_delete distinct_delete)

lemma layers_wf_jobs:
  assumes "layers_wf heap img ij"
  shows "distinct (layer_jobs ij l)"
    and "a \<in> set (layer_jobs ij l) \<Longrightarrow> a < length heap \<and> lj_image (heap ! a) = img \<and> lj_layer (heap ! a) = l"
  using assms by (auto simp: layers_wf_def layer_jobs_def split: option.splits dest!: map_of_SomeD)

lemma table_wf_images:
  assumes "table_wf jobs" and "map_of (uj_images jobs) img = Some ij"
  shows "layers_wf (uj_heap jobs) img ij"
  using assms map_of_SomeD unfolding table_wf_def by fastforce

lemma table_wf_update:
  assumes "table_wf jobs" and "layers_wf (uj_heap jobs) img ij"
  shows "table_wf (jobs\<lparr>uj_images := AList.update img ij (uj_images jobs)\<rparr>)"
  using assms unfolding table_wf_def by (auto simp: distinct_update dest!: in_alist_update)

lemma table_wf_delete: "table_wf jobs \<Longrightarrow> table_wf (jobs\<lparr>uj_images := AList.delete img (uj_images jobs)\<rparr>)"
  unfolding table_wf_def by (auto simp: set_alist_delete distinct_delete)

lemma table_wf_heap:
  assumes "table_wf jobs" and "uj_images jobs' = uj_images jobs" and "length (uj_heap jobs) \<le> length (uj_heap jobs')"
    and "\<And>a. a < length (uj_heap jobs) \<Longrightarrow> lj_image (uj_heap jobs' ! a) = lj_image (uj_heap jobs ! a) \<and>
      lj_layer (uj_heap jobs' ! a) = lj_layer (uj_heap jobs ! a)"
  shows "table_wf jobs'"
proof -
  have "layers_wf (uj_heap jobs') img ij" if "(img, ij) \<in> set (uj_images jobs)" for img ij
  proof -
    have "layers_wf (uj_heap jobs) img ij" using assms(1) that by (auto simp: table_wf_def)
    then show ?thesis by (rule layers_wf_heap) (use assms(3,4) in auto)
  qed
  then show ?thesis using assms(1,2) by (auto simp: table_wf_def)
qed

lemma set_status_wf: "table_wf jobs \<Longrightarrow> table_wf (set_status a s jobs)"
  by (rule table_wf_heap) (auto simp: set_status_def nth_upd)

lemma cancel_ctx_wf: "table_wf (cancel_ctx c jobs) = table_wf jobs"
  by (simp add: table_wf_def cancel_ctx_def)

lemma cancel_delete_wf: "table_wf jobs \<Longrightarrow> table_wf (cancel_ctx c jobs\<lparr>uj_images := AList.delete img (uj_images jobs)\<rparr>)"
  unfolding table_wf_def by (auto simp: cancel_ctx_def set_alist_delete distinct_delete)

lemma GetOrAdd_wf: "table_wf jobs \<Longrightarrow> table_wf (fst (GetOrAddImageJob img ctx now jobs))"
  using table_wf_update [of jobs img "newImageUnpackJob img ctx now"]
  by (simp add: GetOrAddImageJob_def Let_def layers_wf_def newImageUnpackJob_def split: option.split)

lemma RemoveImage_wf: "table_wf jobs \<Longrightarrow> table_wf (fst (RemoveImageWithError img jobs))"
  by (simp add: RemoveImageWithError_def cancel_delete_wf split: option.split)

lemma Claim_wf: "table_wf jobs \<Longrightarrow> table_wf (fst (Claim img layer jobs))"
  by (simp add: Claim_def set_status_wf split: sum.split option.split)

lemma AddLayerJob_wf:
  assumes "table_wf jobs"
  shows "table_wf (fst (AddLayerJob st oc imageJob layer jobs))"
proof -
  obtain d r where n: "newLayerUnpackJob st oc imageJob layer (uj_storage jobs) = (d, r)" by fastforce
  show ?thesis
  proof (cases r)
    case (Inl e)
    then show ?thesis using assms n by (simp add: AddLayerJob_def table_wf_def)
  next
    case (Inr lj)
    have lj: "lj_image lj = ij_digest imageJob" "lj_layer lj = layer"
      using n Inr by (auto simp: newLayerUnpackJob_def split: prod.splits sum.splits)
    show ?thesis
    proof (cases "map_of (uj_images jobs) (ij_digest imageJob)")
      case None
      then show ?thesis using assms n Inr by (simp add: AddLayerJob_def table_wf_def)
    next
      case (Some ij)
      define jobs1 where "jobs1 = jobs\<lparr>uj_storage := d, uj_heap := uj_heap jobs @ [lj]\<rparr>"
      define js where "js = layer_jobs ij layer @ [length (uj_heap jobs)]"
      have 1: "table_wf jobs1" by (rule table_wf_heap [OF assms]) (simp_all add: jobs1_def nth_append)
      note J = layers_wf_jobs [OF table_wf_images [OF assms Some], where l = layer]
      have "layers_wf (uj_heap jobs1) (ij_digest imageJob) ij"
        using table_wf_images [OF 1, of "ij_digest imageJob"] Some by (simp add: jobs1_def)
      then have "layers_wf (uj_heap jobs1) (ij_digest imageJob) (ij\<lparr>ij_layers := AList.update layer js (ij_layers ij)\<rparr>)"
        by (rule layers_wf_update) (use J lj in \<open>auto simp: js_def jobs1_def nth_append dest: less_imp_neq\<close>)
      from table_wf_update [OF 1 this] show ?thesis
        using n Inr Some by (simp add: AddLayerJob_def Let_def jobs1_def js_def)
    qed
  qed
qed

lemma remove_job_wf:
  assumes "table_wf jobs"
  shows "table_wf (fst (remove_job a jobs))"
proof -
  define j where "j = uj_heap jobs ! a"
  show ?thesis
  proof (cases "checkLayerExists (lj_image j) (lj_layer j) jobs")
    case (Inl e)
    then show ?thesis using assms by (simp add: remove_job_def j_def [symmetric] Let_def)
  next
    case (Inr ij)
    note W = table_wf_images [OF assms checkLayerExists_Inr [OF Inr]]
    note J = layers_wf_jobs [OF W, where l = "lj_layer j"]
    have u: "layers_wf (uj_heap jobs) (lj_image j) (ij\<lparr>ij_layers := AList.update (lj_layer j) (remove1 b (layer_jobs ij (lj_layer j))) (ij_layers ij)\<rparr>)" for b
      by (rule layers_wf_update [OF W]) (use J notin_set_remove1 in \<open>auto simp: distinct_remove1\<close>)
    show ?thesis
      using Inr table_wf_update [OF assms u] table_wf_update [OF assms layers_wf_delete [OF W]] cancel_delete_wf [OF assms] assms
      by (simp add: remove_job_def j_def [symmetric] Let_def split: option.split)
  qed
qed

lemma run_op_wf: "table_wf jobs \<Longrightarrow> table_wf (run_op st op jobs)"
  by (cases op) (simp_all add: GetOrAdd_wf AddLayerJob_wf Claim_wf remove_job_wf RemoveImage_wf layer_Cancel_def set_status_wf cancel_ctx_wf)

text \<open>A job is in progress, claimed or cancelled; the other states are never entered.\<close>

definition status_wf :: "'d unpack_jobs \<Rightarrow> bool" where
  "status_wf jobs \<longleftrightarrow> (\<forall>j \<in> set (uj_heap jobs). lj_status j \<in> {InProgress, Claimed, JobCancelled})"

lemma set_status_status: "status_wf jobs \<Longrightarrow> s \<in> {Claimed, JobCancelled} \<Longrightarrow> status_wf (set_status a s jobs)"
  using set_update_subset_insert [of "uj_heap jobs" a "(uj_heap jobs ! a)\<lparr>lj_status := s\<rparr>"]
  by (auto simp: status_wf_def set_status_def)


lemma heap_kept:
  "uj_heap (cancel_ctx c jobs) = uj_heap jobs"
  "uj_heap (fst (GetOrAddImageJob img ctx now jobs)) = uj_heap jobs"
  "uj_heap (fst (RemoveImageWithError img jobs)) = uj_heap jobs"
  "uj_heap (fst (remove_job a jobs)) = uj_heap jobs"
  by (simp_all add: cancel_ctx_def GetOrAddImageJob_def RemoveImageWithError_def remove_job_def Let_def split: option.split sum.split)

lemma AddLayerJob_heap:
  "AddLayerJob st oc imageJob layer jobs = (jobs', r) \<Longrightarrow>
   uj_heap jobs' = uj_heap jobs \<or> (\<exists>lj. uj_heap jobs' = uj_heap jobs @ [lj] \<and> lj_status lj = InProgress \<and> lj_layer lj = layer)"
  by (auto simp: AddLayerJob_def newLayerUnpackJob_def Let_def split: prod.splits sum.splits option.splits)

lemma run_op_status:
  assumes "status_wf jobs"
  shows "status_wf (run_op st op jobs)"
proof (cases op)
  case (OpAdd oc imageJob layer)
  obtain jobs' r where "AddLayerJob st oc imageJob layer jobs = (jobs', r)" by fastforce
  with AddLayerJob_heap [OF this] show ?thesis using assms OpAdd by (auto simp: status_wf_def)
next
  case (OpClaim img layer)
  then show ?thesis using assms by (auto simp: Claim_def set_status_status split: sum.split option.split)
next
  case (OpCancel a)
  have "status_wf (cancel_ctx c jobs)" for c using assms by (simp add: status_wf_def heap_kept)
  then show ?thesis using OpCancel by (simp add: layer_Cancel_def set_status_status)
qed (use assms in \<open>simp_all add: status_wf_def heap_kept\<close>)

lemma step_wf:
  assumes "gc_step st w w'" and "table_wf (gw_jobs w)" and "status_wf (gw_jobs w)"
  shows "table_wf (gw_jobs w') \<and> status_wf (gw_jobs w')"
  using assms(1)
proof cases
  case (operation op)
  then show ?thesis using run_op_wf [OF assms(2)] run_op_status [OF assms(3)] by simp
next
  case (claim img layer jobs a)
  then show ?thesis using run_op_wf [OF assms(2), of st "OpClaim img layer"] run_op_status [OF assms(3), of st "OpClaim img layer"] by simp
next
  case (expire e now expiry jobs cancelled dropped)
  obtain i img t where e: "e = (i, img, t)" by (cases e) auto
  have "jobs = gw_jobs w \<or> jobs = fst (RemoveImageWithError img (gw_jobs w))"
    using expire(3) unfolding e expire_entry_def by (auto split: if_splits prod.splits option.splits)
  then show ?thesis using expire(1) assms(2,3) RemoveImage_wf [OF assms(2)] by (auto simp: status_wf_def heap_kept)
next
  case (sweep i oc jobs deleted)
  have "uj_images jobs = uj_images (gw_jobs w) \<and> uj_heap jobs = uj_heap (gw_jobs w)"
    using sweep(3) by (auto simp: sweep_entry_def split: if_splits prod.splits option.splits)
  then show ?thesis using sweep(1) assms(2,3) by (simp add: table_wf_def status_wf_def)
qed (use assms(2,3) in simp)

lemma reach_wf: "(gc_step st)\<^sup>*\<^sup>* (start d) w \<Longrightarrow> table_wf (gw_jobs w) \<and> status_wf (gw_jobs w)"
proof (induction rule: rtranclp_induct)
  case base
  then show ?case by (simp add: start_def table_wf_def status_wf_def)
next
  case (step w w')
  then show ?case using step_wf by blast
qed

text \<open>Any operations of other goroutines, claims included, are steps.\<close>

definition ops_ok :: "'d unpack_jobs \<Rightarrow> job_op list \<Rightarrow> bool" where
  "ops_ok jobs ops \<longleftrightarrow> (\<forall>a. OpRemove a \<in> set ops \<or> OpCancel a \<in> set ops \<longrightarrow> a < length (uj_heap jobs))"

lemma run_op_length: "length (uj_heap jobs) \<le> length (uj_heap (run_op st op jobs))"
proof (cases op)
  case (OpAdd oc imageJob layer)
  obtain jobs' r where "AddLayerJob st oc imageJob layer jobs = (jobs', r)" by fastforce
  with AddLayerJob_heap [OF this] OpAdd show ?thesis by auto
next
  case (OpClaim img layer)
  then show ?thesis by (auto simp: Claim_def set_status_def split: sum.split option.split)
next
  case (OpCancel a)
  then show ?thesis by (simp add: layer_Cancel_def set_status_def heap_kept)
qed (simp_all add: heap_kept)

lemma run_op_steps:
  assumes "\<And>a. op = OpRemove a \<or> op = OpCancel a \<Longrightarrow> a < length (uj_heap (gw_jobs w))"
  shows "\<exists>w'. (gc_step st)\<^sup>*\<^sup>* w w' \<and> gw_jobs w' = run_op st op (gw_jobs w) \<and> set (gw_claims w) \<subseteq> set (gw_claims w')"
proof (cases "\<exists>img layer. op = OpClaim img layer")
  case True
  then obtain img layer where op: "op = OpClaim img layer" by blast
  obtain jobs r where C: "Claim img layer (gw_jobs w) = (jobs, r)" by fastforce
  show ?thesis
  proof (cases r)
    case (Inl e)
    then have "jobs = gw_jobs w" using C by (auto simp: Claim_def split: sum.splits option.splits)
    then show ?thesis using C op by auto
  next
    case (Inr b)
    from gc_step.claim [OF C [unfolded Inr]]
    have "(gc_step st)\<^sup>*\<^sup>* w (w\<lparr>gw_jobs := jobs, gw_claims := gw_claims w @ [b]\<rparr>)" by (rule r_into_rtranclp)
    then show ?thesis using C op by (intro exI [of _ "w\<lparr>gw_jobs := jobs, gw_claims := gw_claims w @ [b]\<rparr>"]) auto
  qed
next
  case False
  have "gc_step st w (w\<lparr>gw_jobs := run_op st op (gw_jobs w)\<rparr>)" by (rule gc_step.operation) (use False assms in auto)
  then show ?thesis by (intro exI [of _ "w\<lparr>gw_jobs := run_op st op (gw_jobs w)\<rparr>"]) auto
qed

lemma run_ops_reach:
  assumes "ops_ok (gw_jobs w) ops"
  shows "\<exists>w'. (gc_step st)\<^sup>*\<^sup>* w w' \<and> gw_jobs w' = fold (run_op st) ops (gw_jobs w) \<and> set (gw_claims w) \<subseteq> set (gw_claims w')"
  using assms
proof (induction ops arbitrary: w)
  case (Cons op ops)
  obtain w1 where w1: "(gc_step st)\<^sup>*\<^sup>* w w1" "gw_jobs w1 = run_op st op (gw_jobs w)" "set (gw_claims w) \<subseteq> set (gw_claims w1)"
    using run_op_steps [of op w st] Cons.prems by (auto simp: ops_ok_def)
  have "ops_ok (gw_jobs w1) ops" using Cons.prems run_op_length [of "gw_jobs w" st op] unfolding ops_ok_def w1(2) by fastforce
  from Cons.IH [OF this] obtain w2 where "(gc_step st)\<^sup>*\<^sup>* w1 w2" "gw_jobs w2 = fold (run_op st) ops (gw_jobs w1)"
    "set (gw_claims w1) \<subseteq> set (gw_claims w2)" by blast
  then show ?case using w1 rtranclp_trans [of "gc_step st" w w1 w2] by (intro exI [of _ w2]) auto
qed auto

section \<open>A claimed job leaves the table\<close>

lemma tracked_wf:
  assumes "table_wf jobs" and "tracked_in jobs img a"
  shows "img = lj_image (uj_heap jobs ! a)" and "a < length (uj_heap jobs)"
    and "\<exists>ij. map_of (uj_images jobs) img = Some ij \<and> a \<in> set (layer_jobs ij (lj_layer (uj_heap jobs ! a)))"
proof -
  obtain ij l js where t: "(img, ij) \<in> set (uj_images jobs)" "(l, js) \<in> set (ij_layers ij)" "a \<in> set js"
    using assms(2) unfolding tracked_in_def by blast
  have W: "layers_wf (uj_heap jobs) img ij" and m: "map_of (uj_images jobs) img = Some ij"
    using assms(1) t(1) by (auto simp: table_wf_def)
  have "lj_image (uj_heap jobs ! a) = img \<and> lj_layer (uj_heap jobs ! a) = l \<and> a < length (uj_heap jobs) \<and> layer_jobs ij l = js"
    using W t(2,3) layer_jobs_mem [of ij l js] unfolding layers_wf_def by fastforce
  then show "img = lj_image (uj_heap jobs ! a)" "a < length (uj_heap jobs)"
    "\<exists>ij. map_of (uj_images jobs) img = Some ij \<and> a \<in> set (layer_jobs ij (lj_layer (uj_heap jobs ! a)))"
    using m t(3) by auto
qed

lemma layer_jobs_changed:
  "layer_jobs (ij\<lparr>ij_layers := AList.update l js (ij_layers ij)\<rparr>) l = js"
  "layer_jobs (ij\<lparr>ij_layers := AList.delete l (ij_layers ij)\<rparr>) l = []"
  by (simp_all add: layer_jobs_def update_conv' delete_conv')

lemma remove_job_drops:
  assumes wf: "table_wf jobs" and ids: "\<And>img img' b. tracked_in jobs img b \<Longrightarrow> tracked_in jobs img' a \<Longrightarrow>
      lj_id (uj_heap jobs ! b) = lj_id (uj_heap jobs ! a) \<Longrightarrow> b = a"
    and status: "lj_status (uj_heap jobs ! a) \<in> {Claimed, JobCancelled}"
  shows "\<not> tracked_in (fst (remove_job a jobs)) img a"
proof
  assume t': "tracked_in (fst (remove_job a jobs)) img a"
  define j where "j = uj_heap jobs ! a"
  note T = tracked_wf [OF wf shrinksD(1) [OF remove_shrinks t']]
  have img: "img = lj_image j" using T(1) by (simp add: j_def)
  obtain ij where ij: "map_of (uj_images jobs) (lj_image j) = Some ij" "a \<in> set (layer_jobs ij (lj_layer j))"
    using T(3) unfolding img j_def by blast
  define js where "js = layer_jobs ij (lj_layer j)"
  have ex: "checkLayerExists (lj_image j) (lj_layer j) jobs = Inr ij"
  proof -
    have "layer_jobs ij (lj_layer j) \<noteq> []" using ij(2) by auto
    moreover from this have "ij_layers ij \<noteq> []" by (auto simp: layer_jobs_def)
    ultimately show ?thesis using ij(1) by (simp add: checkLayerExists_def)
  qed
  have f: "find (\<lambda>b. lj_id (uj_heap jobs ! b) = lj_id j) js = Some a"
  proof -
    have "find (\<lambda>b. lj_id (uj_heap jobs ! b) = lj_id j) js \<noteq> None"
      using ij(2) by (auto simp: find_None_iff j_def js_def)
    then obtain b where b: "find (\<lambda>b. lj_id (uj_heap jobs ! b) = lj_id j) js = Some b" by blast
    then have "b \<in> set js" "lj_id (uj_heap jobs ! b) = lj_id j" by (auto simp: find_Some_iff)
    then have "b = a" using ids [of "lj_image j" b "lj_image j"] layer_jobs_tracked [OF ij(1)] ij(2) by (simp add: js_def j_def)
    with b show ?thesis by simp
  qed
  have d: "a \<notin> set (remove1 a js)"
    using layers_wf_jobs(1) [OF table_wf_images [OF wf ij(1)], of "lj_layer j"] by (simp add: js_def)
  obtain ij' where ij': "map_of (uj_images (fst (remove_job a jobs))) (lj_image j) = Some ij'" "a \<in> set (layer_jobs ij' (lj_layer j))"
    using tracked_wf(3) [OF remove_job_wf [OF wf] t'] unfolding heap_kept img j_def by blast
  show False
    using ij' status d unfolding remove_job_def Let_def j_def [symmetric] ex sum.case js_def [symmetric] f option.case
    by (auto simp: layer_jobs_changed update_conv' delete_conv' split: if_splits)
qed

lemma RemoveImage_drops: "\<not> tracked_in (fst (RemoveImageWithError img jobs)) img a"
proof (cases "map_of (uj_images jobs) img")
  case None
  then have "\<not> tracked_in jobs img a" by (auto simp: tracked_in_def map_of_eq_None_iff) (metis fst_conv image_eqI)
  then show ?thesis using None by (simp add: RemoveImageWithError_def)
next
  case (Some ij)
  then show ?thesis by (auto simp: RemoveImageWithError_def tracked_in_def set_alist_delete)
qed

lemma rebase_finish_drops:
  assumes "table_wf jobs" and "\<And>img img' b. tracked_in jobs img b \<Longrightarrow> tracked_in jobs img' a \<Longrightarrow>
      lj_id (uj_heap jobs ! b) = lj_id (uj_heap jobs ! a) \<Longrightarrow> b = a"
    and "lj_status (uj_heap jobs ! a) \<in> {Claimed, JobCancelled}"
  shows "\<not> tracked_in (rebase_finish err a jobs) img a"
proof (cases err)
  case True
  have "table_wf (layer_Cancel a jobs)" using assms(1) by (simp add: layer_Cancel_def set_status_wf cancel_ctx_wf)
  then have wf: "table_wf (fst (RemoveImageWithError (lj_image (uj_heap jobs ! a)) (layer_Cancel a jobs)))" by (rule RemoveImage_wf)
  show ?thesis
  proof
    assume "tracked_in (rebase_finish err a jobs) img a"
    then have t: "tracked_in (fst (RemoveImageWithError (lj_image (uj_heap jobs ! a)) (layer_Cancel a jobs))) img a"
      using True by (simp add: rebase_finish_def)
    from tracked_wf(1) [OF wf this] have "img = lj_image (uj_heap jobs ! a)"
      by (simp add: heap_kept layer_Cancel_def set_status_def nth_upd split: if_splits)
    with t RemoveImage_drops show False by blast
  qed
next
  case False
  then show ?thesis using remove_job_drops [OF assms] by (simp add: rebase_finish_def)
qed

context job_storage
begin

lemma rebase_drops:
  assumes r: "(gc_step st)\<^sup>*\<^sup>* (start d) w" and C: "Claim img dgst (gw_jobs w) = (jobs1, Inr a)" and ok: "ops_ok (gw_jobs w) (rb_ops env)"
  shows "\<not> tracked_in (fst (rebase st env img dgst (gw_jobs w))) img' a"
proof -
  let ?w1 = "w\<lparr>gw_jobs := jobs1, gw_claims := gw_claims w @ [a]\<rparr>"
  have r1: "(gc_step st)\<^sup>*\<^sup>* (start d) ?w1" using r gc_step.claim [OF C] by (rule rtranclp.rtrancl_into_rtrancl)
  have "ops_ok (gw_jobs ?w1) (rb_ops env)"
    using ok run_op_length [of "gw_jobs w" st "OpClaim img dgst"] C by (fastforce simp: ops_ok_def)
  from run_ops_reach [OF this, of st] obtain w2 where w2: "(gc_step st)\<^sup>*\<^sup>* ?w1 w2" "gw_jobs w2 = fold (run_op st) (rb_ops env) jobs1"
    "set (gw_claims ?w1) \<subseteq> set (gw_claims w2)" by auto
  have r2: "(gc_step st)\<^sup>*\<^sup>* (start d) w2" using r1 w2(1) by (rule rtranclp_trans)
  have a: "a < length (uj_heap (gw_jobs w2))" "lj_status (uj_heap (gw_jobs w2) ! a) \<noteq> InProgress"
    using claims_distinct [OF r2] w2(3) by auto
  have s: "lj_status (uj_heap (gw_jobs w2) ! a) \<in> {Claimed, JobCancelled}"
    using reach_wf [OF r2] a nth_mem [OF a(1)] unfolding status_wf_def by auto
  note i = jobs_invD(4) [OF inv_reach [OF r2]]
  obtain r err eff where b: "rebase_body env (lj_status (uj_heap (gw_jobs w2) ! a)) = (r, err, eff)" by (metis prod_cases3)
  have "fst (rebase st env img dgst (gw_jobs w)) = rebase_finish err a (gw_jobs w2)"
    using C w2(2) b by (simp add: rebase_def Let_def)
  moreover have "\<not> tracked_in (rebase_finish err a (gw_jobs w2)) img' a"
    by (rule rebase_finish_drops [OF _ _ s]) (use reach_wf [OF r2] i in blast)+
  ultimately show ?thesis by simp
qed

end

text \<open>C8: whatever other goroutines do between the claim and the end of rebase, and however rebase ends, the job that it
  claimed is no longer in the table, so its directory is left to the garbage collector.\<close>

theorem rebase_drops_job:
  assumes "(gc_step LayerUnpackDiskStorage)\<^sup>*\<^sup>* (start d) w" and "Claim img dgst (gw_jobs w) = (jobs1, Inr a)"
    and "ops_ok (gw_jobs w) (rb_ops env)"
  shows "a \<notin> set (tracked (fst (rebase LayerUnpackDiskStorage env img dgst (gw_jobs w))))"
  using disk.rebase_drops [OF assms] by (simp add: tracked_iff)

definition ex_rebase :: rebase_env where
  "ex_rebase = \<lparr>rb_ops = [OpGetOrAdd ''img'' 1 7, OpCancel 0], rb_ctx_done = False, rb_unpack_failed = False, rb_temp = True,
     rb_mount = MountDirNotEmpty, rb_removeall = True, rb_mkdir = True, rb_rename = True\<rparr>"

theorem rebase_drops_job_witness:
  "0 \<in> set (tracked (gw_jobs ex_added)) \<and>
   0 \<notin> set (tracked (fst (rebase LayerUnpackDiskStorage ex_rebase ''img'' ''l1'' (gw_jobs ex_added))))"
proof -
  have C: "Claim ''img'' ''l1'' (gw_jobs ex_added) = (set_status 0 Claimed (gw_jobs ex_added), Inr 0)"
    by (simp add: Claim_def ex_defs checkLayerExists_def claimable_def)
  have "0 \<in> set (tracked (gw_jobs ex_added))" by (simp add: ex_defs tracked_def)
  moreover have "ops_ok (gw_jobs ex_added) (rb_ops ex_rebase)" by (auto simp: ops_ok_def ex_rebase_def ex_defs)
  ultimately show ?thesis using rebase_drops_job [OF ex_added_reached C, of ex_rebase] by blast
qed

section \<open>Preloading makes the jobs\<close>



























definition ex_round :: "string \<Rightarrow> string \<Rightarrow> job_op list \<Rightarrow> layer_round" where
  "ex_round d k ops = \<lparr>lr_digest = d, lr_isLayer = True, lr_outcome = ex_outcome k, lr_ops = ops\<rparr>"



text \<open>A directory that cannot be made is not reported: preloading returns no error and has removed the image.\<close>

lemma preload_hides_failure:
  assumes "GetOrAddImageJob img ctx now jobs = (jobs1, imageJob)"
    and "premountAll st desc initial imageJob False layers jobs1 = (jobs2, Inl (AddError e))" and "e \<noteq> JobPanic"
  shows "snd (preloadAllLayers st img ctx now desc initial layers jobs) = Returned None \<and>
    \<not> tracked_in (fst (preloadAllLayers st img ctx now desc initial layers jobs)) img a"
  using assms RemoveImage_drops by (simp add: preloadAllLayers_def)

text \<open>C40: when the unpacking of a layer fails and removes the image while the jobs of later layers are being made, the next
  AddLayerJob dereferences the missing image and the process panics.\<close>

theorem removed_image_panics:
  assumes "map_of (uj_images jobs) img = None" and "lr_isLayer l1" "lr_isLayer l2" and "lr_digest l1 = desc" and "initial \<noteq> Some False"
    and "lr_ops l1 = []" and "lr_ops l2 = [OpRemoveImage img]" and "lr_digest l2 \<noteq> desc"
    and "disk_Create (lr_outcome l1) (uj_storage jobs) = (disk1, Inr k1)"
    and "disk_Create (lr_outcome l2) disk1 = (disk2, Inr k2)"
  shows "snd (preloadAllLayers LayerUnpackDiskStorage img ctx now desc initial (l1 # l2 # ls) jobs) = Panicked"
proof -
  have k: "disk_contains k1 disk1" "disk_contains k2 disk2"
    using assms(9,10) by (auto simp: disk_Create_def disk_contains_def split: sum.splits if_splits)
  show ?thesis
    using assms k by (simp add: preloadAllLayers_def GetOrAddImageJob_def newImageUnpackJob_def AddLayerJob_def newLayerUnpackJob_def
      LayerUnpackDiskStorage_def disk_GetJobPath_def layer_jobs_def RemoveImageWithError_def cancel_ctx_def update_conv' delete_conv' Let_def)
qed

theorem removed_image_panics_witness:
  "snd (preloadAllLayers LayerUnpackDiskStorage ''img'' 0 5 ''l1'' None
     [ex_round ''l1'' ''a'' [], ex_round ''l2'' ''b'' [OpRemoveImage ''img'']] (gw_jobs (start []))) = Panicked"
  by (rule removed_image_panics [where ?k1.0 = "''a''" and ?k2.0 = "''b''" and ?disk1.0 = "[''a'']" and ?disk2.0 = "[''a'', ''b'']"])
    (simp_all add: ex_round_def start_def ex_outcome_def disk_Create_def generateUniqueKey_def maxRetriesUniqueID_def disk_contains_def)

end
