(* ===== verification/Parallel_Mount.thy ===== *)
theory Parallel_Mount
  imports Snapshotter_Runs Unpack_Pull
begin

text \<open>
  \<^verbatim>\<open>MountParallel\<close> and \<^verbatim>\<open>CleanImage\<close> of \<^verbatim>\<open>fs/fs.go\<close>, on which the snapshotter relies when layers are pulled in
  parallel: the table of unpack jobs is the state of the file system, and a snapshot's \<^verbatim>\<open>fs\<close> is replaced by the
  unpacked layer. With them it is shown what the snapshotter keeps of its directories.
\<close>

section \<open>Mounting\<close>

definition TargetRefLabel :: string where
  "TargetRefLabel = ''containerd.io/snapshot/cri.image-ref''"

datatype parallel_error =
    PullDisabled | NoImageRef | NoSources | NoBlobInfo | BadImageRef | NoImageManifest | PreloadNotStarted
  | PreloadFailed preload_error | PreloadPanic | RebaseError rebase_error

text \<open>
  What a call of \<^verbatim>\<open>MountParallel\<close> meets: the configuration, the sources of the layer (their digests; \<^const>\<open>None\<close> is an error), the parser
  of references, what \<^verbatim>\<open>preloadAllLayers\<close> has for an image before it makes the image job (\<^const>\<open>None\<close> when the manifest, the
  diff IDs, the namespace or the remote store cannot be had), and what other goroutines do before \<^verbatim>\<open>rebase\<close>.
\<close>

record parallel_env =
  pe_enabled :: bool
  pe_sources :: "labels \<Rightarrow> string list option"
  pe_parses :: "string \<Rightarrow> bool"
  pe_layers :: "string \<Rightarrow> layer_round list option"
  pe_ctx :: nat
  pe_now :: int
  pe_initial :: "bool option"
  pe_ops :: "job_op list"
  pe_rebase :: rebase_env

definition start_preload ::
    "'d job_storage_ops \<Rightarrow> parallel_env \<Rightarrow> string \<Rightarrow> string \<Rightarrow> 'd unpack_jobs \<Rightarrow> 'd unpack_jobs \<times> parallel_error option" where
  "start_preload st pe imageDigest desc jobs =
     (if imageExists imageDigest jobs then (jobs, None)
      else case pe_layers pe imageDigest of
        None \<Rightarrow> (jobs, Some PreloadNotStarted)
      | Some ls \<Rightarrow>
        (case preloadAllLayers st imageDigest (pe_ctx pe) (pe_now pe) desc (pe_initial pe) ls jobs of
           (jobs', Returned e) \<Rightarrow> (jobs', map_option PreloadFailed e)
         | (jobs', Panicked) \<Rightarrow> (jobs', Some PreloadPanic)))"

text \<open>The table, the ID of the directory that was moved, what became of the mount point, and the error.\<close>

definition MountParallel ::
    "'d job_storage_ops \<Rightarrow> parallel_env \<Rightarrow> labels \<Rightarrow> 'd unpack_jobs \<Rightarrow>
     'd unpack_jobs \<times> string option \<times> mount_effect \<times> parallel_error option" where
  "MountParallel st pe ls jobs =
     (let refuse = (\<lambda>e. (jobs, None, MountUntouched, Some e)) in
      if \<not> pe_enabled pe then refuse PullDisabled
      else case ls TargetRefLabel of
        None \<Rightarrow> refuse NoImageRef
      | Some imageRef \<Rightarrow>
        (case pe_sources pe ls of
           None \<Rightarrow> refuse NoSources
         | Some [] \<Rightarrow> refuse NoBlobInfo
         | Some (desc # _) \<Rightarrow>
           if \<not> pe_parses pe imageRef then refuse BadImageRef
           else case ls TargetManifestDigestLabel of
             None \<Rightarrow> refuse NoImageManifest
           | Some imageDigest \<Rightarrow>
             (case start_preload st pe imageDigest desc jobs of
                (jobs1, Some e) \<Rightarrow> (jobs1, None, MountUntouched, Some e)
              | (jobs1, None) \<Rightarrow>
                (case rebase st (pe_rebase pe) imageDigest desc (fold (run_op st) (pe_ops pe) jobs1) of
                   (jobs2, moved, eff, r) \<Rightarrow> (jobs2, moved, eff, map_option RebaseError r)))))"

definition CleanImage :: "parallel_env \<Rightarrow> string \<Rightarrow> 'd unpack_jobs \<Rightarrow> 'd unpack_jobs" where
  "CleanImage pe imgDigest jobs = (if \<not> pe_enabled pe then jobs else fst (RemoveImageWithError imgDigest jobs))"

text \<open>
  What a call leaves on the host: the directory whose \<^verbatim>\<open>fs\<close> is the mount point has no \<^verbatim>\<open>fs\<close> after it was removed, and has
  one after the unpacked layer was moved there.
\<close>

definition set_fs :: "snapshotter \<Rightarrow> string \<Rightarrow> bool \<Rightarrow> 'f host \<Rightarrow> 'f host" where
  "set_fs o' mp v h = h\<lparr>h_dirs := map (\<lambda>(d, sd). (d, if upperPath o' d = mp then sd\<lparr>sd_fs := v\<rparr> else sd)) (h_dirs h)\<rparr>"

definition mount_host :: "snapshotter \<Rightarrow> string \<Rightarrow> mount_effect \<Rightarrow> 'f host \<Rightarrow> 'f host" where
  "mount_host o' mp eff h = (case eff of MountUntouched \<Rightarrow> h | MountRemoved \<Rightarrow> set_fs o' mp False h | MountReplaced \<Rightarrow> set_fs o' mp True h)"

text \<open>
  The file system of the snapshotter, with the calls that \<open>base\<close> has for the others. The error of \<^verbatim>\<open>CleanImage\<close> can only be
  that the image is not there, which it does not report. A panic, which ends the process, stands as an error here.
\<close>

definition parallel_fs ::
    "'d job_storage_ops \<Rightarrow> parallel_env \<Rightarrow> snapshotter \<Rightarrow> 'd unpack_jobs file_system \<Rightarrow> 'd unpack_jobs file_system" where
  "parallel_fs st pe o' base = base\<lparr>
     fs_MountParallel := (\<lambda>mp ls ms h. case MountParallel st pe ls (h_fs h) of
       (jobs', moved, eff, e) \<Rightarrow> (mount_host o' mp eff (h\<lparr>h_fs := jobs'\<rparr>), map_option (\<lambda>_. SnOther ''parallel'') e)),
     fs_CleanImage := (\<lambda>d h. (h\<lparr>h_fs := CleanImage pe d (h_fs h)\<rparr>, None))\<rparr>"

section \<open>What is mounted\<close>









section \<open>What the snapshotter keeps\<close>

lemma find_set_fs:
  "find_dir (set_fs o' mp v h) d = map_option (\<lambda>sd. if upperPath o' d = mp then sd\<lparr>sd_fs := v\<rparr> else sd) (find_dir h d)"
proof -
  have "map_of (map (\<lambda>(d, sd). (d, f d sd)) xs) d = map_option (f d) (map_of xs d)" for f :: "string \<Rightarrow> snap_dir \<Rightarrow> snap_dir" and xs
    by (induction xs) auto
  then show ?thesis by (simp add: find_dir_def set_fs_def)
qed

lemma mount_host_dir: "find_dir (mount_host o' mp eff h) d = None \<longleftrightarrow> find_dir h d = None"
  by (cases eff) (simp_all add: mount_host_def find_set_fs)

lemma mount_host_fs: "eff \<noteq> MountRemoved \<Longrightarrow> has_fs h d \<Longrightarrow> has_fs (mount_host o' mp eff h) d"
  by (cases eff) (auto simp: mount_host_def has_fs_def find_set_fs split: option.splits)

text \<open>
  A parallel pull keeps the directory of every snapshot, whatever goes wrong; it keeps \<^verbatim>\<open>fs\<close> too when the mount point is
  never removed without being replaced.
\<close>

lemma h_fs_dirs [simp]: "find_dir (h\<lparr>h_fs := j\<rparr>) d = find_dir h d" "has_fs (h\<lparr>h_fs := j\<rparr>) d = has_fs h d"
  by (simp_all add: find_dir_def has_fs_def)

lemma parallel_fs_laws:
  assumes "fs_laws b base" and "b \<Longrightarrow> (\<And>ls jobs. fst (snd (snd (MountParallel st pe ls jobs))) \<noteq> MountRemoved)"
  shows "fs_laws b (parallel_fs st pe o' base)"
proof -
  have "keep b UNIV h (fst (fs_MountParallel (parallel_fs st pe o' base) mp ls ms h))" for mp ls ms h
    using assms(2) [of ls "h_fs h"]
    by (auto simp: parallel_fs_def keep_def present_def mount_host_dir case_prod_beta simp del: not_None_eq intro!: mount_host_fs)
  moreover have "keep b UNIV h (fst (fs_CleanImage (parallel_fs st pe o' base) d h))" for d h
    by (simp add: parallel_fs_def keep_def present_def)
  ultimately show ?thesis using assms(1) unfolding fs_laws_def by (simp add: parallel_fs_def)
qed

text \<open>
  C4: whatever calls containerd makes, one after another, whichever system call, mount or commit fails in them, and
  however often the process is restarted, every snapshot of the store has its directory: no cleanup removes the directory
  of a snapshot that exists. It has \<^verbatim>\<open>fs\<close> in it too, if the file system never loses that (\<open>b\<close>).
\<close>

theorem snapshots_have_directories:
  assumes "store_laws ms ok" and "ok (w_db w)" and "live ms (w_db w) = {}"
    and "\<forall>c \<in> set run. ev_ms (fst c) = ms \<and> fs_laws b (ev_fs (fst c))"
    and "w' = fold (exec o') run w" and "ms_GetInfo ms key (w_db w') = Inr (i, info, u)"
  shows "find_dir (w_host w') i \<noteq> None \<and> (b \<longrightarrow> has_fs (w_host w') i)"
proof -
  have "world_inv b ms ok w" using assms(2,3) by (simp add: world_inv_def)
  from fold_exec_inv [OF assms(1,4) this, of o'] show ?thesis
    using assms(5,6) unfolding world_inv_def live_def present_def by blast
qed


text \<open>One layer to pull, whose mount point is removed and then cannot be replaced.\<close>

definition ex_pull :: "bool \<Rightarrow> parallel_env" where
  "ex_pull renamed = \<lparr>pe_enabled = True, pe_sources = (\<lambda>ls. Some [''l1'']), pe_parses = (\<lambda>s. True),
     pe_layers = (\<lambda>i. Some [ex_round ''l1'' ''z'' []]), pe_ctx = 0, pe_now = 5, pe_initial = None, pe_ops = [],
     pe_rebase = \<lparr>rb_ops = [], rb_ctx_done = False, rb_unpack_failed = False, rb_temp = True, rb_mount = MountDirEmpty,
       rb_removeall = True, rb_mkdir = True, rb_rename = renamed\<rparr>\<rparr>"

definition ex_pull_labels :: labels where
  "ex_pull_labels = [targetSnapshotLabel \<mapsto> ''t'', TargetRefLabel \<mapsto> ''r'', TargetManifestDigestLabel \<mapsto> ''img'']"

lemmas ex_pull_defs = ex_pull_def ex_pull_labels_def TargetRefLabel_def MountParallel_def start_preload_def preloadAllLayers_def imageExists_def
  ex_round_def ex_defs rebase_def Claim_def checkLayerExists_def claimable_def set_status_def rebase_body_def rebase_finish_def
  RemoveImageWithError_def cancel_ctx_def layer_Cancel_def remove_job_def label_defs


definition pull_env :: "(list_db, string list unpack_jobs) sn_env" where
  "pull_env = \<lparr>ev_ms = list_store, ev_fs = parallel_fs LayerUnpackDiskStorage (ex_pull False) (sample_sn\<lparr>sn_parallelPullUnpack := True\<rparr>) plain_fs,
     ev_begin = True, ev_commit = (\<lambda>db. True),
     ev_TempName = (\<lambda>ds. Some ''1''), ev_Mkdir = (\<lambda>d. True), ev_Stat = (\<lambda>d. True), ev_Lchown = (\<lambda>d. True),
     ev_Rename = (\<lambda>a b. True), ev_RemoveAll = (\<lambda>d. None), ev_Mounted = (\<lambda>d. True), ev_Readdir = True,
     ev_DiskUsage = (\<lambda>d. Some zero_usage), ev_GetMounts = True, ev_Unmount = (\<lambda>m. True),
     ev_RemapRootFS = (\<lambda>ms i. True), ev_RemapRoot = (\<lambda>d i. True)\<rparr>"

definition pull_world :: "(list_db, string list unpack_jobs) sn_world" where
  "pull_world = \<lparr>w_db = \<lparr>ld_seq = 0, ld_entries = []\<rparr>, w_writer = False,
     w_host = \<lparr>h_dirs = [], h_mounts = [], h_fs = gw_jobs (start [])\<rparr>, w_idmapped = {}\<rparr>"

definition pull_run :: "((list_db, string list unpack_jobs) sn_env \<times> sn_call) list" where
  "pull_run = [(pull_env, CallPrepare (Some ''ns'') ''a'' '''' [\<lambda>i. Inr (i\<lparr>in_Labels := ex_pull_labels\<rparr>)]), (pull_env, CallCleanup)]"

lemmas pull_eval = pull_run_def pull_env_def pull_world_def parallel_fs_def mount_host_def set_fs_def upperPath_def sn_eval sn_sample
  nat_str_1 Let_def prepare_target_def skipRemoteSnapshotPrepare_def prepare_local_def prepareParallelPullSnapshot_def prepare_with_def
  on_host_def ex_pull_defs

theorem snapshots_have_directories_witness:
  "(\<exists>info u. ls_GetInfo ''a'' (w_db (fold (exec sample_sn) sample_run empty_world)) = Inr (''1'', info, u)) \<and>
   has_fs (w_host (fold (exec sample_sn) sample_run empty_world)) ''1'' \<and>
   (\<exists>info u. ls_GetInfo ''a'' (w_db (fold (exec (sample_sn\<lparr>sn_parallelPullUnpack := True\<rparr>)) pull_run pull_world)) = Inr (''1'', info, u)) \<and>
   find_dir (w_host (fold (exec (sample_sn\<lparr>sn_parallelPullUnpack := True\<rparr>)) pull_run pull_world)) ''1'' \<noteq> None"
proof -
  obtain i1 u1 where g: "ls_GetInfo ''a'' (w_db (fold (exec sample_sn) sample_run empty_world)) = Inr (''1'', i1, u1)"
    by (simp add: sample_run_def sn_eval sn_sample nat_str_1 Let_def)
  obtain i2 u2 where p: "ls_GetInfo ''a'' (w_db (fold (exec (sample_sn\<lparr>sn_parallelPullUnpack := True\<rparr>)) pull_run pull_world)) = Inr (''1'', i2, u2)"
    by (simp add: pull_eval)
  have w: "w_db pull_world = w_db empty_world" by (simp add: pull_world_def empty_world_def)
  have "\<forall>c \<in> set sample_run. ev_ms (fst c) = list_store \<and> fs_laws True (ev_fs (fst c))" by (simp add: sample_run_def plain_fs_laws)
  from snapshots_have_directories [OF list_store_laws _ _ this refl, of empty_world "''a''" sample_sn]
  have "has_fs (w_host (fold (exec sample_sn) sample_run empty_world)) ''1''" using g by simp
  moreover have "\<forall>c \<in> set pull_run. ev_ms (fst c) = list_store \<and> fs_laws False (ev_fs (fst c))"
    by (simp add: pull_run_def pull_env_def parallel_fs_laws plain_fs_laws)
  from snapshots_have_directories [OF list_store_laws _ _ this refl, of pull_world "''a''" "sample_sn\<lparr>sn_parallelPullUnpack := True\<rparr>"]
  have "find_dir (w_host (fold (exec (sample_sn\<lparr>sn_parallelPullUnpack := True\<rparr>)) pull_run pull_world)) ''1'' \<noteq> None"
    using p w by simp
  ultimately show ?thesis using g p by blast
qed

text \<open>In the second run the layer cannot be moved, and the snapshot is left without \<^verbatim>\<open>fs\<close>.\<close>

lemma failed_move_loses_fs:
  "\<not> has_fs (w_host (fold (exec (sample_sn\<lparr>sn_parallelPullUnpack := True\<rparr>)) pull_run pull_world)) ''1''"
  by (simp add: pull_eval)

end
