(* ===== verification/Spec2Isabelle.thy ===== *)
theory Spec2Isabelle
  imports Remote_Regions Remote_Blob Zinfo_Blob Ztoc_Marshaler Fuse_Node Parallel_Pull Parallel_Mount
begin

text \<open>
  A model of the soci-snapshotter, a containerd snapshotter that mounts image layers before they are
  downloaded and fetches their contents on demand, with the properties that make it correct.

  \<^bold>\<open>The program.\<close> A layer is a compressed tar archive in a registry. Its \<^emph>\<open>ztoc\<close> holds a table of contents (names,
  attributes and offsets of the files in the uncompressed archive) and a \<^emph>\<open>zinfo\<close>, a list of checkpoints that cut
  the archive into \<^emph>\<open>spans\<close> that can be decompressed on their own. containerd calls the snapshotter; it asks the
  file system to mount a layer; the layer's FUSE nodes answer the kernel from a metadata database built from the
  table of contents; a read of a file asks the span manager for a range of the uncompressed archive; it fetches the
  spans from the remote blob, verifies them against the digests of the ztoc and keeps them in a cache. Images without a
  ztoc may be pulled in parallel instead: the layers are fetched in chunks, unpacked into directories of their own and
  moved to their mount points.

  \<^bold>\<open>How the theories model it\<close> (paths are below \<^verbatim>\<open>src/\<close>; definitions have the names of the functions they translate,
  with a prefix where a name is taken):

  \<^item> \<^verbatim>\<open>Prelude\<close>: int64 arithmetic with its wrap-around, slices, results of functions that may fail.
  \<^item> \<^verbatim>\<open>Remote_Regions\<close> (\<^verbatim>\<open>fs/remote/util.go\<close>): the region set refines the set of bytes it covers.
  \<^item> \<^verbatim>\<open>Remote_Blob\<close> (\<^verbatim>\<open>fs/remote/blob.go\<close>, the content-handler fetcher of \<^verbatim>\<open>fs/remote/resolver.go\<close>): \<^verbatim>\<open>ReadAt\<close> returns the bytes of
    the blob when the registry answers the range, and the head of the blob when it answers with the whole.
  \<^item> \<^verbatim>\<open>Zinfo\<close>, \<^verbatim>\<open>Zinfo_Blob\<close> (\<^verbatim>\<open>ztoc/compression\<close>, Go and C): spans partition the archive, every offset lies in the span it
    is attributed to, and the serialized index reads back; a blob that makes the reader run over its end.
  \<^item> \<^verbatim>\<open>Layer_Data\<close>: when a zinfo describes a layer, the contract between zinfo and span manager.
  \<^item> \<^verbatim>\<open>Ztoc_Toc\<close>, \<^verbatim>\<open>Ztoc_Marshaler\<close> (\<^verbatim>\<open>ztoc/*.go\<close>): building, searching, extracting, and the round trip of the
    serialization.
  \<^item> \<^verbatim>\<open>Lru_Cache\<close> (\<^verbatim>\<open>util/lrucache\<close>), \<^verbatim>\<open>Blob_Cache\<close> (\<^verbatim>\<open>cache/cache.go\<close>): a value is finalized exactly once, after its last use; what
    is added to a cache is what is read from it.
  \<^item> \<^verbatim>\<open>Span_Manager\<close>, \<^verbatim>\<open>Span_Reads\<close> (\<^verbatim>\<open>fs/span-manager\<close>): a read returns the bytes of the layer or an error, whatever the registry
    sends and in whatever order the spans are resolved; with a working registry it succeeds.
  \<^item> \<^verbatim>\<open>Metadata_Db\<close>, \<^verbatim>\<open>Go_Path\<close>, \<^verbatim>\<open>Metadata_Reader\<close>, \<^verbatim>\<open>Metadata_Tree\<close>, \<^verbatim>\<open>Metadata_Lookup\<close> (\<^verbatim>\<open>metadata/\<close>, \<^verbatim>\<open>util/dbutil\<close>): every entry of a
    table of contents is found under its path, with its attributes and offsets.
  \<^item> \<^verbatim>\<open>File_Reader\<close> (\<^verbatim>\<open>fs/reader\<close>): a read of a file returns the bytes of the file.
  \<^item> \<^verbatim>\<open>Idmap\<close> (\<^verbatim>\<open>idtools/idmap.go\<close>), \<^verbatim>\<open>Fuse_Node\<close> (\<^verbatim>\<open>fs/layer/node.go\<close>): ID mapping is injective, inode numbers are unique
    within a layer, and what a directory lists is what \<^verbatim>\<open>Lookup\<close> finds, whiteout files and the state directory apart.
  \<^item> \<^verbatim>\<open>Snapshotter\<close>, \<^verbatim>\<open>Snapshotter_Inv\<close>, \<^verbatim>\<open>Snapshotter_Runs\<close> (\<^verbatim>\<open>snapshot/snapshot.go\<close>): the operations, the invariant
    that each snapshot has its directory, and that \<^verbatim>\<open>Cleanup\<close> removes exactly the other directories.
  \<^item> \<^verbatim>\<open>Unpack_Jobs\<close>, \<^verbatim>\<open>Unpack_Runs\<close> (\<^verbatim>\<open>fs/adaptive_fetch_image_layers.go\<close>): under every interleaving with the garbage collector a job
    in the table keeps its directory, no job is claimed twice, and unpack leases are balanced.
  \<^item> \<^verbatim>\<open>Unpack_Pull\<close> (\<^verbatim>\<open>preloadAllLayers\<close>, \<^verbatim>\<open>premount\<close> and \<^verbatim>\<open>rebase\<close> of \<^verbatim>\<open>fs/fs.go\<close>): preloading leaves a job in the table for
    every layer or removes the image, and a claimed job leaves the table however \<^verbatim>\<open>rebase\<close> ends.
  \<^item> \<^verbatim>\<open>Parallel_Mount\<close> (\<^verbatim>\<open>MountParallel\<close> and \<^verbatim>\<open>CleanImage\<close> of \<^verbatim>\<open>fs/fs.go\<close>): what is moved to a mount point belongs to the layer asked for.
    On the snapshotter with this file system: over every sequence of calls, with whatever failures, each snapshot has its
    directory. Its \<^verbatim>\<open>fs\<close> is kept too unless a parallel pull removes the mount point and cannot move the layer there.
  \<^item> \<^verbatim>\<open>Parallel_Fetch\<close>, \<^verbatim>\<open>Parallel_Pull\<close> (\<^verbatim>\<open>fs/parallel_artifact_fetcher.go\<close>, \<^verbatim>\<open>fs/artifact_fetcher.go\<close>, \<^verbatim>\<open>fs/unpacker.go\<close>,
    \<^verbatim>\<open>fs/parallel_unpacker.go\<close>): the chunks give the layer in any order of completion; a layer is extracted only into an empty
    directory, and unpacking succeeds only if the digests match, which are compared after the extraction.

  \<^bold>\<open>Conventions.\<close> State is a record that an operation returns changed; objects that are shared by pointer live in a heap
  and are referred to by address. Errors are values of one datatype per component, panics a constructor of it or
  \<^const>\<open>None\<close>. The outcome of a system call, of a clock or of a random choice is an argument of the operation that makes it. A
  mutex held from the first line of an operation to its last makes the operation one step; goroutines are
  schedules or step relations over such steps. Libraries (zlib, bbolt, groupcache, containerd's stores, flatbuffers,
  archive/tar, go-fuse, semaphores, digests) and registries are parameters, and the laws that a property needs of
  them are its hypotheses or the assumptions of a locale, met in the witnesses by concrete functions.

  \<^bold>\<open>Bounds.\<close> The search that follows the links of a table of contents, which may be cyclic, is a partial function, and it is shown when it
  returns; the parent chain of a snapshot is followed by a function that is proved to return. The
  retry loops run for the number of retries the source has. All other functions terminate by the structure of their
  arguments. The hypotheses on sizes keep int64 offsets from wrapping around.

  \<^bold>\<open>Not modelled.\<close> Calls of the snapshotter that interleave, except where a property says so. Loops that only feed bytes to zlib (\<^verbatim>\<open>generate_zinfo_from_fp\<close>, the inflate loops), represented by their result. The
  rest of \<^verbatim>\<open>fs/fs.go\<close> and \<^verbatim>\<open>fs/layer/layer.go\<close>, which start FUSE servers, resolve layers and talk to containerd. The registry
  client, authentication and retries (\<^verbatim>\<open>fs/remote/resolver.go\<close>, \<^verbatim>\<open>internal/http\<close>, \<^verbatim>\<open>service/resolver\<close>): network protocols. The background
  fetcher, whose order depends on timers and rate limits. Creating, converting, storing and pushing SOCI indexes
  (\<^verbatim>\<open>soci/\<close>, \<^verbatim>\<open>cmd/soci\<close>): JSON documents and content stores of containerd and ORAS. Configuration, metrics, logging, the gRPC service,
  the labels of \<^verbatim>\<open>fs/source\<close>, generated code, tests and benchmarks.
\<close>

end
